(* ===== verification/Prelude.thy ===== *)
theory Prelude
  imports Main "HOL-Library.Word" "HOL-Library.Char_ord" "HOL-Library.List_Lexorder"
begin

text \<open>
  Shared vocabulary of the development: the state-and-error actions that model Rust functions
  returning \<^verbatim>\<open>Result\<close> while they mutate a connection, the collections of rewrite
  rules the component theories extend, and the generic facts on lists, options and association
  lists that several components use.
\<close>

section \<open>Collections\<close>

named_theorems act_simps \<open>unfolding rules of the action combinators\<close>
named_theorems act_elims \<open>inversion rules of the action combinators\<close>

section \<open>Actions: state passing with errors as values\<close>

text \<open>
  An action takes the state and returns the result and the new state. An error keeps the state
  changes made before it, exactly as a Rust function that returns \<^verbatim>\<open>Err\<close> after some
  statements of the open transaction have run; undoing them is an explicit rollback of the caller.
\<close>

type_synonym ('s, 'e, 'a) act = "'s \<Rightarrow> ('e + 'a) \<times> 's"

definition ret :: "'a \<Rightarrow> ('s, 'e, 'a) act" where
  "ret x s = (Inr x, s)"

definition throw :: "'e \<Rightarrow> ('s, 'e, 'a) act" where
  "throw e s = (Inl e, s)"

definition andThen :: "('s, 'e, 'a) act \<Rightarrow> ('a \<Rightarrow> ('s, 'e, 'b) act) \<Rightarrow> ('s, 'e, 'b) act" where
  "andThen m f s = (case m s of (Inl e, s') \<Rightarrow> (Inl e, s') | (Inr x, s') \<Rightarrow> f x s')"

text \<open>\<^verbatim>\<open>map_err\<close> and the \<^verbatim>\<open>?\<close> operator's error conversion.\<close>

definition mapErr :: "('e \<Rightarrow> 'f) \<Rightarrow> ('s, 'e, 'a) act \<Rightarrow> ('s, 'f, 'a) act" where
  "mapErr g m s = (case m s of (Inl e, s') \<Rightarrow> (Inl (g e), s') | (Inr x, s') \<Rightarrow> (Inr x, s'))"

text \<open>A pure \<^verbatim>\<open>Result\<close> used inside an action.\<close>

definition liftR :: "'e + 'a \<Rightarrow> ('s, 'e, 'a) act" where
  "liftR r s = (r, s)"

text \<open>A \<^verbatim>\<open>for\<close> loop with \<^verbatim>\<open>?\<close> in its body that collects one value per element.\<close>

fun forA :: "'a list \<Rightarrow> ('a \<Rightarrow> ('s, 'e, 'b) act) \<Rightarrow> ('s, 'e, 'b list) act" where
  "forA [] f = ret []"
| "forA (x # xs) f = andThen (f x) (\<lambda>y. andThen (forA xs f) (\<lambda>ys. ret (y # ys)))"

lemma ret_apply [simp, act_simps]: "ret x s = (Inr x, s)"
  by (simp add: ret_def)

lemma throw_apply [simp, act_simps]: "throw e s = (Inl e, s)"
  by (simp add: throw_def)

lemma liftR_apply [simp, act_simps]: "liftR r s = (r, s)"
  by (simp add: liftR_def)

lemma andThen_ret [simp]: "andThen (ret x) f = f x"
  by (simp add: andThen_def fun_eq_iff)

lemma andThen_throw [simp]: "andThen (throw e) f = throw e"
  by (simp add: andThen_def fun_eq_iff)

lemma andThen_Inl [act_simps]: "m s = (Inl e, t) \<Longrightarrow> andThen m f s = (Inl e, t)"
  by (simp add: andThen_def)

lemma andThen_Inr [act_simps]: "m s = (Inr x, t) \<Longrightarrow> andThen m f s = f x t"
  by (simp add: andThen_def)

lemma andThen_eq_Inr:
  "andThen m f s = (Inr y, u) \<longleftrightarrow> (\<exists>x t. m s = (Inr x, t) \<and> f x t = (Inr y, u))"
  by (auto simp: andThen_def split: prod.splits sum.splits)

lemma andThen_InrE [act_elims]:
  assumes "andThen m f s = (Inr y, u)"
  obtains x t where "m s = (Inr x, t)" and "f x t = (Inr y, u)"
  using assms by (auto simp: andThen_eq_Inr)

lemma andThen_eq_Inl:
  "andThen m f s = (Inl e, u) \<longleftrightarrow>
     m s = (Inl e, u) \<or> (\<exists>x t. m s = (Inr x, t) \<and> f x t = (Inl e, u))"
  by (auto simp: andThen_def split: prod.splits sum.splits)

lemma andThen_InlE [act_elims]:
  assumes "andThen m f s = (Inl e, u)"
  obtains (first) "m s = (Inl e, u)"
  | (second) x t where "m s = (Inr x, t)" and "f x t = (Inl e, u)"
  using assms by (auto simp: andThen_eq_Inl)

lemma mapErr_eq_Inr [simp]: "mapErr g m s = (Inr x, t) \<longleftrightarrow> m s = (Inr x, t)"
  by (auto simp: mapErr_def split: prod.splits sum.splits)

lemma mapErr_eq_Inl: "mapErr g m s = (Inl e, t) \<longleftrightarrow> (\<exists>e'. m s = (Inl e', t) \<and> e = g e')"
  by (auto simp: mapErr_def split: prod.splits sum.splits)

lemma snd_mapErr [simp]: "snd (mapErr g m s) = snd (m s)"
  by (simp add: mapErr_def split: prod.splits sum.splits)

text \<open>
  Triples over actions: from every state in \<open>P\<close>, a normal return satisfies \<open>Q\<close> and an error
  satisfies \<open>E\<close>. They compose along \<open>andThen\<close> and \<open>forA\<close>, so that the proof that a whole
  operation keeps an invariant is a walk over its statements.
\<close>

definition triple ::
    "('s \<Rightarrow> bool) \<Rightarrow> ('s, 'e, 'a) act \<Rightarrow> ('a \<Rightarrow> 's \<Rightarrow> bool) \<Rightarrow> ('e \<Rightarrow> 's \<Rightarrow> bool) \<Rightarrow> bool" where
  "triple P m Q E \<longleftrightarrow>
     (\<forall>s. P s \<longrightarrow> (case m s of (Inl e, s') \<Rightarrow> E e s' | (Inr x, s') \<Rightarrow> Q x s'))"

named_theorems triple_intros \<open>introduction rules for triples\<close>

lemma tripleI:
  assumes "\<And>s x s'. P s \<Longrightarrow> m s = (Inr x, s') \<Longrightarrow> Q x s'"
    and "\<And>s e s'. P s \<Longrightarrow> m s = (Inl e, s') \<Longrightarrow> E e s'"
  shows "triple P m Q E"
  using assms by (auto simp: triple_def split: prod.splits sum.splits)

lemma tripleD_Inr: "triple P m Q E \<Longrightarrow> P s \<Longrightarrow> m s = (Inr x, s') \<Longrightarrow> Q x s'"
  by (auto simp: triple_def split: prod.splits sum.splits)

lemma tripleD_Inl: "triple P m Q E \<Longrightarrow> P s \<Longrightarrow> m s = (Inl e, s') \<Longrightarrow> E e s'"
  by (auto simp: triple_def split: prod.splits sum.splits)

lemma triple_state:
  "triple P m Q E \<Longrightarrow> P s \<Longrightarrow> (\<exists>e. E e (snd (m s))) \<or> (\<exists>x. Q x (snd (m s)))"
  unfolding triple_def by (drule spec [of _ s], cases "m s", cases "fst (m s)") auto

lemma triple_conseq:
  assumes "triple P m Q E" "\<And>s. P' s \<Longrightarrow> P s" "\<And>x s. Q x s \<Longrightarrow> Q' x s" "\<And>e s. E e s \<Longrightarrow> E' e s"
  shows "triple P' m Q' E'"
proof (rule tripleI)
  show "Q' x s'" if "P' s" "m s = (Inr x, s')" for s x s'
    using assms(2,3) tripleD_Inr [OF assms(1)] that by blast
  show "E' e s'" if "P' s" "m s = (Inl e, s')" for s e s'
    using assms(2,4) tripleD_Inl [OF assms(1)] that by blast
qed

lemma triple_ret [triple_intros]: "(\<And>s. P s \<Longrightarrow> Q x s) \<Longrightarrow> triple P (ret x) Q E"
  by (simp add: triple_def)

lemma triple_throw [triple_intros]: "(\<And>s. P s \<Longrightarrow> E e s) \<Longrightarrow> triple P (throw e) Q E"
  by (simp add: triple_def)

lemma triple_liftR [triple_intros]:
  "(\<And>s x. P s \<Longrightarrow> r = Inr x \<Longrightarrow> Q x s) \<Longrightarrow> (\<And>s e. P s \<Longrightarrow> r = Inl e \<Longrightarrow> E e s) \<Longrightarrow>
   triple P (liftR r) Q E"
  by (auto simp: triple_def split: sum.splits)

lemma triple_mapErr [triple_intros]:
  "triple P m Q (\<lambda>e. E (g e)) \<Longrightarrow> triple P (mapErr g m) Q E"
  by (auto simp: triple_def mapErr_def split: prod.splits sum.splits)

lemma triple_andThen:
  assumes "triple P m R E" "\<And>x. triple (R x) (f x) Q E"
  shows "triple P (andThen m f) Q E"
proof (rule tripleI)
  fix s y u assume "P s" "andThen m f s = (Inr y, u)"
  then show "Q y u" unfolding andThen_eq_Inr
    using tripleD_Inr [OF assms(1)] tripleD_Inr [OF assms(2)] by blast
next
  fix s e u assume "P s" "andThen m f s = (Inl e, u)"
  then show "E e u" unfolding andThen_eq_Inl
    using tripleD_Inl [OF assms(1)] tripleD_Inr [OF assms(1)] tripleD_Inl [OF assms(2)] by blast
qed

text \<open>The frequent case: a step that keeps an invariant, followed by the rest.\<close>

lemma triple_andThen_inv [triple_intros]:
  "triple P m (\<lambda>_. P) E \<Longrightarrow> (\<And>x. triple P (f x) Q E) \<Longrightarrow> triple P (andThen m f) Q E"
  by (rule triple_andThen)

lemma triple_forA [triple_intros]:
  "(\<And>x. x \<in> set xs \<Longrightarrow> triple P (f x) (\<lambda>_. P) E) \<Longrightarrow> triple P (forA xs f) (\<lambda>_. P) E"
proof (induction xs)
  case Nil
  show ?case unfolding forA.simps by (rule triple_ret)
next
  case (Cons x xs)
  have "triple P (f x) (\<lambda>_. P) E" by (rule Cons.prems) simp
  moreover have "triple P (forA xs f) (\<lambda>_. P) E" by (rule Cons.IH) (simp add: Cons.prems)
  ultimately show ?case unfolding forA.simps
    by (intro triple_andThen_inv triple_ret)
qed

lemma triple_If [triple_intros]:
  "(c \<Longrightarrow> triple P m Q E) \<Longrightarrow> (\<not> c \<Longrightarrow> triple P n Q E) \<Longrightarrow> triple P (if c then m else n) Q E"
  by simp

lemma triple_case_option [triple_intros]:
  "(x = None \<Longrightarrow> triple P m Q E) \<Longrightarrow> (\<And>y. x = Some y \<Longrightarrow> triple P (f y) Q E) \<Longrightarrow>
   triple P (case x of None \<Rightarrow> m | Some y \<Rightarrow> f y) Q E"
  by (cases x) auto

lemma triple_case_sum [triple_intros]:
  "(\<And>e. x = Inl e \<Longrightarrow> triple P (g e) Q E) \<Longrightarrow> (\<And>y. x = Inr y \<Longrightarrow> triple P (f y) Q E) \<Longrightarrow>
   triple P (case x of Inl e \<Rightarrow> g e | Inr y \<Rightarrow> f y) Q E"
  by (cases x) auto

lemma triple_case_prod [triple_intros]:
  "(\<And>a b. p = (a, b) \<Longrightarrow> triple P (f a b) Q E) \<Longrightarrow> triple P (case p of (a, b) \<Rightarrow> f a b) Q E"
  by (cases p) auto

lemma returned: "\<not> isl (fst (m s)) \<Longrightarrow> \<exists>a s'. m s = (Inr a, s')"
  by (cases "m s"; cases "fst (m s)") auto

section \<open>Lists and options\<close>

text \<open>Lookup of the first row of a table that satisfies a condition (\<^verbatim>\<open>LIMIT 1\<close>).\<close>

fun find_row :: "('a \<Rightarrow> bool) \<Rightarrow> 'a list \<Rightarrow> 'a option" where
  "find_row p [] = None"
| "find_row p (x # xs) = (if p x then Some x else find_row p xs)"

lemma find_row_Some: "find_row p xs = Some x \<Longrightarrow> x \<in> set xs \<and> p x"
  by (induction xs) (auto split: if_splits)

lemma find_row_None: "find_row p xs = None \<longleftrightarrow> (\<forall>x\<in>set xs. \<not> p x)"
  by (induction xs) auto

lemma find_row_append:
  "find_row p (xs @ ys) = (case find_row p xs of None \<Rightarrow> find_row p ys | Some x \<Rightarrow> Some x)"
  by (induction xs) auto

lemma find_row_filter_other:
  "(\<And>x. x \<in> set xs \<Longrightarrow> p x \<Longrightarrow> q x) \<Longrightarrow> find_row p (filter q xs) = find_row p xs"
  by (induction xs) auto

lemma find_row_unique:
  assumes "distinct (map key xs)" "x \<in> set xs"
  shows "find_row (\<lambda>y. key y = key x) xs = Some x"
  using assms by (induction xs) (auto simp: image_iff)

lemma find_row_map:
  "(\<And>x. x \<in> set xs \<Longrightarrow> p (f x) = p x) \<Longrightarrow> find_row p (map f xs) = map_option f (find_row p xs)"
  by (induction xs) auto

lemma length_filter_less_ex:
  "x \<in> set xs \<Longrightarrow> \<not> p x \<Longrightarrow> length (filter p xs) < length xs"
  by (metis length_filter_less)

text \<open>
  \<^verbatim>\<open>INSERT ... ON CONFLICT(key) DO UPDATE\<close>: replaces the row with the key of the new row, or
  appends it.
\<close>

definition upsert :: "('r \<Rightarrow> 'k) \<Rightarrow> 'r \<Rightarrow> 'r list \<Rightarrow> 'r list" where
  "upsert key new rows =
     (if \<exists>r\<in>set rows. key r = key new then map (\<lambda>r. if key r = key new then new else r) rows
      else rows @ [new])"

lemma upsert_keys:
  "map key (upsert key new rows) = (if key new \<in> key ` set rows then map key rows else map key rows @ [key new])"
  by (auto simp: upsert_def image_iff) metis+

lemma distinct_upsert: "distinct (map key rows) \<Longrightarrow> distinct (map key (upsert key new rows))"
  by (auto simp: upsert_keys)

lemma set_upsert:
  "set (upsert key new rows) = insert new {r \<in> set rows. key r \<noteq> key new}"
  by (auto simp: upsert_def)

lemma find_row_upsert:
  "find_row (\<lambda>r. key r = k) (upsert key new rows) =
     (if k = key new then Some new else find_row (\<lambda>r. key r = k) rows)"
proof -
  have map: "find_row (\<lambda>r. key r = k) (map (\<lambda>r. if key r = key new then new else r) rows) =
    (if k = key new then (if \<exists>r\<in>set rows. key r = k then Some new else None)
     else find_row (\<lambda>r. key r = k) rows)"
    by (induction rows) auto
  show ?thesis
  proof (cases "\<exists>r\<in>set rows. key r = key new")
    case True
    then show ?thesis by (auto simp: upsert_def map)
  next
    case False
    then have "find_row (\<lambda>r. key r = key new) rows = None" by (simp add: find_row_None)
    with False show ?thesis by (auto simp: upsert_def find_row_append split: option.splits)
  qed
qed

lemma distinct_upsert_other:
  assumes "distinct (map key rows)" "distinct (map f rows)"
    and "\<And>r. r \<in> set rows \<Longrightarrow> key r \<noteq> key new \<Longrightarrow> f r \<noteq> f new"
  shows "distinct (map f (upsert key new rows))"
proof -
  have "distinct (upsert key new rows)"
    using distinct_upsert [OF assms(1), of new] by (simp add: distinct_map)
  moreover have "inj_on f (set (upsert key new rows))"
    using assms by (auto simp: set_upsert distinct_map inj_on_def dest: sym)
  ultimately show ?thesis by (simp add: distinct_map)
qed

section \<open>Ordered maps\<close>

text \<open>
  The contract of \<^verbatim>\<open>std::collections::BTreeMap\<close> that its users rely on: lookups after
  insertions and removals, and keys in increasing order when it is iterated.
\<close>

locale ordered_map =
  fixes lookup :: "'m \<Rightarrow> 'k::linorder \<Rightarrow> 'v option"
    and insert :: "'k \<Rightarrow> 'v \<Rightarrow> 'm \<Rightarrow> 'm"
    and remove :: "'k \<Rightarrow> 'm \<Rightarrow> 'm"
    and entries :: "'m \<Rightarrow> ('k \<times> 'v) list"
    and ordered :: "'m \<Rightarrow> bool"
  assumes lookup_insert: "ordered m \<Longrightarrow> lookup (insert k v m) j = (if j = k then Some v else lookup m j)"
    and lookup_remove: "ordered m \<Longrightarrow> lookup (remove k m) j = (if j = k then None else lookup m j)"
    and ordered_insert: "ordered m \<Longrightarrow> ordered (insert k v m)"
    and ordered_remove: "ordered m \<Longrightarrow> ordered (remove k m)"
    and entries_sorted: "ordered m \<Longrightarrow> sorted_wrt (<) (map fst (entries m))"
    and entries_lookup: "ordered m \<Longrightarrow> (k, v) \<in> set (entries m) \<longleftrightarrow> lookup m k = Some v"
begin

text \<open>Two maps with the same lookups are iterated alike.\<close>

lemma entries_ext:
  assumes "ordered m" "ordered n" "\<And>k. lookup m k = lookup n k"
  shows "entries m = entries n"
proof -
  have "set (entries m) = set (entries n)" using assms entries_lookup by auto
  moreover have "distinct (entries m)" "distinct (entries n)" "sorted (map fst (entries m))" "sorted (map fst (entries n))"
    using entries_sorted assms by (auto simp: strict_sorted_iff distinct_map)
  moreover have "inj_on fst (set (entries m) \<union> set (entries n))"
    using entries_sorted assms calculation by (auto simp: strict_sorted_iff distinct_map)
  ultimately show ?thesis
    by (intro map_sorted_distinct_set_unique [of fst]) (auto simp: distinct_map intro: inj_on_subset)
qed

lemma insert_insert: "ordered m \<Longrightarrow> entries (insert k v (insert k w m)) = entries (insert k v m)"
  by (rule entries_ext) (auto simp: ordered_insert lookup_insert)

lemma remove_insert: "ordered m \<Longrightarrow> lookup m k = None \<Longrightarrow> entries (remove k (insert k v m)) = entries m"
  by (rule entries_ext) (auto simp: ordered_insert ordered_remove lookup_insert lookup_remove)

end

text \<open>The map as the list of its entries in key order.\<close>

fun bt_insert :: "'k::linorder \<Rightarrow> 'v \<Rightarrow> ('k \<times> 'v) list \<Rightarrow> ('k \<times> 'v) list" where
  "bt_insert k v [] = [(k, v)]"
| "bt_insert k v ((j, w) # m) =
     (if k < j then (k, v) # (j, w) # m else if k = j then (k, v) # m else (j, w) # bt_insert k v m)"

definition bt_remove :: "'k \<Rightarrow> ('k \<times> 'v) list \<Rightarrow> ('k \<times> 'v) list" where
  "bt_remove k m = filter (\<lambda>e. fst e \<noteq> k) m"

definition bt_ordered :: "('k::linorder \<times> 'v) list \<Rightarrow> bool" where
  "bt_ordered m \<longleftrightarrow> sorted_wrt (<) (map fst m)"

lemma keys_bt_insert: "fst ` set (bt_insert k v m) = Set.insert k (fst ` set m)"
  by (induction k v m rule: bt_insert.induct) auto

lemma bt_ordered_insert: "bt_ordered m \<Longrightarrow> bt_ordered (bt_insert k v m)"
proof (induction k v m rule: bt_insert.induct)
  case (2 k v j w m)
  then show ?case using keys_bt_insert [of k v m] by (auto simp: bt_ordered_def)
qed (simp add: bt_ordered_def)

lemma map_of_bt_insert:
  "bt_ordered m \<Longrightarrow> map_of (bt_insert k v m) j = (if j = k then Some v else map_of m j)"
proof (induction k v m rule: bt_insert.induct)
  case (2 k v i w m)
  then show ?case by (auto simp: bt_ordered_def)
qed simp

lemma map_of_bt_remove: "map_of (bt_remove k m) j = (if j = k then None else map_of m j)"
  by (induction m) (auto simp: bt_remove_def)

lemma sorted_wrt_map_filter: "sorted_wrt P (map f xs) \<Longrightarrow> sorted_wrt P (map f (filter q xs))"
  by (induction xs) auto

lemma bt_ordered_remove: "bt_ordered m \<Longrightarrow> bt_ordered (bt_remove k m)"
  by (simp add: bt_ordered_def bt_remove_def sorted_wrt_map_filter)

interpretation btree: ordered_map map_of bt_insert bt_remove "\<lambda>m. m" bt_ordered
proof
  show "sorted_wrt (<) (map fst m)" if "bt_ordered m" for m :: "('k::linorder \<times> 'v) list"
    using that by (simp add: bt_ordered_def)
  show "(k, v) \<in> set m \<longleftrightarrow> map_of m k = Some v" if "bt_ordered m" for m :: "('k::linorder \<times> 'v) list" and k v
    using that by (simp add: bt_ordered_def strict_sorted_iff)
qed (auto simp: map_of_bt_insert map_of_bt_remove bt_ordered_insert bt_ordered_remove)

section \<open>Systems of operations with an invariant\<close>

text \<open>
  The contract several components share: a component offers operations as total state
  transformers and promises that each keeps its invariant. Its clients get the invariant for
  every sequence of operations.
\<close>

locale invariant_system =
  fixes step :: "'op \<Rightarrow> 's \<Rightarrow> 's"
    and inv :: "'s \<Rightarrow> bool"
  assumes step_inv: "inv s \<Longrightarrow> inv (step op s)"
begin

lemma run_inv: "inv s \<Longrightarrow> inv (fold step ops s)"
  by (induction ops arbitrary: s) (auto intro: step_inv)

lemma run_split: "inv s \<Longrightarrow> inv (fold step (ops @ ops') s) \<and> inv (fold step ops s)"
  by (simp add: run_inv)

end

end
