(* ===== verification/Rust_Num.thy ===== *)
theory Rust_Num
  imports Prelude "HOL-Library.Log_Nat" "HOL-Library.Code_Target_Nat" Complex_Main
begin

text \<open>
  The numeric types of the Rust sources: bounds and casts of the integer types, and the
  IEEE 754 double \<^verbatim>\<open>f64\<close> with round-to-nearest-even, modelled on exact rationals.
  A finite double is the rational it denotes. The sign of zero is not kept: no code of the
  modelled crates divides by a double or inspects its sign bit, comparisons identify the two
  zeros, and integral values are printed through \<^verbatim>\<open>as i64\<close>.
\<close>

section \<open>Machine integers\<close>

type_synonym i64 = int
type_synonym i32 = int
type_synonym u64 = nat
type_synonym u16 = nat

definition i64_min :: int where "i64_min = - (2 ^ 63)"
definition i64_max :: int where "i64_max = 2 ^ 63 - 1"

definition in_i64 :: "int \<Rightarrow> bool" where
  "in_i64 x \<longleftrightarrow> i64_min \<le> x \<and> x \<le> i64_max"

text \<open>\<^verbatim>\<open>i64::saturating_sub\<close>, \<^verbatim>\<open>i64::saturating_add\<close> and \<^verbatim>\<open>i64::checked_sub\<close>.\<close>

definition clamp_i64 :: "int \<Rightarrow> int" where
  "clamp_i64 x = max i64_min (min i64_max x)"

definition saturating_sub :: "i64 \<Rightarrow> i64 \<Rightarrow> i64" where
  "saturating_sub a b = clamp_i64 (a - b)"

definition saturating_add :: "i64 \<Rightarrow> i64 \<Rightarrow> i64" where
  "saturating_add a b = clamp_i64 (a + b)"

definition checked_sub :: "i64 \<Rightarrow> i64 \<Rightarrow> i64 option" where
  "checked_sub a b = (if in_i64 (a - b) then Some (a - b) else None)"

text \<open>\<^verbatim>\<open>i64::try_from(u64)\<close>, and the two bit-preserving casts between \<^verbatim>\<open>u64\<close> and \<^verbatim>\<open>i64\<close>.\<close>

definition i64_try_from_u64 :: "u64 \<Rightarrow> i64 option" where
  "i64_try_from_u64 n = (if int n \<le> i64_max then Some (int n) else None)"

definition u64_as_i64 :: "u64 \<Rightarrow> i64" where
  "u64_as_i64 n = sint (of_nat n :: 64 word)"

definition i64_as_u64 :: "i64 \<Rightarrow> u64" where
  "i64_as_u64 z = unat (of_int z :: 64 word)"

lemma u64_i64_roundtrip: "n < 2 ^ 64 \<Longrightarrow> i64_as_u64 (u64_as_i64 n) = n"
  by (simp add: i64_as_u64_def u64_as_i64_def unat_of_nat)

lemma saturating_sub_le: "0 \<le> b \<Longrightarrow> in_i64 a \<Longrightarrow> saturating_sub a b \<le> a"
  by (auto simp: saturating_sub_def clamp_i64_def in_i64_def)

lemma saturating_sub_exact: "in_i64 (a - b) \<Longrightarrow> saturating_sub a b = a - b"
  by (auto simp: saturating_sub_def clamp_i64_def in_i64_def)

lemma saturating_add_exact: "in_i64 (a + b) \<Longrightarrow> saturating_add a b = a + b"
  by (auto simp: saturating_add_def clamp_i64_def in_i64_def)

section \<open>Doubles\<close>

datatype f64 = Fin rat | Inf bool | NaN

text \<open>\<^term>\<open>floor_log2 r\<close> is the exponent of the leading bit of a positive rational.\<close>

definition floor_log2 :: "rat \<Rightarrow> int" where
  "floor_log2 r = (case quotient_of r of (p, q) \<Rightarrow>
     let k = bitlen p - bitlen q in if r < 2 powi k then k - 1 else k)"

definition round_half_even :: "rat \<Rightarrow> int" where
  "round_half_even x = (let f = \<lfloor>x\<rfloor>; d = x - of_int f in
     if d < 1 / 2 then f else if 1 / 2 < d then f + 1 else if even f then f else f + 1)"

text \<open>
  The exponent of the unit in the last place of a nonzero rational, and the nearest double:
  53 significant bits, exponents from -1074, overflow to infinity.
\<close>

definition ulp_exp :: "rat \<Rightarrow> int" where
  "ulp_exp r = max (floor_log2 \<bar>r\<bar> - 52) (- 1074)"

definition rounded :: "rat \<Rightarrow> rat" where
  "rounded r = (if r = 0 then 0 else
     of_int (round_half_even (r / 2 powi (ulp_exp r))) * 2 powi (ulp_exp r))"

definition f64_limit :: rat where
  "f64_limit = 2 ^ 1024"

definition round_f64 :: "rat \<Rightarrow> f64" where
  "round_f64 r = (let v = rounded r in
     if f64_limit \<le> \<bar>v\<bar> then Inf (0 < v) else Fin v)"

definition f64_ok :: "f64 \<Rightarrow> bool" where
  "f64_ok x = (case x of Fin r \<Rightarrow> round_f64 r = Fin r | _ \<Rightarrow> True)"

fun is_finite :: "f64 \<Rightarrow> bool" where
  "is_finite (Fin r) = True"
| "is_finite _ = False"

fun f64_mul :: "f64 \<Rightarrow> f64 \<Rightarrow> f64" where
  "f64_mul (Fin a) (Fin b) = round_f64 (a * b)"
| "f64_mul (Inf s) (Fin b) = (if b = 0 then NaN else Inf (s = (0 < b)))"
| "f64_mul (Fin a) (Inf t) = (if a = 0 then NaN else Inf ((0 < a) = t))"
| "f64_mul (Inf s) (Inf t) = Inf (s = t)"
| "f64_mul _ _ = NaN"

fun f64_add :: "f64 \<Rightarrow> f64 \<Rightarrow> f64" where
  "f64_add (Fin a) (Fin b) = round_f64 (a + b)"
| "f64_add (Inf s) (Fin b) = Inf s"
| "f64_add (Fin a) (Inf t) = Inf t"
| "f64_add (Inf s) (Inf t) = (if s = t then Inf s else NaN)"
| "f64_add _ _ = NaN"

fun f64_lt :: "f64 \<Rightarrow> f64 \<Rightarrow> bool" where
  "f64_lt (Fin a) (Fin b) = (a < b)"
| "f64_lt (Inf s) (Fin b) = (\<not> s)"
| "f64_lt (Fin a) (Inf t) = t"
| "f64_lt (Inf s) (Inf t) = (\<not> s \<and> t)"
| "f64_lt _ _ = False"

fun f64_eq :: "f64 \<Rightarrow> f64 \<Rightarrow> bool" where
  "f64_eq (Fin a) (Fin b) = (a = b)"
| "f64_eq (Inf s) (Inf t) = (s = t)"
| "f64_eq _ _ = False"

definition f64_le :: "f64 \<Rightarrow> f64 \<Rightarrow> bool" where
  "f64_le x y = (f64_lt x y \<or> f64_eq x y)"

text \<open>
  \<^verbatim>\<open>x.fract() == 0.0\<close> (an infinity has fract NaN), \<^verbatim>\<open>x.abs() < bound\<close>, and the
  saturating, truncating cast \<^verbatim>\<open>x as i64\<close>.
\<close>

fun fract_is_zero :: "f64 \<Rightarrow> bool" where
  "fract_is_zero (Fin r) = (of_int \<lfloor>r\<rfloor> = r)"
| "fract_is_zero _ = False"

fun abs_less :: "f64 \<Rightarrow> rat \<Rightarrow> bool" where
  "abs_less (Fin r) b = (\<bar>r\<bar> < b)"
| "abs_less _ b = False"

fun f64_as_i64 :: "f64 \<Rightarrow> i64" where
  "f64_as_i64 (Fin r) = clamp_i64 (if 0 \<le> r then \<lfloor>r\<rfloor> else \<lceil>r\<rceil>)"
| "f64_as_i64 (Inf s) = (if s then i64_max else i64_min)"
| "f64_as_i64 NaN = 0"

section \<open>Rounding\<close>


lemma two_powi_pos [simp]: "(0::rat) < 2 powi k"
  by simp

lemma two_powi_nat: "0 \<le> k \<Longrightarrow> (2::rat) powi k = 2 ^ nat k"
  by (metis int_nat_eq power_int_of_nat)

lemma bitlen_powi:
  assumes "0 < p"
  shows "(2::rat) powi (bitlen p - 1) \<le> of_int p" and "of_int p < (2::rat) powi (bitlen p)"
proof -
  have pos: "1 \<le> bitlen p" using assms bitlen_le_iff_power [of p 0] by simp
  have b: "2 ^ nat (bitlen p - 1) \<le> p" "p < 2 ^ nat (bitlen p)"
    using bitlen_bounds [OF assms] by auto
  show "(2::rat) powi (bitlen p - 1) \<le> of_int p"
    using b(1) pos by (simp add: two_powi_nat)
  show "of_int p < (2::rat) powi (bitlen p)"
    using b(2) pos by (simp add: two_powi_nat)
qed

lemma floor_log2_bounds:
  assumes "0 < r"
  shows "2 powi (floor_log2 r) \<le> r" and "r < 2 powi (floor_log2 r + 1)"
proof -
  obtain p q where pq: "quotient_of r = (p, q)" by fastforce
  have q: "0 < q" using pq by (rule quotient_of_denom_pos)
  have r: "r = of_int p / of_int q" using pq by (rule quotient_of_div)
  have p: "0 < p" using assms q r by (simp add: zero_less_divide_iff)
  define k where "k = bitlen p - bitlen q"
  have lo: "2 powi (k - 1) < r"
  proof -
    have "(2::rat) powi (k - 1) = 2 powi (bitlen p - 1) / 2 powi (bitlen q)"
      by (simp add: k_def algebra_simps flip: power_int_diff)
    also have "\<dots> \<le> of_int p / 2 powi (bitlen q)"
      using bitlen_powi(1) [OF p] by (simp add: divide_right_mono)
    also have "\<dots> < of_int p / of_int q"
      using bitlen_powi(2) [OF q] p q by (simp add: divide_strict_left_mono)
    finally show ?thesis by (simp add: r)
  qed
  have hi: "r < 2 powi (k + 1)"
  proof -
    have "r < 2 powi (bitlen p) / of_int q"
      using bitlen_powi(2) [OF p] q by (simp add: r divide_strict_right_mono)
    also have "\<dots> \<le> 2 powi (bitlen p) / 2 powi (bitlen q - 1)"
      using bitlen_powi(1) [OF q] q by (simp add: divide_left_mono)
    also have "\<dots> = 2 powi (k + 1)"
      by (simp add: k_def algebra_simps flip: power_int_diff)
    finally show ?thesis .
  qed
  have fl: "floor_log2 r = (if r < 2 powi k then k - 1 else k)"
    by (simp add: floor_log2_def pq k_def Let_def)
  show "2 powi (floor_log2 r) \<le> r" using lo by (simp add: fl)
  show "r < 2 powi (floor_log2 r + 1)" using hi by (simp add: fl)
qed

lemma floor_log2_unique:
  assumes "2 powi k \<le> r" "r < 2 powi (k + 1)"
  shows "floor_log2 r = k"
proof -
  have "0 < r" using assms(1) two_powi_pos by (metis order_less_le_trans)
  note b = floor_log2_bounds [OF this]
  have lt: "a < b" if "(2::rat) powi a < 2 powi b" for a b
    using that power_int_increasing [of b a "2::rat"] by fastforce
  have "floor_log2 r < k + 1" "k < floor_log2 r + 1"
    using b assms lt by (meson order_le_less_trans order.strict_trans1)+
  then show ?thesis by simp
qed

lemma floor_log2_mono: "0 < x \<Longrightarrow> x \<le> y \<Longrightarrow> floor_log2 x \<le> floor_log2 y"
proof (rule ccontr)
  assume a: "0 < x" "x \<le> y" "\<not> floor_log2 x \<le> floor_log2 y"
  then have "(2::rat) powi (floor_log2 y + 1) \<le> 2 powi (floor_log2 x)"
    by (intro power_int_increasing) auto
  with a floor_log2_bounds [of x] floor_log2_bounds [of y] show False by force
qed

lemma round_half_even_int [simp]: "round_half_even (of_int n) = n"
  by (simp add: round_half_even_def)

lemma round_half_even_mono: "x \<le> y \<Longrightarrow> round_half_even x \<le> round_half_even y"
proof -
  assume le: "x \<le> y"
  then consider (same) "\<lfloor>x\<rfloor> = \<lfloor>y\<rfloor>" | (less) "\<lfloor>x\<rfloor> < \<lfloor>y\<rfloor>"
    using floor_mono [OF le] by linarith
  then show ?thesis
  proof cases
    case same
    with le show ?thesis by (auto simp: round_half_even_def Let_def)
  next
    case less
    have "round_half_even x \<le> \<lfloor>x\<rfloor> + 1" "\<lfloor>y\<rfloor> \<le> round_half_even y"
      by (auto simp: round_half_even_def Let_def)
    with less show ?thesis by linarith
  qed
qed

lemma round_half_even_minus: "round_half_even (- x) = - round_half_even x"
proof (cases "x = of_int \<lfloor>x\<rfloor>")
  case True
  then obtain n where "x = of_int n" by blast
  then show ?thesis by (metis of_int_minus round_half_even_int)
next
  case False
  then have "\<lfloor>- x\<rfloor> = - \<lfloor>x\<rfloor> - 1" by linarith
  then show ?thesis by (auto simp: round_half_even_def Let_def)
qed

text \<open>The nearest double of a nonzero rational lies between the powers of two around it.\<close>

lemma ulp_exp_scaled:
  assumes "r \<noteq> 0"
  shows "\<bar>r / 2 powi (ulp_exp r)\<bar> < 2 ^ 53"
proof -
  have "\<bar>r\<bar> < 2 powi (floor_log2 \<bar>r\<bar> + 1)"
    using floor_log2_bounds(2) [of "\<bar>r\<bar>"] assms by simp
  also have "\<dots> \<le> 2 powi (ulp_exp r + 53)"
    by (intro power_int_increasing) (auto simp: ulp_exp_def)
  also have "\<dots> = 2 powi (ulp_exp r) * 2 ^ 53"
    by (simp add: power_int_add)
  finally show ?thesis
    by (simp add: abs_divide divide_less_eq mult.commute)
qed

lemma round_half_even_bound:
  assumes "\<bar>x\<bar> < 2 ^ 53" shows "\<bar>round_half_even x\<bar> \<le> 2 ^ 53"
proof -
  have "round_half_even x \<le> round_half_even (of_int (2 ^ 53))"
    using assms by (intro round_half_even_mono) auto
  moreover have "round_half_even (of_int (- (2 ^ 53))) \<le> round_half_even x"
    using assms by (intro round_half_even_mono) auto
  ultimately show ?thesis unfolding round_half_even_int by linarith
qed

lemma rounded_dyadic:
  assumes "\<bar>m\<bar> \<le> 2 ^ 53" "- 1074 \<le> u"
  shows "rounded (of_int m * 2 powi u) = of_int m * 2 powi u"
proof (cases "m = 0")
  case True
  then show ?thesis by (simp add: rounded_def)
next
  case False
  define v where "v = of_int m * (2::rat) powi u"
  have nz: "v \<noteq> 0" using False by (simp add: v_def)
  have exact: "\<exists>n. v / 2 powi (ulp_exp v) = of_int n"
  proof (cases "\<bar>m\<bar> = 2 ^ 53")
    case True
    have av: "\<bar>v\<bar> = 2 powi (u + 53)"
      using True by (simp add: v_def abs_mult power_int_add mult.commute flip: of_int_abs)
    have "floor_log2 \<bar>v\<bar> = u + 53"
      by (rule floor_log2_unique) (auto simp: av intro: power_int_increasing power_int_strict_increasing)
    then have ue: "ulp_exp v = u + 1" using assms(2) by (simp add: ulp_exp_def)
    have half: "v / 2 powi (ulp_exp v) = of_int m / 2"
      unfolding ue by (simp add: v_def power_int_add_1')
    have "m = 2 * 2 ^ 52 \<or> m = 2 * - (2 ^ 52)" using True by (simp add: abs_if split: if_splits)
    then have "v / 2 powi (ulp_exp v) = of_int (2 ^ 52) \<or> v / 2 powi (ulp_exp v) = of_int (- (2 ^ 52))"
      unfolding half by auto
    then show ?thesis by blast
  next
    case lt: False
    have "\<bar>v\<bar> < 2 powi (u + 53)"
    proof -
      have "\<bar>m\<bar> < 2 ^ 53" using lt assms(1) by linarith
      then have "(of_int \<bar>m\<bar> :: rat) < of_int (2 ^ 53)" by (simp only: of_int_less_iff)
      then show ?thesis by (simp add: v_def abs_mult power_int_add mult.commute)
    qed
    then have "floor_log2 \<bar>v\<bar> < u + 53"
      using floor_log2_bounds(1) [of "\<bar>v\<bar>"] nz power_int_increasing [of "u + 53" "floor_log2 \<bar>v\<bar>" "2::rat"]
      by force
    then have ue: "ulp_exp v \<le> u" using assms(2) by (simp add: ulp_exp_def)
    then have "v / 2 powi (ulp_exp v) = of_int m * 2 powi (u - ulp_exp v)"
      by (simp add: v_def power_int_diff)
    also have "\<dots> = of_int (m * 2 ^ nat (u - ulp_exp v))"
      using ue by (simp add: two_powi_nat)
    finally show ?thesis by blast
  qed
  then obtain n where n: "v / 2 powi (ulp_exp v) = of_int n" by blast
  then have "of_int n * 2 powi (ulp_exp v) = v" by (simp add: field_simps)
  then show ?thesis using nz by (simp add: rounded_def n flip: v_def)
qed

lemma rounded_form:
  obtains m u where "rounded r = of_int m * 2 powi u" "\<bar>m\<bar> \<le> 2 ^ 53" "- 1074 \<le> u"
proof (cases "r = 0")
  case True
  then show ?thesis using that [of 0 0] by (simp add: rounded_def)
next
  case False
  then show ?thesis
    using that [of "round_half_even (r / 2 powi (ulp_exp r))" "ulp_exp r"]
      round_half_even_bound [OF ulp_exp_scaled [OF False]]
    by (simp add: rounded_def ulp_exp_def)
qed

lemma rounded_idem: "rounded (rounded r) = rounded r"
  by (rule rounded_form [of r]) (simp add: rounded_dyadic)

text \<open>Every finite result of a rounding is a double: rounding it again changes nothing.\<close>

lemma round_f64_ok: "f64_ok (round_f64 r)"
  by (simp add: f64_ok_def round_f64_def Let_def rounded_idem)

lemma rounded_minus: "rounded (- r) = - rounded r"
  by (simp add: rounded_def ulp_exp_def round_half_even_minus flip: minus_divide_left)

lemma rounded_pos_mono:
  assumes "0 < x" "x \<le> y"
  shows "rounded x \<le> rounded y"
proof -
  have xy: "x \<noteq> 0" "y \<noteq> 0" "0 < y" using assms by auto
  have fl: "floor_log2 \<bar>x\<bar> \<le> floor_log2 \<bar>y\<bar>" using assms by (simp add: floor_log2_mono)
  show ?thesis
  proof (cases "ulp_exp x = ulp_exp y")
    case True
    then have "round_half_even (x / 2 powi ulp_exp x) \<le> round_half_even (y / 2 powi ulp_exp y)"
      using assms(2) by (intro round_half_even_mono) (simp add: divide_right_mono)
    then show ?thesis using xy True by (simp add: rounded_def mult_right_mono)
  next
    case False
    then have lt: "ulp_exp x + 1 \<le> ulp_exp y" and uy: "ulp_exp y = floor_log2 y - 52"
      using fl assms by (auto simp: ulp_exp_def)
    have "rounded x \<le> of_int (2 ^ 53) * 2 powi ulp_exp x"
      using round_half_even_bound [OF ulp_exp_scaled [OF xy(1)]] xy
      by (auto simp: rounded_def intro!: mult_right_mono)
    also have "\<dots> = 2 powi (ulp_exp x + 1 + 52)" by (simp add: power_int_add)
    also have "\<dots> \<le> 2 powi (ulp_exp y + 52)" using lt by (intro power_int_increasing) auto
    also have "\<dots> = of_int (2 ^ 52) * 2 powi ulp_exp y" by (simp add: power_int_add)
    also have "\<dots> \<le> rounded y"
    proof -
      have "2 powi (ulp_exp y + 52) \<le> y" using floor_log2_bounds(1) [OF xy(3)] uy by simp
      then have "of_int (2 ^ 52) \<le> y / 2 powi ulp_exp y" by (simp add: power_int_add le_divide_eq)
      then have "2 ^ 52 \<le> round_half_even (y / 2 powi ulp_exp y)"
        using round_half_even_mono round_half_even_int by metis
      then have "(of_int (2 ^ 52) :: rat) \<le> of_int (round_half_even (y / 2 powi ulp_exp y))"
        by (simp only: of_int_le_iff)
      from mult_right_mono [OF this] show ?thesis using xy(2) by (simp add: rounded_def)
    qed
    finally show ?thesis .
  qed
qed

lemma rounded_nonneg: "0 \<le> r \<Longrightarrow> 0 \<le> rounded r"
  using round_half_even_mono [of "of_int 0" "r / 2 powi ulp_exp r"]
  unfolding round_half_even_int by (auto simp: rounded_def)

lemma rounded_mono: "x \<le> y \<Longrightarrow> rounded x \<le> rounded y"
proof -
  assume le: "x \<le> y"
  consider "0 < x" | "x \<le> 0" "0 \<le> y" | "y < 0" by linarith
  then show ?thesis
  proof cases
    case 1
    then show ?thesis using le by (rule rounded_pos_mono)
  next
    case 2
    then have "rounded x \<le> 0" "0 \<le> rounded y"
      using rounded_nonneg [of "- x"] rounded_nonneg [of y] by (auto simp: rounded_minus)
    then show ?thesis by linarith
  next
    case 3
    then show ?thesis using le rounded_pos_mono [of "- y" "- x"] by (simp add: rounded_minus)
  qed
qed

lemma f64_limit_pos: "0 < f64_limit"
  by (simp add: f64_limit_def)

lemma round_f64_mono: "x \<le> y \<Longrightarrow> f64_le (round_f64 x) (round_f64 y)"
  using rounded_mono [of x y] f64_limit_pos
  by (auto simp: round_f64_def f64_le_def Let_def abs_if split: if_splits)

lemma f64_mul_ok: "f64_ok (f64_mul x y)"
  by (induction x y rule: f64_mul.induct) (simp_all add: round_f64_ok, simp_all add: f64_ok_def)

lemma f64_add_ok: "f64_ok (f64_add x y)"
  by (induction x y rule: f64_add.induct) (simp_all add: round_f64_ok, simp_all add: f64_ok_def)

lemma round_f64_of_int: "\<bar>m\<bar> \<le> 2 ^ 53 \<Longrightarrow> round_f64 (of_int m) = Fin (of_int m)"
proof -
  assume m: "\<bar>m\<bar> \<le> 2 ^ 53"
  have "(of_int \<bar>m\<bar> :: rat) \<le> of_int (2 ^ 53)" using m by (simp only: of_int_le_iff)
  also have "\<dots> < f64_limit" unfolding f64_limit_def of_int_power of_int_numeral
    by (rule power_strict_increasing) auto
  finally have "\<not> f64_limit \<le> \<bar>of_int m\<bar>" by simp
  then show ?thesis using rounded_dyadic [OF m, of 0] by (simp add: round_f64_def)
qed

lemma round_f64_numeral [simp]:
  "numeral n \<le> (2 ^ 53 :: int) \<Longrightarrow> round_f64 (numeral n) = Fin (numeral n)"
  "numeral n \<le> (2 ^ 53 :: int) \<Longrightarrow> round_f64 (- numeral n) = Fin (- numeral n)"
  "round_f64 0 = Fin 0" "round_f64 1 = Fin 1"
  using round_f64_of_int [of "numeral n"] round_f64_of_int [of "- numeral n"]
    round_f64_of_int [of 0] round_f64_of_int [of 1] by simp_all

lemma round_f64_okD: "f64_ok (Fin r) \<Longrightarrow> round_f64 r = Fin r"
  by (simp add: f64_ok_def)

lemma f64_le_finite: "is_finite x \<Longrightarrow> is_finite y \<Longrightarrow> \<exists>a b. x = Fin a \<and> y = Fin b"
  by (cases x; cases y) auto

text \<open>Evaluation takes a short cut on small integers.\<close>

lemma round_f64_code [code]:
  "round_f64 r = (case quotient_of r of (p, q) \<Rightarrow>
     if q = 1 \<and> \<bar>p\<bar> \<le> 9007199254740992 then Fin r
     else let v = rounded r in if f64_limit \<le> \<bar>v\<bar> then Inf (0 < v) else Fin v)"
proof (cases "quotient_of r")
  case (Pair p q)
  then have "r = of_int p / of_int q" by (rule quotient_of_div)
  then show ?thesis using Pair round_f64_of_int [of p] by (auto simp: round_f64_def)
qed

end
