(* ===== verification/Rust_Str.thy ===== *)
theory Rust_Str
  imports Rust_Num
begin

text \<open>
  Rust strings and JSON values. A \<^verbatim>\<open>str\<close> is the list of its UTF-8 bytes, so
  that \<^verbatim>\<open>len()\<close> is the length of the list; the operations of
  \<^verbatim>\<open>std\<close> that work on characters decode the bytes. The JSON values are those of
  \<^verbatim>\<open>serde_json::Value\<close>; their text is a parameter of the definitions that print or
  parse them.
\<close>

section \<open>Characters of a UTF-8 string\<close>

type_synonym code_point = nat

definition byte :: "char \<Rightarrow> nat" where
  "byte c = of_char c"

definition char_width :: "char \<Rightarrow> nat" where
  "char_width c = (if byte c < 128 then 1 else if byte c < 224 then 2 else if byte c < 240 then 3 else 4)"

definition is_continuation :: "char \<Rightarrow> bool" where
  "is_continuation c \<longleftrightarrow> 128 \<le> byte c \<and> byte c < 192"

definition decode_char :: "string \<Rightarrow> code_point" where
  "decode_char bs = (case bs of
     [] \<Rightarrow> 0
   | c # cs \<Rightarrow>
       let lead = (if byte c < 128 then byte c else if byte c < 224 then byte c mod 32
                   else if byte c < 240 then byte c mod 16 else byte c mod 8)
       in foldl (\<lambda>a d. a * 64 + byte d mod 64) lead (take (char_width c - 1) cs))"

text \<open>\<^verbatim>\<open>str::char_indices\<close>: the byte position and the code point of every character.\<close>

function char_indices_from :: "nat \<Rightarrow> string \<Rightarrow> (nat \<times> code_point) list" where
  "char_indices_from p [] = []"
| "char_indices_from p (c # cs) =
     (p, decode_char (c # cs)) # char_indices_from (p + char_width c) (drop (char_width c - 1) cs)"
  by pat_completeness auto

termination by (relation "measure (\<lambda>(_, cs). length cs)") auto

definition char_indices :: "string \<Rightarrow> (nat \<times> code_point) list" where
  "char_indices s = char_indices_from 0 s"

definition chars :: "string \<Rightarrow> code_point list" where
  "chars s = map snd (char_indices s)"

text \<open>
  The byte sequences a \<^verbatim>\<open>str\<close> can hold: shortest forms of Unicode scalar values.
\<close>

definition min_code_point :: "nat \<Rightarrow> code_point" where
  "min_code_point w = (if w = 1 then 0 else if w = 2 then 128 else if w = 3 then 2048 else 65536)"

definition scalar_value :: "code_point \<Rightarrow> bool" where
  "scalar_value v \<longleftrightarrow> v < 55296 \<or> (57343 < v \<and> v \<le> 1114111)"

function valid_utf8 :: "string \<Rightarrow> bool" where
  "valid_utf8 [] = True"
| "valid_utf8 (c # cs) = (let w = char_width c; v = decode_char (c # cs) in
     \<not> is_continuation c \<and> w \<le> length (c # cs) \<and> list_all is_continuation (take (w - 1) cs) \<and>
     min_code_point w \<le> v \<and> scalar_value v \<and> valid_utf8 (drop (w - 1) cs))"
  by pat_completeness auto

termination by (relation "measure length") auto

text \<open>\<^verbatim>\<open>str::is_char_boundary\<close>: the ends, and every byte that is not a continuation byte.\<close>

definition is_char_boundary :: "string \<Rightarrow> nat \<Rightarrow> bool" where
  "is_char_boundary s i \<longleftrightarrow>
     i = 0 \<or> i = length s \<or> (i < length s \<and> \<not> is_continuation (s ! i))"

text \<open>\<^verbatim>\<open>char::is_whitespace\<close>: the code points with the White_Space property.\<close>

definition is_whitespace :: "code_point \<Rightarrow> bool" where
  "is_whitespace c \<longleftrightarrow>
     (9 \<le> c \<and> c \<le> 13) \<or> c = 32 \<or> c = 133 \<or> c = 160 \<or> c = 5760 \<or> (8192 \<le> c \<and> c \<le> 8202) \<or>
     c = 8232 \<or> c = 8233 \<or> c = 8239 \<or> c = 8287 \<or> c = 12288"

text \<open>\<^verbatim>\<open>s.trim().is_empty()\<close>: nothing is left once the whitespace at both ends is cut.\<close>

definition trim_is_empty :: "string \<Rightarrow> bool" where
  "trim_is_empty s \<longleftrightarrow> list_all is_whitespace (chars s)"

section \<open>ASCII classes and decimal text\<close>

definition is_ascii_lowercase :: "code_point \<Rightarrow> bool" where
  "is_ascii_lowercase c \<longleftrightarrow> 97 \<le> c \<and> c \<le> 122"

definition is_ascii_digit :: "code_point \<Rightarrow> bool" where
  "is_ascii_digit c \<longleftrightarrow> 48 \<le> c \<and> c \<le> 57"

definition digit_char :: "nat \<Rightarrow> char" where
  "digit_char d = char_of (48 + d)"

fun dec_nat :: "nat \<Rightarrow> string" where
  "dec_nat n = (if n < 10 then [digit_char n] else dec_nat (n div 10) @ [digit_char (n mod 10)])"

declare dec_nat.simps [simp del]

definition hex_digit :: "nat \<Rightarrow> char" where
  "hex_digit d = char_of (if d < 10 then 48 + d else 87 + d)"

text \<open>\<^verbatim>\<open>format!("{byte:02x}")\<close> of every byte.\<close>

definition hex_lower :: "string \<Rightarrow> string" where
  "hex_lower bs = concat (map (\<lambda>c. [hex_digit (byte c div 16), hex_digit (byte c mod 16)]) bs)"

section \<open>Facts\<close>

lemma byte_bound [simp]: "byte c < 256"
  by (simp add: byte_def)

lemma byte_inject [simp]: "byte c = byte d \<longleftrightarrow> c = d"
  by (simp add: byte_def)

lemma char_width_pos [simp]: "0 < char_width c"
  by (simp add: char_width_def)

lemma decode_char_ascii: "byte c < 128 \<Longrightarrow> decode_char (c # cs) = byte c"
  by (simp add: decode_char_def char_width_def)

lemma char_indices_from_ascii:
  "list_all (\<lambda>c. byte c < 128) s \<Longrightarrow>
   char_indices_from p s = zip [p ..< p + length s] (map byte s)"
proof (induction s arbitrary: p)
  case (Cons c s)
  then show ?case
    by (simp add: decode_char_ascii char_width_def upt_conv_Cons del: upt_Suc)
qed simp

lemma chars_ascii: "list_all (\<lambda>c. byte c < 128) s \<Longrightarrow> chars s = map byte s"
  by (simp add: chars_def char_indices_def char_indices_from_ascii)

lemma valid_utf8_ascii: "list_all (\<lambda>c. byte c < 128) s \<Longrightarrow> valid_utf8 s"
  by (induction s) (auto simp: Let_def char_width_def is_continuation_def decode_char_ascii
      min_code_point_def scalar_value_def)

text \<open>In a valid string, a character below 128 is one ASCII byte.\<close>

lemma valid_utf8_ascii_chars:
  "valid_utf8 s \<Longrightarrow> list_all (\<lambda>v. v < 128) (map snd (char_indices_from p s)) \<Longrightarrow>
   list_all (\<lambda>c. byte c < 128) s"
proof (induction s arbitrary: p rule: valid_utf8.induct)
  case (2 c cs)
  let ?v = "decode_char (c # cs)"
  have v: "?v < 128" "min_code_point (char_width c) \<le> ?v" using 2 by (auto simp: Let_def)
  then have c: "char_width c = 1" by (auto simp: min_code_point_def char_width_def split: if_splits)
  then have "byte c < 128" by (auto simp: char_width_def split: if_splits)
  moreover have "list_all (\<lambda>c. byte c < 128) cs"
    using 2 c by (auto simp: Let_def)
  ultimately show ?case by simp
qed simp

text \<open>Cutting a valid string at a character boundary leaves a valid string.\<close>

lemma valid_utf8_inner:
  assumes "valid_utf8 (c # cs)" "0 < i" "i < char_width c"
  shows "\<not> is_char_boundary (c # cs) i"
proof -
  have len: "char_width c \<le> Suc (length cs)" and cont: "list_all is_continuation (take (char_width c - 1) cs)"
    using assms(1) by (auto simp: Let_def)
  have "cs ! (i - 1) \<in> set (take (char_width c - 1) cs)"
    using assms len by (auto simp: in_set_conv_nth intro!: exI [of _ "i - 1"])
  then have "is_continuation ((c # cs) ! i)" using cont assms(2) by (auto simp: list_all_iff nth_Cons')
  then show ?thesis using assms len by (auto simp: is_char_boundary_def)
qed

lemma boundary_shift:
  assumes "valid_utf8 (c # cs)"
  shows "is_char_boundary (c # cs) (j + char_width c) \<longleftrightarrow> is_char_boundary (drop (char_width c - 1) cs) j"
proof -
  let ?w = "char_width c"
  have w: "0 < ?w" "?w \<le> Suc (length cs)" and rest: "valid_utf8 (drop (?w - 1) cs)"
    using assms by (auto simp: Let_def)
  have nth: "(c # cs) ! (j + ?w) = drop (?w - 1) cs ! j" if "j + ?w < Suc (length cs)"
    using that w by (cases ?w) (simp_all add: add.commute)
  have start: "\<not> is_continuation (drop (?w - 1) cs ! 0)" if "?w < Suc (length cs)"
  proof -
    have "?w - 1 < length cs" using that w by linarith
    then obtain d ds where "drop (?w - 1) cs = d # ds" using Cons_nth_drop_Suc [symmetric] by blast
    then show ?thesis using rest by (simp add: Let_def)
  qed
  obtain v where v: "?w = Suc v" using w(1) gr0_conv_Suc by blast
  have "v \<le> length cs" using w(2) v by simp
  then show ?thesis using nth start unfolding v by (cases "j = 0") (auto simp: is_char_boundary_def)
qed

lemma valid_utf8_take:
  "valid_utf8 s \<Longrightarrow> is_char_boundary s i \<Longrightarrow> valid_utf8 (take i s)"
proof (induction s arbitrary: i rule: valid_utf8.induct)
  case (2 c cs)
  let ?w = "char_width c"
  show ?case
  proof (cases "i = 0")
    case False
    then have "?w \<le> i" using valid_utf8_inner [OF 2(2)] 2(3) by (meson not_le gr0I)
    then obtain j where i: "i = j + ?w" by (metis le_add_diff_inverse2)
    have "valid_utf8 (take j (drop (?w - 1) cs))"
      using 2 boundary_shift [OF 2(2), of j] i by (auto simp: Let_def)
    moreover have "take i (c # cs) = c # take (i - 1) cs" "take (?w - 1) (take (i - 1) cs) = take (?w - 1) cs"
        "drop (?w - 1) (take (i - 1) cs) = take j (drop (?w - 1) cs)"
      using i by (auto simp: take_Cons' drop_take min_def)
    moreover have "decode_char (c # take (i - 1) cs) = decode_char (c # cs)"
      using calculation(3) by (simp add: decode_char_def)
    ultimately show ?thesis using 2(2) i by (auto simp: Let_def)
  qed simp
qed simp

text \<open>Among four neighbouring positions of a valid string one is a character boundary.\<close>

lemma boundary_near:
  "valid_utf8 s \<Longrightarrow> i \<le> length s \<Longrightarrow> \<exists>j. i \<le> j + 3 \<and> j \<le> i \<and> is_char_boundary s j"
proof (induction s arbitrary: i rule: valid_utf8.induct)
  case (2 c cs)
  let ?w = "char_width c"
  show ?case
  proof (cases "i < ?w")
    case True
    then show ?thesis by (intro exI [of _ 0]) (auto simp: is_char_boundary_def char_width_def split: if_splits)
  next
    case False
    then obtain k where k: "i = k + ?w" by (metis not_less le_add_diff_inverse2)
    have "valid_utf8 (drop (?w - 1) cs)" "k \<le> length (drop (?w - 1) cs)"
      using 2(2,3) k char_width_pos [of c] by (auto simp: Let_def simp del: char_width_pos)
    then obtain j where "k \<le> j + 3" "j \<le> k" "is_char_boundary (drop (?w - 1) cs) j"
      using 2(1) [OF refl refl] by blast
    then show ?thesis using k boundary_shift [OF 2(2), of j] by (intro exI [of _ "j + ?w"]) auto
  qed
qed (auto simp: is_char_boundary_def)

lemma dec_nat_nonempty [simp]: "dec_nat n \<noteq> []"
  by (subst dec_nat.simps) auto

definition dec_val :: "string \<Rightarrow> nat" where
  "dec_val s = foldl (\<lambda>a c. a * 10 + (byte c - 48)) 0 s"

lemma byte_digit_char: "d < 10 \<Longrightarrow> byte (digit_char d) = 48 + d"
  by (simp add: byte_def digit_char_def take_bit_nat_eq_self)

lemma dec_val_dec_nat: "dec_val (dec_nat n) = n"
proof (induction n rule: dec_nat.induct)
  case (1 n)
  then show ?case
    by (subst dec_nat.simps) (auto simp: dec_val_def byte_digit_char)
qed

lemma dec_nat_inject [simp]: "dec_nat m = dec_nat n \<longleftrightarrow> m = n"
  using dec_val_dec_nat by metis

lemma dec_val_zeros: "dec_val (replicate k CHR ''0'' @ s) = dec_val s"
  by (induction k) (simp_all add: dec_val_def byte_def)

section \<open>JSON values\<close>

datatype json =
    JNull
  | JBool bool
  | JInt int
  | JNum f64
  | JStr string
  | JArr "json list"
  | JObj "(string \<times> json) list"

text \<open>
  The serialised form of an \<^verbatim>\<open>Option\<close> field: \<^verbatim>\<open>null\<close>, or left out of the object
  where the field has \<^verbatim>\<open>skip_serializing_if = "Option::is_none"\<close>.
\<close>

definition json_opt :: "('a \<Rightarrow> json) \<Rightarrow> 'a option \<Rightarrow> json" where
  "json_opt f x = (case x of None \<Rightarrow> JNull | Some y \<Rightarrow> f y)"

definition json_skip :: "string \<Rightarrow> ('a \<Rightarrow> json) \<Rightarrow> 'a option \<Rightarrow> (string \<times> json) list" where
  "json_skip k f x = (case x of None \<Rightarrow> [] | Some y \<Rightarrow> [(k, f y)])"

definition json_int :: "nat \<Rightarrow> json" where
  "json_int n = JInt (int n)"

lemma json_opt_inject:
  assumes "\<And>a b. f a = f b \<longleftrightarrow> a = b" "\<And>a. f a \<noteq> JNull"
  shows "json_opt f x = json_opt f y \<longleftrightarrow> x = y"
  using assms by (cases x; cases y) (auto simp: json_opt_def dest: sym)

lemma json_skip_inject:
  assumes "\<And>a b. f a = f b \<longleftrightarrow> a = b"
  shows "json_skip k f x = json_skip k f y \<longleftrightarrow> x = y"
  using assms by (cases x; cases y) (auto simp: json_skip_def)

lemma json_int_inject [simp]: "json_int m = json_int n \<longleftrightarrow> m = n"
  by (simp add: json_int_def)

end
