(* ===== verification/Types.thy ===== *)
theory Types
  imports Rust_Str
begin

text \<open>
  The domain types of \<^verbatim>\<open>edge-node/core/types/src/lib.rs\<close>: sensor and connection
  kinds with their database names, and the public identifiers of the MQTT output contract.
\<close>

section \<open>Sensors and connections\<close>

datatype sensor_type =
    ContactInput | ContactOutput | Adc | Ranging | Temperature | Acceleration
  | DifferentialPressure | Illuminance | Unknown string

fun sensor_type_display :: "sensor_type \<Rightarrow> string" where
  "sensor_type_display ContactInput = ''ContactInput''"
| "sensor_type_display ContactOutput = ''ContactOutput''"
| "sensor_type_display Adc = ''ADC''"
| "sensor_type_display Ranging = ''Ranging''"
| "sensor_type_display Temperature = ''Temperature''"
| "sensor_type_display Acceleration = ''Acceleration''"
| "sensor_type_display DifferentialPressure = ''DifferentialPressure''"
| "sensor_type_display Illuminance = ''Illuminance''"
| "sensor_type_display (Unknown v) = ''Unknown('' @ v @ '')''"

fun as_db_str :: "sensor_type \<Rightarrow> string" where
  "as_db_str ContactInput = ''contact_input''"
| "as_db_str ContactOutput = ''contact_output''"
| "as_db_str Adc = ''adc''"
| "as_db_str Ranging = ''ranging''"
| "as_db_str Temperature = ''temperature''"
| "as_db_str Acceleration = ''acceleration''"
| "as_db_str DifferentialPressure = ''differential_pressure''"
| "as_db_str Illuminance = ''illuminance''"
| "as_db_str (Unknown s) = s"

definition from_db_str :: "string \<Rightarrow> sensor_type" where
  "from_db_str s =
     (if s = ''contact_input'' then ContactInput
      else if s = ''contact_output'' then ContactOutput
      else if s = ''adc'' then Adc
      else if s = ''ranging'' then Ranging
      else if s = ''temperature'' then Temperature
      else if s = ''acceleration'' then Acceleration
      else if s = ''differential_pressure'' then DifferentialPressure
      else if s = ''illuminance'' then Illuminance
      else Unknown s)"

datatype connection_kind = Uart | I2c | Gpio | Modbus | Other string

fun connection_kind_display :: "connection_kind \<Rightarrow> string" where
  "connection_kind_display Uart = ''UART''"
| "connection_kind_display I2c = ''I2C''"
| "connection_kind_display Gpio = ''GPIO''"
| "connection_kind_display Modbus = ''Modbus''"
| "connection_kind_display (Other v) = v"

text \<open>The parameters are a \<^verbatim>\<open>BTreeMap\<close>: an association list sorted by key.\<close>

record connection_info =
  conn_kind :: connection_kind
  parameters :: "(string \<times> string) list"

fun join :: "string \<Rightarrow> string list \<Rightarrow> string" where
  "join sep [] = []"
| "join sep [x] = x"
| "join sep (x # y # ys) = x @ sep @ join sep (y # ys)"

definition connection_info_display :: "connection_info \<Rightarrow> string" where
  "connection_info_display c =
     connection_kind_display (conn_kind c) @ ''('' @
     join '', '' (map (\<lambda>(k, v). k @ ''='' @ v) (parameters c)) @ '')''"

record sensor_identity =
  manufacturer :: string
  ic_part_number :: string
  si_sensor_type :: sensor_type
  si_connection :: connection_info

record sensor_reading =
  sr_sensor_type :: sensor_type
  sr_values :: "f64 list"
  sr_labels :: "string list"

section \<open>Public identifiers\<close>

datatype identifier_error =
    Empty
  | TooLong nat
  | InvalidChar nat code_point
  | LeadingOrTrailingHyphen

text \<open>
  The \<^verbatim>\<open>Display\<close> of the error. The debug form of a character (quotes and escapes of the
  standard library) is the argument \<open>char_debug\<close>.
\<close>

fun identifier_error_display :: "(code_point \<Rightarrow> string) \<Rightarrow> identifier_error \<Rightarrow> string" where
  "identifier_error_display dbg Empty = ''must not be empty''"
| "identifier_error_display dbg (TooLong n) = ''must be at most 64 bytes, got '' @ dec_nat n"
| "identifier_error_display dbg (InvalidChar p ch) =
     ''must contain only lowercase ASCII letters, digits, and '' @ [char_of (39 :: nat)] @ ''-'' @
     [char_of (39 :: nat)] @ '', found '' @ dbg ch @ '' at byte '' @ dec_nat p"
| "identifier_error_display dbg LeadingOrTrailingHyphen =
     ''must not start or end with '' @ [char_of (39 :: nat)] @ ''-'' @ [char_of (39 :: nat)]"

definition IDENTIFIER_MAX_BYTES :: nat where
  "IDENTIFIER_MAX_BYTES = 64"

definition identifier_char :: "code_point \<Rightarrow> bool" where
  "identifier_char ch \<longleftrightarrow> is_ascii_lowercase ch \<or> is_ascii_digit ch \<or> ch = 45"

definition validate_identifier :: "string \<Rightarrow> identifier_error + unit" where
  "validate_identifier value =
     (if value = [] then Inl Empty
      else if IDENTIFIER_MAX_BYTES < length value then Inl (TooLong (length value))
      else case find_row (\<lambda>(_, ch). \<not> identifier_char ch) (char_indices value) of
        Some (position, ch) \<Rightarrow> Inl (InvalidChar position ch)
      | None \<Rightarrow>
          if hd value = CHR ''-'' \<or> last value = CHR ''-'' then Inl LeadingOrTrailingHyphen
          else Inr ())"

datatype edge_node_id = EdgeNodeId string
datatype pipeline_id = PipelineId string

fun edge_node_id_str :: "edge_node_id \<Rightarrow> string" where
  "edge_node_id_str (EdgeNodeId s) = s"

fun pipeline_id_str :: "pipeline_id \<Rightarrow> string" where
  "pipeline_id_str (PipelineId s) = s"

definition parse_edge_node_id :: "string \<Rightarrow> identifier_error + edge_node_id" where
  "parse_edge_node_id value = (case validate_identifier value of
     Inl e \<Rightarrow> Inl e | Inr _ \<Rightarrow> Inr (EdgeNodeId value))"

definition parse_pipeline_id :: "string \<Rightarrow> identifier_error + pipeline_id" where
  "parse_pipeline_id value = (case validate_identifier value of
     Inl e \<Rightarrow> Inl e | Inr _ \<Rightarrow> Inr (PipelineId value))"

text \<open>The derived order of the identifiers is the order of their strings.\<close>

instantiation pipeline_id :: linorder
begin

definition less_eq_pipeline_id :: "pipeline_id \<Rightarrow> pipeline_id \<Rightarrow> bool" where
  "less_eq_pipeline_id a b \<longleftrightarrow> pipeline_id_str a \<le> pipeline_id_str b"

definition less_pipeline_id :: "pipeline_id \<Rightarrow> pipeline_id \<Rightarrow> bool" where
  "less_pipeline_id a b \<longleftrightarrow> pipeline_id_str a < pipeline_id_str b"

instance
proof
  fix x y z :: pipeline_id
  show "(x < y) = (x \<le> y \<and> \<not> y \<le> x)"
    by (auto simp: less_pipeline_id_def less_eq_pipeline_id_def)
  show "x \<le> x" by (simp add: less_eq_pipeline_id_def)
  show "x \<le> y \<Longrightarrow> y \<le> z \<Longrightarrow> x \<le> z" by (auto simp: less_eq_pipeline_id_def)
  show "x \<le> y \<Longrightarrow> y \<le> x \<Longrightarrow> x = y"
    by (cases x; cases y) (auto simp: less_eq_pipeline_id_def)
  show "x \<le> y \<or> y \<le> x" by (auto simp: less_eq_pipeline_id_def)
qed

end

section \<open>Facts\<close>

text \<open>
  The grammar of the contract, \<^verbatim>\<open>^[a-z0-9](?:[a-z0-9-]*[a-z0-9])?$\<close> on 1 to 64
  bytes, written over the bytes of the string.
\<close>

definition alnum :: "char \<Rightarrow> bool" where
  "alnum c \<longleftrightarrow> is_ascii_lowercase (byte c) \<or> is_ascii_digit (byte c)"

definition identifier_grammar :: "string \<Rightarrow> bool" where
  "identifier_grammar s \<longleftrightarrow> length s \<le> 64 \<and>
     ((\<exists>a. s = [a] \<and> alnum a) \<or>
      (\<exists>a w b. s = a # w @ [b] \<and> alnum a \<and> list_all (\<lambda>c. alnum c \<or> c = CHR ''-'') w \<and> alnum b))"

lemma identifier_char_byte: "identifier_char (byte c) \<longleftrightarrow> alnum c \<or> c = CHR ''-''"
proof -
  have "byte c = 45 \<longleftrightarrow> c = CHR ''-''"
    using byte_inject [of c "CHR ''-''"] by (simp add: byte_def)
  then show ?thesis by (auto simp: identifier_char_def alnum_def)
qed

lemma identifier_char_ascii: "identifier_char v \<Longrightarrow> v < 128"
  by (auto simp: identifier_char_def is_ascii_lowercase_def is_ascii_digit_def)

lemma alnum_not_hyphen: "\<not> alnum CHR ''-''"
  by (simp add: alnum_def is_ascii_lowercase_def is_ascii_digit_def byte_def)

lemma find_invalid_None:
  "find_row (\<lambda>(_, ch). \<not> identifier_char ch) (char_indices s) = None \<longleftrightarrow>
   list_all identifier_char (chars s)"
  by (auto simp: chars_def list_all_iff find_row_None)

lemma identifier_chars_bytes:
  assumes "valid_utf8 s"
  shows "list_all identifier_char (chars s) \<longleftrightarrow> list_all (\<lambda>c. alnum c \<or> c = CHR ''-'') s"
proof
  assume all: "list_all identifier_char (chars s)"
  then have "list_all (\<lambda>v. v < 128) (chars s)"
    by (auto simp: list_all_iff identifier_char_ascii)
  then have "list_all (\<lambda>c. byte c < 128) s"
    using valid_utf8_ascii_chars [OF assms] by (simp add: chars_def char_indices_def)
  then show "list_all (\<lambda>c. alnum c \<or> c = CHR ''-'') s"
    using all by (simp add: chars_ascii list_all_iff identifier_char_byte)
next
  assume all: "list_all (\<lambda>c. alnum c \<or> c = CHR ''-'') s"
  then have "list_all (\<lambda>c. byte c < 128) s"
    by (auto simp: list_all_iff identifier_char_ascii simp flip: identifier_char_byte)
  then show "list_all identifier_char (chars s)"
    using all by (simp add: chars_ascii list_all_iff identifier_char_byte)
qed

lemma identifier_grammar_ends:
  "identifier_grammar s \<longleftrightarrow> s \<noteq> [] \<and> length s \<le> 64 \<and>
     list_all (\<lambda>c. alnum c \<or> c = CHR ''-'') s \<and> hd s \<noteq> CHR ''-'' \<and> last s \<noteq> CHR ''-''"
proof (cases s)
  case (Cons a t)
  then show ?thesis
    by (cases t rule: rev_cases) (auto simp: identifier_grammar_def alnum_not_hyphen)
qed (simp add: identifier_grammar_def)

lemma validate_identifier_ok_iff:
  assumes "valid_utf8 s"
  shows "validate_identifier s = Inr () \<longleftrightarrow> identifier_grammar s"
proof (cases "find_row (\<lambda>(_, ch). \<not> identifier_char ch) (char_indices s)")
  case None
  then show ?thesis
    using identifier_chars_bytes [OF assms] find_invalid_None [of s]
    by (auto simp: identifier_grammar_ends validate_identifier_def IDENTIFIER_MAX_BYTES_def)
next
  case (Some pc)
  then show ?thesis
    using identifier_chars_bytes [OF assms] find_invalid_None [of s]
    by (auto simp: identifier_grammar_ends validate_identifier_def IDENTIFIER_MAX_BYTES_def
        split: prod.splits)
qed

lemma pipeline_id_str_inject [simp]: "pipeline_id_str a = pipeline_id_str b \<longleftrightarrow> a = b"
  by (cases a; cases b) auto

lemma edge_node_id_str_inject [simp]: "edge_node_id_str a = edge_node_id_str b \<longleftrightarrow> a = b"
  by (cases a; cases b) auto

lemma as_db_from_db: "as_db_str (from_db_str s) = s"
  by (simp add: from_db_str_def)

lemma grammar_no_slash: "identifier_grammar s \<Longrightarrow> CHR ''/'' \<notin> set s"
  by (auto simp: identifier_grammar_ends list_all_iff alnum_def is_ascii_lowercase_def
      is_ascii_digit_def byte_def)

end
