(* ===== verification/Pipeline_Def.thy ===== *)
theory Pipeline_Def
  imports Types
begin

text \<open>
  Pipeline definitions and calibration (\<^verbatim>\<open>edge-node/core/pipeline/src/definition.rs\<close>,
  \<^verbatim>\<open>calibration.rs\<close>): the data of a definition, its validation, the routing test
  of an input, the JSON forms, and the structural hash that decides series continuity. The
  libraries the crate calls (serde_json, sha2, uuid, SQLite) are the fields of the record
  \<open>ext\<close>, a parameter of every definition that uses them.
\<close>

section \<open>Errors of evaluation and calibration\<close>

datatype evaluator_error = Invalid string | CounterLimit

fun evaluator_error_display :: "evaluator_error \<Rightarrow> string" where
  "evaluator_error_display (Invalid m) = ''invalid evaluation input: '' @ m"
| "evaluator_error_display CounterLimit = ''accumulated count reached the safe integer limit''"

record calibration =
  scale :: f64
  offset :: f64

definition default_calibration :: calibration where
  "default_calibration = \<lparr> scale = Fin 1, offset = Fin 0 \<rparr>"

definition calibration_validate :: "calibration \<Rightarrow> evaluator_error + unit" where
  "calibration_validate c =
     (if \<not> is_finite (scale c) \<or> f64_eq (scale c) (Fin 0)
        then Inl (Invalid ''calibration scale must be finite and non-zero'')
      else if \<not> is_finite (offset c) then Inl (Invalid ''calibration offset must be finite'')
      else Inr ())"

definition calibration_apply :: "calibration \<Rightarrow> f64 \<Rightarrow> evaluator_error + f64" where
  "calibration_apply c x = (case calibration_validate c of
     Inl e \<Rightarrow> Inl e
   | Inr _ \<Rightarrow>
       if \<not> is_finite x then Inl (Invalid ''input must be finite'')
       else let v = f64_add (f64_mul x (scale c)) (offset c) in
         if \<not> is_finite v then Inl (Invalid ''calibrated input must be finite'') else Inr v)"

section \<open>Definitions\<close>

definition MAX_DEBOUNCE_MS :: i64 where "MAX_DEBOUNCE_MS = 300000"
definition MAX_DISPLAY_NAME_CHARS :: nat where "MAX_DISPLAY_NAME_CHARS = 128"
definition MAX_UNIT_CHARS :: nat where "MAX_UNIT_CHARS = 32"

datatype pipeline_kind = Measurement | State | AccumulatedCount

fun kind_key :: "pipeline_kind \<Rightarrow> string" where
  "kind_key Measurement = ''measurement''"
| "kind_key State = ''state''"
| "kind_key AccumulatedCount = ''accumulated-count''"

datatype trigger = OnTransition

datatype detector_mode = HighActive | LowActive

record detector =
  mode :: detector_mode
  rise_threshold :: f64
  fall_threshold :: f64
  rise_debounce_ms :: i64
  fall_debounce_ms :: i64

datatype validation_error = ValidationError string

definition detector_validate :: "detector \<Rightarrow> validation_error + unit" where
  "detector_validate d =
     (if \<not> is_finite (rise_threshold d) \<or> \<not> is_finite (fall_threshold d)
        then Inl (ValidationError
          ''detector.rise_threshold and detector.fall_threshold must be finite'')
      else if \<not> (0 \<le> rise_debounce_ms d \<and> rise_debounce_ms d \<le> MAX_DEBOUNCE_MS)
            \<or> \<not> (0 \<le> fall_debounce_ms d \<and> fall_debounce_ms d \<le> MAX_DEBOUNCE_MS)
        then Inl (ValidationError ''detector debounce must be between 0 and 300000 ms'')
      else if f64_lt (rise_threshold d) (fall_threshold d)
        then Inl (ValidationError
          ''detector.fall_threshold cannot exceed detector.rise_threshold'')
      else Inr ())"

record pipeline_input =
  in_adapter :: string
  in_subject :: "string option"
  in_measurement_key :: string
  in_channel_index :: "u16 option"
  in_value_index :: u16

definition input_matches ::
    "pipeline_input \<Rightarrow> string \<Rightarrow> string option \<Rightarrow> string \<Rightarrow> u16 option \<Rightarrow> bool" where
  "input_matches i adapter subject key channel \<longleftrightarrow>
     in_adapter i = adapter \<and> in_measurement_key i = key \<and> in_channel_index i = channel \<and>
     (case in_subject i of None \<Rightarrow> True | Some want \<Rightarrow> Some want = subject)"

record pipeline_definition =
  pd_id :: pipeline_id
  pd_kind :: pipeline_kind
  pd_input :: pipeline_input
  pd_trigger :: "trigger option"
  pd_unit :: "string option"
  pd_display_name :: "string option"
  pd_calibration :: calibration
  pd_detector :: "detector option"

definition validate_common :: "pipeline_definition \<Rightarrow> validation_error + unit" where
  "validate_common d =
     (if in_adapter (pd_input d) = [] then Inl (ValidationError ''input.adapter must not be empty'')
      else if in_measurement_key (pd_input d) = []
        then Inl (ValidationError ''input.measurement_key must not be empty'')
      else if in_subject (pd_input d) = Some []
        then Inl (ValidationError ''input.subject must not be empty'')
      else if (case pd_display_name d of None \<Rightarrow> False
               | Some name \<Rightarrow> trim_is_empty name \<or> MAX_DISPLAY_NAME_CHARS < length (chars name))
        then Inl (ValidationError ''display_name must be 1 to 128 characters'')
      else case calibration_validate (pd_calibration d) of
        Inl e \<Rightarrow> Inl (ValidationError (evaluator_error_display e))
      | Inr _ \<Rightarrow> Inr ())"

definition validate_kind :: "pipeline_definition \<Rightarrow> validation_error + unit" where
  "validate_kind d = (case pd_kind d of
     Measurement \<Rightarrow>
       if pd_detector d \<noteq> None
         then Inl (ValidationError ''detector is not allowed for kind measurement'')
       else if pd_trigger d \<noteq> None
         then Inl (ValidationError ''trigger is not allowed for kind measurement'')
       else (case pd_unit d of
           Some u \<Rightarrow> if \<not> trim_is_empty u \<and> length (chars u) \<le> MAX_UNIT_CHARS then Inr ()
             else Inl (ValidationError
               ''unit is required for kind measurement (1 to 32 characters)'')
         | None \<Rightarrow> Inl (ValidationError
             ''unit is required for kind measurement (1 to 32 characters)''))
   | k \<Rightarrow>
       if pd_unit d \<noteq> None
         then Inl (ValidationError ''unit is only allowed for kind measurement'')
       else (case pd_detector d of
           None \<Rightarrow> Inl (ValidationError (''detector is required for kind '' @ kind_key k))
         | Some det \<Rightarrow> (case detector_validate det of
             Inl e \<Rightarrow> Inl e
           | Inr _ \<Rightarrow> (case (k, pd_trigger d) of
               (State, Some _) \<Rightarrow>
                 Inl (ValidationError ''trigger is not allowed for kind state'')
             | (AccumulatedCount, None) \<Rightarrow>
                 Inl (ValidationError ''trigger is required for kind accumulated-count'')
             | _ \<Rightarrow> Inr ()))))"

definition validate :: "pipeline_definition \<Rightarrow> validation_error + unit" where
  "validate d = (case validate_common d of Inl e \<Rightarrow> Inl e | Inr _ \<Rightarrow> validate_kind d)"

section \<open>External code\<close>

text \<open>
  The libraries the crates call, in the order of their use here: serde_json printing and
  parsing, the derived \<^verbatim>\<open>Deserialize\<close> of a definition, the SHA-256 digest, the bytes of the
  UUIDs of successive \<^verbatim>\<open>Uuid::now_v7\<close> calls, the text of a UUID and its parser, the SQLite
  statements that fail at run time (\<open>sql_fault n\<close>: the \<open>n\<close>-th statement executed fails), the
  debug form of a character, and successive readings of the wall clock in milliseconds.
\<close>

record ext =
  json_text :: "json \<Rightarrow> string"
  json_parse :: "string \<Rightarrow> json option"
  definition_parse :: "string \<Rightarrow> string + pipeline_definition"
  sha256 :: "string \<Rightarrow> string"
  uuid_v7_bytes :: "nat \<Rightarrow> string"
  uuid_to_string :: "string \<Rightarrow> string"
  uuid_parse_str :: "string \<Rightarrow> string option"
  sql_fault :: "nat \<Rightarrow> bool"
  char_debug :: "code_point \<Rightarrow> string"
  wall_ms :: "nat \<Rightarrow> i64"

definition uuid_v7 :: "ext \<Rightarrow> nat \<Rightarrow> string" where
  "uuid_v7 x n = uuid_to_string x (uuid_v7_bytes x n)"

section \<open>JSON forms and the structural hash\<close>

fun trigger_json :: "trigger \<Rightarrow> json" where
  "trigger_json OnTransition = JStr ''on-transition''"

definition kind_json :: "pipeline_kind \<Rightarrow> json" where
  "kind_json k = JStr (kind_key k)"

fun mode_json :: "detector_mode \<Rightarrow> json" where
  "mode_json HighActive = JStr ''high-active''"
| "mode_json LowActive = JStr ''low-active''"

definition input_json :: "pipeline_input \<Rightarrow> json" where
  "input_json i = JObj (
     [(''adapter'', JStr (in_adapter i))] @
     json_skip ''subject'' JStr (in_subject i) @
     [(''measurement_key'', JStr (in_measurement_key i))] @
     json_skip ''channel_index'' json_int (in_channel_index i) @
     [(''value_index'', json_int (in_value_index i))])"

definition calibration_json :: "calibration \<Rightarrow> json" where
  "calibration_json c = JObj [(''scale'', JNum (scale c)), (''offset'', JNum (offset c))]"

definition detector_json :: "detector \<Rightarrow> json" where
  "detector_json d = JObj [
     (''mode'', mode_json (mode d)),
     (''rise_threshold'', JNum (rise_threshold d)),
     (''fall_threshold'', JNum (fall_threshold d)),
     (''rise_debounce_ms'', JInt (rise_debounce_ms d)),
     (''fall_debounce_ms'', JInt (fall_debounce_ms d))]"

definition definition_json :: "pipeline_definition \<Rightarrow> json" where
  "definition_json d = JObj (
     [(''id'', JStr (pipeline_id_str (pd_id d))),
      (''kind'', kind_json (pd_kind d)),
      (''input'', input_json (pd_input d))] @
     json_skip ''trigger'' trigger_json (pd_trigger d) @
     json_skip ''unit'' JStr (pd_unit d) @
     json_skip ''display_name'' JStr (pd_display_name d) @
     [(''calibration'', calibration_json (pd_calibration d))] @
     json_skip ''detector'' detector_json (pd_detector d))"

text \<open>The canonical value orders object keys.\<close>

definition structural_json :: "pipeline_definition \<Rightarrow> json" where
  "structural_json d = JObj [
     (''id'', JStr (pipeline_id_str (pd_id d))),
     (''input'', JObj (
        [(''adapter'', JStr (in_adapter (pd_input d)))] @
        json_skip ''channel_index'' json_int (in_channel_index (pd_input d)) @
        [(''measurement_key'', JStr (in_measurement_key (pd_input d)))] @
        json_skip ''subject'' JStr (in_subject (pd_input d)) @
        [(''value_index'', json_int (in_value_index (pd_input d)))])),
     (''kind'', kind_json (pd_kind d)),
     (''trigger'', json_opt trigger_json (pd_trigger d)),
     (''unit'', json_opt JStr (pd_unit d))]"

definition structural_hash :: "ext \<Rightarrow> pipeline_definition \<Rightarrow> string" where
  "structural_hash x d = hex_lower (sha256 x (json_text x (structural_json d)))"

section \<open>Facts\<close>

lemma kind_key_inject [simp]: "kind_key a = kind_key b \<longleftrightarrow> a = b"
  by (cases a; cases b) auto

text \<open>The structural fields: the id, the kind, the whole input, the trigger and the unit.\<close>

definition structural_eq :: "pipeline_definition \<Rightarrow> pipeline_definition \<Rightarrow> bool" where
  "structural_eq a b \<longleftrightarrow> pd_id a = pd_id b \<and> pd_kind a = pd_kind b \<and> pd_input a = pd_input b \<and>
     pd_trigger a = pd_trigger b \<and> pd_unit a = pd_unit b"

lemma trigger_eq: "(a :: trigger) = b"
  by (cases a; cases b) simp

lemma trigger_json_not_null [simp]: "trigger_json t \<noteq> JNull" "JNull \<noteq> trigger_json t"
  by (cases t; simp)+

lemma json_skip_step:
  assumes "\<And>a b. f a = f b \<longleftrightarrow> a = b" "k \<noteq> k'"
  shows "json_skip k f x @ (k', v) # xs = json_skip k f y @ (k', w) # ys \<longleftrightarrow>
         x = y \<and> v = w \<and> xs = ys"
  using assms by (cases x; cases y) (auto simp: json_skip_def)

lemma structural_json_inject: "structural_json a = structural_json b \<longleftrightarrow> structural_eq a b"
proof
  assume eq: "structural_json a = structural_json b"
  have "pd_input a = pd_input b"
    using eq by (intro pipeline_input.equality)
      (auto simp: structural_json_def json_skip_step json_skip_inject)
  moreover have "pd_trigger a = pd_trigger b"
    using eq by (cases "pd_trigger a"; cases "pd_trigger b")
      (auto simp: structural_json_def json_opt_def intro: trigger_eq)
  moreover have "pd_unit a = pd_unit b"
    using eq by (cases "pd_unit a"; cases "pd_unit b") (auto simp: structural_json_def json_opt_def)
  ultimately show "structural_eq a b"
    using eq by (simp add: structural_json_def structural_eq_def kind_json_def)
qed (auto simp: structural_eq_def structural_json_def)

lemma structural_eq_hash: "structural_eq a b \<Longrightarrow> structural_hash x a = structural_hash x b"
  by (simp add: structural_hash_def flip: structural_json_inject)

lemma byte_hex_digit: "a < 16 \<Longrightarrow> byte (hex_digit a) = (if a < 10 then 48 + a else 87 + a)"
  by (simp add: byte_def hex_digit_def take_bit_nat_eq_self)

lemma hex_digit_inject: "a < 16 \<Longrightarrow> b < 16 \<Longrightarrow> hex_digit a = hex_digit b \<longleftrightarrow> a = b"
  unfolding byte_inject [symmetric] by (auto simp: byte_hex_digit simp del: byte_inject split: if_splits)

lemma hex_pair_inject:
  "hex_digit (byte c div 16) = hex_digit (byte d div 16) \<and>
   hex_digit (byte c mod 16) = hex_digit (byte d mod 16) \<longleftrightarrow> c = d"
proof -
  have "byte c div 16 < 16" "byte d div 16 < 16"
    using byte_bound [of c] byte_bound [of d] by linarith+
  then show ?thesis
    by (auto simp: hex_digit_inject) (metis byte_inject div_mult_mod_eq)
qed

lemma hex_lower_inject: "hex_lower a = hex_lower b \<longleftrightarrow> a = b"
proof (induction a arbitrary: b)
  case (Cons c cs)
  show ?case
  proof (cases b)
    case (Cons d ds)
    then show ?thesis
      using Cons.IH [of ds] hex_pair_inject [of c d] by (auto simp: hex_lower_def)
  qed (simp add: hex_lower_def)
next
  case Nil
  then show ?case by (cases b) (auto simp: hex_lower_def)
qed

lemma validate_detector:
  assumes "validate d = Inr ()" "pd_kind d \<noteq> Measurement"
  obtains det where "pd_detector d = Some det" "detector_validate det = Inr ()"
    "pd_kind d = AccumulatedCount \<longleftrightarrow> pd_trigger d = Some OnTransition"
  using assms
  by (cases "pd_kind d"; cases "pd_detector d"; cases "pd_trigger d")
    (auto simp: validate_def validate_kind_def trigger_eq split: sum.splits if_splits)

lemma validate_calibration: "validate d = Inr () \<Longrightarrow> calibration_validate (pd_calibration d) = Inr ()"
  by (auto simp: validate_def validate_common_def split: sum.splits if_splits)

lemma calibration_apply_Inr:
  "calibration_apply c x = Inr v \<longleftrightarrow>
     calibration_validate c = Inr () \<and> is_finite x \<and> is_finite v \<and>
     v = f64_add (f64_mul x (scale c)) (offset c)"
  by (auto simp: calibration_apply_def Let_def split: sum.splits)

lemma calibration_validate_Inr:
  "calibration_validate c = Inr () \<longleftrightarrow>
     (\<exists>s. scale c = Fin s \<and> s \<noteq> 0) \<and> is_finite (offset c)"
  by (cases "scale c") (auto simp: calibration_validate_def)

section \<open>A concrete instance\<close>

text \<open>
  Concrete functions in place of the libraries, and three definitions, on which the hypotheses
  of the properties are shown to hold: a printer that renders an object by its first field, a
  parser of the values it prints for booleans and numbers, and a decoder that knows the three
  definitions.
\<close>

definition dec_int :: "int \<Rightarrow> string" where
  "dec_int i = (if i < 0 then ''-'' @ dec_nat (nat (- i)) else dec_nat (nat i))"

fun demo_text :: "json \<Rightarrow> string" where
  "demo_text JNull = ''null''"
| "demo_text (JBool b) = (if b then ''true'' else ''false'')"
| "demo_text (JInt i) = dec_int i"
| "demo_text (JNum v) = (case v of Fin r \<Rightarrow> dec_int \<lfloor>r\<rfloor> | _ \<Rightarrow> ''null'')"
| "demo_text (JStr s) = s"
| "demo_text (JArr js) = (case js of [] \<Rightarrow> ''[]'' | j # _ \<Rightarrow> demo_text j)"
| "demo_text (JObj kvs) = (case kvs of [] \<Rightarrow> ''{}'' | (k, j) # _ \<Rightarrow> demo_text j)"

definition demo_parse :: "string \<Rightarrow> json option" where
  "demo_parse s = (if s = ''true'' then Some (JBool True) else if s = ''false'' then Some (JBool False)
     else if s \<noteq> [] \<and> list_all (\<lambda>c. is_ascii_digit (byte c)) s
       then Some (JInt (foldl (\<lambda>a c. a * 10 + int (byte c) - 48) 0 s))
     else None)"

definition demo_detector :: detector where
  "demo_detector = \<lparr> mode = HighActive, rise_threshold = Fin 10, fall_threshold = Fin 5,
     rise_debounce_ms = 100, fall_debounce_ms = 0 \<rparr>"

definition demo_input :: pipeline_input where
  "demo_input = \<lparr> in_adapter = ''http'', in_subject = None, in_measurement_key = ''level'',
     in_channel_index = None, in_value_index = 0 \<rparr>"

definition demo_measurement :: pipeline_definition where
  "demo_measurement = \<lparr> pd_id = PipelineId ''temp'', pd_kind = Measurement, pd_input = demo_input,
     pd_trigger = None, pd_unit = Some ''C'', pd_display_name = None,
     pd_calibration = default_calibration, pd_detector = None \<rparr>"

definition demo_state :: pipeline_definition where
  "demo_state = \<lparr> pd_id = PipelineId ''door'', pd_kind = State, pd_input = demo_input,
     pd_trigger = None, pd_unit = None, pd_display_name = None,
     pd_calibration = default_calibration, pd_detector = Some demo_detector \<rparr>"

definition demo_count :: pipeline_definition where
  "demo_count = \<lparr> pd_id = PipelineId ''count'', pd_kind = AccumulatedCount, pd_input = demo_input,
     pd_trigger = Some OnTransition, pd_unit = None, pd_display_name = None,
     pd_calibration = default_calibration,
     pd_detector = Some (demo_detector\<lparr> rise_debounce_ms := 0 \<rparr>) \<rparr>"

definition demo_ext :: ext where
  "demo_ext = \<lparr> json_text = demo_text, json_parse = demo_parse,
     definition_parse = (\<lambda>s. case find_row (\<lambda>d. demo_text (definition_json d) = s)
         [demo_measurement, demo_state, demo_count] of
       Some d \<Rightarrow> Inr d | None \<Rightarrow> Inl ''unreadable''),
     sha256 = (\<lambda>bs. bs), 
     uuid_v7_bytes = (\<lambda>n. replicate (16 - length (dec_nat n)) CHR ''0'' @ dec_nat n),
     uuid_to_string = (\<lambda>bs. bs), uuid_parse_str = (\<lambda>s. if length s = 16 then Some s else None),
     sql_fault = (\<lambda>n. False),
     char_debug = (\<lambda>c. [char_of c]), wall_ms = (\<lambda>n. 1000) \<rparr>"

section \<open>Properties\<close>



text \<open>The default calibration is the identity on every finite double.\<close>

theorem calibration_default_identity:
  assumes "f64_ok x" "is_finite x"
  shows "calibration_apply default_calibration x = Inr x"
  using assms by (cases x) (auto simp: calibration_apply_Inr calibration_validate_Inr
      default_calibration_def round_f64_okD)

theorem calibration_default_identity_witness:
  "calibration_apply default_calibration (Fin 21) = Inr (Fin 21)"
  by (rule calibration_default_identity) (simp_all add: f64_ok_def)

text \<open>C7: The structural hash depends exactly on the id, the kind, the input, the trigger and the
  unit, as long as SHA-256 and the JSON printer do not identify the two canonical forms: two
  definitions hash alike when, and only when, they differ at most in tuning items.\<close>

theorem structural_hash_exact:
  assumes "sha256 x (json_text x (structural_json a)) = sha256 x (json_text x (structural_json b)) \<Longrightarrow>
           json_text x (structural_json a) = json_text x (structural_json b)"
    and "json_text x (structural_json a) = json_text x (structural_json b) \<Longrightarrow>
         structural_json a = structural_json b"
  shows "structural_hash x a = structural_hash x b \<longleftrightarrow> structural_eq a b"
  using assms by (metis structural_hash_def hex_lower_inject structural_json_inject)

theorem structural_hash_exact_witness:
  "structural_hash demo_ext demo_state = structural_hash demo_ext (demo_state\<lparr> pd_display_name := Some ''door'' \<rparr>) \<and>
   structural_hash demo_ext demo_state \<noteq> structural_hash demo_ext demo_count"
proof
  show "structural_hash demo_ext demo_state =
      structural_hash demo_ext (demo_state\<lparr> pd_display_name := Some ''door'' \<rparr>)"
    by (subst structural_hash_exact) (simp_all add: structural_eq_def structural_json_def)
  have "sha256 demo_ext (json_text demo_ext (structural_json demo_state)) \<noteq>
      sha256 demo_ext (json_text demo_ext (structural_json demo_count))"
    by code_simp
  then show "structural_hash demo_ext demo_state \<noteq> structural_hash demo_ext demo_count"
    by (subst structural_hash_exact) (auto simp: structural_eq_def demo_state_def demo_count_def)
qed

end
