(* ===== verification/Evaluator.thy ===== *)
theory Evaluator
  imports Pipeline_Def
begin

text \<open>
  Evaluation of one input (\<^verbatim>\<open>edge-node/core/pipeline/src/evaluator.rs\<close>): calibration,
  thresholds with hysteresis, debounce and accumulated counting. \<open>eval_run\<close> relates an
  evaluation state to the history of accepted inputs that led to it.
\<close>

section \<open>Definitions\<close>

definition MAX_SAFE_INTEGER :: i64 where
  "MAX_SAFE_INTEGER = 9007199254740991"

record evaluation_state =
  initialized :: bool
  active :: bool
  counter :: i64
  pending :: bool
  pending_active :: bool
  pending_since :: i64

definition default_evaluation_state :: evaluation_state where
  "default_evaluation_state = \<lparr> initialized = False, active = False, counter = 0,
     pending = False, pending_active = False, pending_since = 0 \<rparr>"

record evaluation =
  emitted :: bool
  number :: "f64 option"
  boolean :: "bool option"
  integer :: "i64 option"
  calibrated :: f64

definition silent :: "f64 \<Rightarrow> evaluation" where
  "silent v = \<lparr> emitted = False, number = None, boolean = None, integer = None, calibrated = v \<rparr>"

definition detector_active :: "detector \<Rightarrow> evaluation_state \<Rightarrow> f64 \<Rightarrow> bool" where
  "detector_active det st v = (case mode det of
     HighActive \<Rightarrow> if initialized st \<and> active st then f64_lt (fall_threshold det) v
                   else f64_le (rise_threshold det) v
   | LowActive \<Rightarrow> if initialized st \<and> active st then f64_lt v (rise_threshold det)
                  else f64_le v (fall_threshold det))"

definition transition_debounce :: "detector \<Rightarrow> bool \<Rightarrow> i64" where
  "transition_debounce det target =
     (let rising_signal = (case mode det of HighActive \<Rightarrow> target | LowActive \<Rightarrow> \<not> target)
      in if rising_signal then rise_debounce_ms det else fall_debounce_ms det)"

text \<open>The last part of \<^verbatim>\<open>evaluate\<close>: what a state or a count emits once the detector has settled.\<close>

definition settle ::
    "pipeline_definition \<Rightarrow> bool \<Rightarrow> evaluation \<Rightarrow> evaluation_state \<Rightarrow>
     evaluator_error + (evaluation \<times> evaluation_state)" where
  "settle d previous result st = (case pd_kind d of
     AccumulatedCount \<Rightarrow> (case pd_trigger d of
         None \<Rightarrow> Inl (Invalid ''trigger is required for accumulated-count'')
       | Some OnTransition \<Rightarrow>
           if \<not> previous \<and> active st then
             if MAX_SAFE_INTEGER \<le> counter st then Inl CounterLimit
             else Inr (result\<lparr> emitted := True, integer := Some (counter st + 1) \<rparr>,
                       st\<lparr> counter := counter st + 1 \<rparr>)
           else Inr (result, st))
   | _ \<Rightarrow>
       if previous \<noteq> active st
       then Inr (result\<lparr> emitted := True, boolean := Some (active st) \<rparr>, st)
       else Inr (result, st))"

text \<open>The part of \<^verbatim>\<open>evaluate\<close> that runs the detector on the calibrated value.\<close>

definition detect ::
    "pipeline_definition \<Rightarrow> detector \<Rightarrow> evaluation_state \<Rightarrow> f64 \<Rightarrow> i64 \<Rightarrow>
     evaluator_error + (evaluation \<times> evaluation_state)" where
  "detect d det st v received_at =
     (let candidate = detector_active det st v; debounce = transition_debounce det candidate in
      if \<not> initialized st then
        Inr (if pd_kind d = State
             then (silent v)\<lparr> emitted := True, boolean := Some candidate \<rparr> else silent v,
             st\<lparr> initialized := True, active := candidate \<rparr>)
      else if candidate = active st then
        settle d (active st) (silent v) (st\<lparr> pending := False \<rparr>)
      else if debounce = 0 then
        settle d (active st) (silent v) (st\<lparr> active := candidate, pending := False \<rparr>)
      else if \<not> pending st \<or> pending_active st \<noteq> candidate then
        Inr (silent v, st\<lparr> pending := True, pending_active := candidate,
                          pending_since := received_at \<rparr>)
      else if received_at < pending_since st then
        Inr (silent v, st\<lparr> pending_since := received_at \<rparr>)
      else if received_at - pending_since st < debounce then Inr (silent v, st)
      else settle d (active st) (silent v) (st\<lparr> active := candidate, pending := False \<rparr>))"

definition evaluate ::
    "pipeline_definition \<Rightarrow> evaluation_state \<Rightarrow> f64 \<Rightarrow> i64 \<Rightarrow>
     evaluator_error + (evaluation \<times> evaluation_state)" where
  "evaluate d st input received_at =
     (if received_at < 0 then Inl (Invalid ''received time must be non-negative'')
      else case calibration_apply (pd_calibration d) input of
        Inl e \<Rightarrow> Inl e
      | Inr v \<Rightarrow>
          if pd_kind d = Measurement
          then Inr ((silent v)\<lparr> emitted := True, number := Some v \<rparr>, st\<lparr> initialized := True \<rparr>)
          else case pd_detector d of
            None \<Rightarrow> Inl (Invalid ''detector is required for state and accumulated-count'')
          | Some det \<Rightarrow> detect d det st v received_at)"

section \<open>Reachable states with their history\<close>

text \<open>
  The state after a sequence of accepted inputs. A rejected input (an evaluator error) leaves
  the state as it was, which is what the engine does with it.
\<close>

inductive eval_run :: "pipeline_definition \<Rightarrow> (f64 \<times> i64) list \<Rightarrow> evaluation_state \<Rightarrow> bool"
  for d where
  start: "eval_run d [] default_evaluation_state"
| accepted: "eval_run d xs st \<Longrightarrow> evaluate d st x t = Inr (r, st') \<Longrightarrow> eval_run d (xs @ [(x, t)]) st'"
| rejected: "eval_run d xs st \<Longrightarrow> evaluate d st x t = Inl e \<Longrightarrow> eval_run d xs st"

section \<open>One step\<close>

lemma evaluate_measurement:
  assumes "pd_kind d = Measurement" "evaluate d st x t = Inr (r, st')"
  shows "emitted r" "number r = Some (calibrated r)" "calibration_apply (pd_calibration d) x = Inr (calibrated r)"
  using assms by (auto simp: evaluate_def silent_def split: if_splits sum.splits)

lemma settle_same:
  "settle d (active st) r st = Inr (r', st') \<Longrightarrow> r' = r \<and> st' = st"
  by (auto simp: settle_def split: pipeline_kind.splits option.splits trigger.splits)

lemma settle_change:
  assumes "settle d (\<not> active st) (silent v) st = Inr (r, st')" "pd_kind d \<noteq> Measurement"
  shows "active st' = active st" "initialized st' = initialized st" "pending st' = pending st"
    "pending_since st' = pending_since st"
    "emitted r = (pd_kind d = State \<or> active st)" "calibrated r = v" "number r = None"
    "boolean r = (if pd_kind d = State then Some (active st) else None)"
    "integer r = (if pd_kind d = AccumulatedCount \<and> active st then Some (counter st') else None)"
    "counter st' = (if pd_kind d = AccumulatedCount \<and> active st then counter st + 1 else counter st)"
    "counter st' \<le> MAX_SAFE_INTEGER \<or> counter st' = counter st"
  using assms
  by (cases "pd_kind d"; force simp: settle_def silent_def split: option.splits trigger.splits if_splits)+

lemma evaluate_detect:
  assumes "evaluate d st x t = Inr (r, st')" "pd_kind d \<noteq> Measurement"
  obtains det v where "0 \<le> t" "pd_detector d = Some det" "calibration_apply (pd_calibration d) x = Inr v"
    "detect d det st v t = Inr (r, st')"
  using assms by (auto simp: evaluate_def split: if_splits sum.splits option.splits)

text \<open>
  What one accepted input does to a pipeline with a detector, by cases: the first input takes
  the detector's state; later the confirmed state stays, or changes to the candidate.
\<close>

lemma evaluate_detector_cases:
  assumes "evaluate d st x t = Inr (r, st')" "pd_kind d \<noteq> Measurement"
  obtains (first) det v where "\<not> initialized st" "pd_detector d = Some det"
      "calibration_apply (pd_calibration d) x = Inr v"
      "st' = st\<lparr> initialized := True, active := detector_active det st v \<rparr>" "calibrated r = v"
      "r = (if pd_kind d = State then (silent v)\<lparr> emitted := True, boolean := Some (active st') \<rparr>
            else silent v)"
  | (same) det v where "initialized st" "pd_detector d = Some det"
      "calibration_apply (pd_calibration d) x = Inr v" "detector_active det st v = active st"
      "st' = st\<lparr> pending := False \<rparr>" "r = silent v"
  | (wait) det v since where "initialized st" "pd_detector d = Some det"
      "calibration_apply (pd_calibration d) x = Inr v" "detector_active det st v = (\<not> active st)"
      "st' = st\<lparr> pending := True, pending_active := \<not> active st, pending_since := since \<rparr>"
      "since = t \<or> pending st \<and> pending_active st = (\<not> active st) \<and> since = pending_since st \<and>
         pending_since st \<le> t"
      "r = silent v"
  | (change) det v where "initialized st" "pd_detector d = Some det"
      "calibration_apply (pd_calibration d) x = Inr v" "detector_active det st v = (\<not> active st)"
      "active st' = (\<not> active st)" "initialized st'" "\<not> pending st'"
      "transition_debounce det (active st') = 0 \<or>
         pending st \<and> pending_active st = active st' \<and> pending_since st \<le> t \<and>
         transition_debounce det (active st') \<le> t - pending_since st"
      "pending_since st' = pending_since st"
      "emitted r = (pd_kind d = State \<or> active st')" "calibrated r = v" "number r = None"
      "boolean r = (if pd_kind d = State then Some (active st') else None)"
      "integer r = (if pd_kind d = AccumulatedCount \<and> active st' then Some (counter st') else None)"
      "counter st' = (if pd_kind d = AccumulatedCount \<and> active st' then counter st + 1 else counter st)"
      "counter st' \<le> MAX_SAFE_INTEGER \<or> counter st' = counter st"
proof -
  obtain v det where v: "calibration_apply (pd_calibration d) x = Inr v"
      and det: "pd_detector d = Some det" and ev: "detect d det st v t = Inr (r, st')"
    using evaluate_detect [OF assms] by metis
  let ?c = "detector_active det st v"
  consider "\<not> initialized st" | "initialized st" "?c = active st" | "initialized st" "?c = (\<not> active st)"
    by blast
  then show ?thesis
  proof cases
    case 1
    then have "r = (if pd_kind d = State then (silent v)\<lparr> emitted := True, boolean := Some ?c \<rparr> else silent v)"
      "st' = st\<lparr> initialized := True, active := ?c \<rparr>"
      using ev by (auto simp: detect_def Let_def)
    with 1 v det show ?thesis by (intro first) (simp_all add: silent_def)
  next
    case 2
    then have "settle d (active st) (silent v) (st\<lparr> pending := False \<rparr>) = Inr (r, st')" using ev by (simp add: detect_def)
    then show ?thesis using 2 v det settle_same [of d "st\<lparr> pending := False \<rparr>"] by (intro same) auto
  next
    case 3
    let ?D = "transition_debounce det (\<not> active st)" and ?s = "st\<lparr> active := \<not> active st, pending := False \<rparr>"
    let ?old = "pending st \<and> pending_active st = (\<not> active st) \<and> pending_since st \<le> t"
    show ?thesis
    proof (cases "?D = 0 \<or> ?old \<and> ?D \<le> t - pending_since st")
      case True
      then have "settle d (active st) (silent v) ?s = Inr (r, st')"
        using 3 ev by (auto simp: detect_def Let_def split: if_splits)
      note ch = settle_change [of d ?s, simplified, OF this assms(2)]
      then show ?thesis using 3 v det True by (intro change) simp_all
    next
      case False
      then have "st' = st\<lparr> pending := True, pending_active := \<not> active st,
          pending_since := if ?old then pending_since st else t \<rparr> \<and> r = silent v"
        using 3 ev by (auto simp: detect_def Let_def split: if_splits)
      with 3 v det show ?thesis by (intro wait [of det v "if ?old then pending_since st else t"]) auto
    qed
  qed
qed

section \<open>Invariant and history\<close>

definition eval_inv :: "evaluation_state \<Rightarrow> bool" where
  "eval_inv st \<longleftrightarrow> 0 \<le> counter st \<and> counter st \<le> MAX_SAFE_INTEGER \<and> 0 \<le> pending_since st \<and>
     (pending st \<longrightarrow> initialized st \<and> pending_active st = (\<not> active st))"

lemma eval_inv_default: "eval_inv default_evaluation_state"
  by (simp add: eval_inv_def default_evaluation_state_def MAX_SAFE_INTEGER_def)

lemma eval_inv_step:
  assumes inv: "eval_inv st" and ev: "evaluate d st x t = Inr (r, st')"
  shows "eval_inv st'"
proof (cases "pd_kind d = Measurement")
  case True
  then show ?thesis using assms
    by (auto simp: evaluate_def eval_inv_def split: if_splits sum.splits)
next
  case False
  have "0 \<le> t" using ev by (auto simp: evaluate_def split: if_splits)
  from ev False show ?thesis
    by (cases rule: evaluate_detector_cases) (use inv \<open>0 \<le> t\<close> in \<open>auto simp: eval_inv_def\<close>)
qed

lemma eval_run_inv: "eval_run d xs st \<Longrightarrow> eval_inv st"
  by (induction rule: eval_run.induct) (auto intro: eval_inv_default eval_inv_step)

lemma detector_active_cong:
  "initialized st = initialized st' \<Longrightarrow> active st = active st' \<Longrightarrow>
   detector_active det st v = detector_active det st' v"
  by (auto simp: detector_active_def split: detector_mode.splits)

text \<open>An input that asks the detector to leave its confirmed state.\<close>

definition asks_change :: "pipeline_definition \<Rightarrow> detector \<Rightarrow> evaluation_state \<Rightarrow> f64 \<Rightarrow> bool" where
  "asks_change d det st x \<longleftrightarrow> (case calibration_apply (pd_calibration d) x of
     Inl _ \<Rightarrow> False | Inr v \<Rightarrow> detector_active det st v \<noteq> active st)"

lemma asks_change_cong:
  "initialized st = initialized st' \<Longrightarrow> active st = active st' \<Longrightarrow>
   asks_change d det st x = asks_change d det st' x"
  unfolding asks_change_def using detector_active_cong [of st st' det]
  by (auto split: sum.splits)

text \<open>A pending change rests on an unbroken run of inputs that began at \<open>pending_since\<close>.\<close>

definition pending_window ::
    "pipeline_definition \<Rightarrow> detector \<Rightarrow> (f64 \<times> i64) list \<Rightarrow> evaluation_state \<Rightarrow> bool" where
  "pending_window d det xs st \<longleftrightarrow> (pending st \<longrightarrow>
     (\<exists>ys w. xs = ys @ w \<and> w \<noteq> [] \<and> snd (hd w) = pending_since st \<and>
        (\<forall>(y, s)\<in>set w. asks_change d det st y)))"

lemma pending_window_step:
  assumes win: "pending_window d det xs st" and ev: "evaluate d st x t = Inr (r, st')"
    and d: "pd_kind d \<noteq> Measurement" "pd_detector d = Some det" and inv: "eval_inv st"
  shows "pending_window d det (xs @ [(x, t)]) st'"
  using ev d(1)
proof (cases rule: evaluate_detector_cases)
  case (wait det' v since)
  then have ask: "asks_change d det st x" using d by (simp add: asks_change_def)
  have cong: "asks_change d det st' y = asks_change d det st y" for y
    by (rule asks_change_cong) (simp_all add: wait)
  have since: "pending_since st' = since" by (simp add: wait)
  show ?thesis
  proof (cases "since = t")
    case True
    then show ?thesis unfolding pending_window_def
      using ask since by (intro impI exI [of _ xs] exI [of _ "[(x, t)]"]) (simp add: cong)
  next
    case False
    then have "pending st" "since = pending_since st" using wait by auto
    then obtain ys w where w: "xs = ys @ w" "w \<noteq> []" "snd (hd w) = since"
        "\<forall>(y, s)\<in>set w. asks_change d det st y"
      using win by (auto simp: pending_window_def)
    then show ?thesis unfolding pending_window_def
      using ask since by (intro impI exI [of _ ys] exI [of _ "w @ [(x, t)]"]) (auto simp: cong)
  qed
qed (use inv in \<open>auto simp: pending_window_def eval_inv_def\<close>)

lemma eval_run_window:
  assumes "eval_run d xs st" "pd_kind d \<noteq> Measurement" "pd_detector d = Some det"
  shows "pending_window d det xs st"
  using assms(1)
proof (induction rule: eval_run.induct)
  case start
  then show ?case by (simp add: pending_window_def default_evaluation_state_def)
next
  case (accepted xs st x t r st')
  then show ?case using pending_window_step [OF _ _ assms(2,3) eval_run_inv] by blast
qed

text \<open>The state after a list of inputs, stopping at the first error.\<close>

fun feed :: "pipeline_definition \<Rightarrow> evaluation_state \<Rightarrow> (f64 \<times> i64) list \<Rightarrow>
    evaluator_error + evaluation_state" where
  "feed d st [] = Inr st"
| "feed d st ((x, t) # w) = (case evaluate d st x t of
     Inl e \<Rightarrow> Inl e | Inr (_, st') \<Rightarrow> feed d st' w)"

text \<open>
  A state pipeline never fails on an input that asks for a change: it changes, or it is inside
  the debounce window, which began at the first asking input unless the clock went back.
\<close>

definition window_start :: "evaluation_state \<Rightarrow> i64 \<Rightarrow> i64" where
  "window_start st t =
     (if pending st \<and> pending_active st = (\<not> active st) \<and> pending_since st \<le> t then pending_since st else t)"

lemma evaluate_asked:
  assumes "pd_kind d = State" "pd_detector d = Some det" "asks_change d det st x" "initialized st"
    "0 \<le> t" "0 \<le> transition_debounce det (\<not> active st)"
  obtains (flip) r st' where "evaluate d st x t = Inr (r, st')" "active st' = (\<not> active st)"
  | (keep) r where "evaluate d st x t = Inr (r, st\<lparr> pending := True, pending_active := \<not> active st,
      pending_since := window_start st t \<rparr>)"
      "t - window_start st t < transition_debounce det (\<not> active st)"
proof -
  obtain v where v: "calibration_apply (pd_calibration d) x = Inr v" "detector_active det st v = (\<not> active st)"
    using assms(3) by (auto simp: asks_change_def split: sum.splits)
  then have ev: "evaluate d st x t = detect d det st v t" using assms by (simp add: evaluate_def)
  let ?D = "transition_debounce det (\<not> active st)"
  show ?thesis
  proof (cases "t - window_start st t < ?D")
    case True
    then have "evaluate d st x t = Inr (silent v, st\<lparr> pending := True, pending_active := \<not> active st,
        pending_since := window_start st t \<rparr>)"
      using assms v by (auto simp: ev detect_def Let_def window_start_def split: if_splits)
    then show ?thesis using True by (rule keep)
  next
    case False
    then have "evaluate d st x t =
        settle d (active st) (silent v) (st\<lparr> active := \<not> active st, pending := False \<rparr>)"
      using assms v by (auto simp: ev detect_def Let_def window_start_def split: if_splits)
    then show ?thesis using assms(1) flip by (simp add: settle_def)
  qed
qed

text \<open>Once a change is pending, inputs that keep asking for it complete it in time.\<close>

lemma feed_pending:
  assumes "pd_kind d = State" "pd_detector d = Some det" "0 \<le> transition_debounce det (\<not> active st)"
    "initialized st" "pending st" "pending_active st = (\<not> active st)" "0 \<le> pending_since st"
    "w \<noteq> []" "\<forall>(x, t)\<in>set w. asks_change d det st x \<and> pending_since st \<le> t"
    "transition_debounce det (\<not> active st) \<le> snd (last w) - pending_since st"
  shows "\<exists>v u st'. w = v @ u \<and> feed d st v = Inr st' \<and> active st' = (\<not> active st)"
  using assms(8-)
proof (induction w)
  case (Cons i w)
  obtain x t where i: "i = (x, t)" by force
  have ask: "asks_change d det st x" and t: "pending_since st \<le> t" "0 \<le> t"
    using Cons.prems assms(7) i by auto
  from assms(1,2) ask assms(4) t(2) assms(3) show ?case
  proof (cases rule: evaluate_asked)
    case (flip r st')
    then show ?thesis unfolding i by - (rule exI [of _ "[(x, t)]"], auto)
  next
    case (keep r)
    have "st\<lparr> pending := True, pending_active := \<not> active st, pending_since := window_start st t \<rparr> = st"
      using assms t by (simp add: window_start_def)
    then have stay: "evaluate d st x t = Inr (r, st)" using keep by simp
    have "w \<noteq> []" using keep Cons.prems(3) i assms t by (auto simp: window_start_def)
    then obtain v u st' where "w = v @ u" "feed d st v = Inr st'" "active st' = (\<not> active st)"
      using Cons by auto
    then show ?thesis using stay i by - (rule exI [of _ "(x, t) # v"], auto)
  qed
qed simp

lemma feed_change:
  assumes "pd_kind d = State" "pd_detector d = Some det" "0 \<le> transition_debounce det (\<not> active st)"
    "initialized st" "eval_inv st" "w \<noteq> []" "0 \<le> snd (hd w)"
    "\<forall>(x, t)\<in>set w. asks_change d det st x \<and> snd (hd w) \<le> t"
    "transition_debounce det (\<not> active st) \<le> snd (last w) - snd (hd w)"
  shows "\<exists>v u st'. w = v @ u \<and> feed d st v = Inr st' \<and> active st' = (\<not> active st)"
proof -
  obtain x t u where w: "w = (x, t) # u" using assms(6) by (metis neq_Nil_conv surj_pair)
  have ask: "asks_change d det st x" and t: "0 \<le> t" using assms w by auto
  from assms(1,2) ask assms(4) t assms(3) show ?thesis
  proof (cases rule: evaluate_asked)
    case (flip r st')
    then show ?thesis unfolding w by - (rule exI [of _ "[(x, t)]"], auto)
  next
    case (keep r)
    let ?s = "st\<lparr> pending := True, pending_active := \<not> active st, pending_since := window_start st t \<rparr>"
    have ws: "window_start st t \<le> t" "0 \<le> window_start st t"
      using assms(5) t by (auto simp: window_start_def eval_inv_def)
    have u: "u \<noteq> []" using keep assms(9) w ws by auto
    have cong: "asks_change d det ?s y = asks_change d det st y" for y
      by (rule asks_change_cong) simp_all
    have "\<exists>v u' st'. u = v @ u' \<and> feed d ?s v = Inr st' \<and> active st' = (\<not> active ?s)"
      by (rule feed_pending) (use assms w ws u cong in \<open>auto\<close>)
    then obtain v u' st' where "u = v @ u'" "feed d ?s v = Inr st'" "active st' = (\<not> active st)" by auto
    then show ?thesis using keep(1) w by - (rule exI [of _ "(x, t) # v"], auto)
  qed
qed

section \<open>Evaluation on concrete inputs\<close>

definition demo_evaluation :: "bool \<Rightarrow> i64 \<Rightarrow> evaluation_state" where
  "demo_evaluation a since = \<lparr> initialized = True, active = a, counter = 0, pending = True,
     pending_active = \<not> a, pending_since = since \<rparr>"

lemmas evaluate_eval =
  evaluate_def detect_def settle_def silent_def detector_active_def transition_debounce_def Let_def
  default_evaluation_state_def demo_evaluation_def demo_state_def demo_count_def demo_detector_def
  default_calibration_def calibration_apply_def calibration_validate_def f64_le_def

section \<open>Properties\<close>

text \<open>C1: A confirmed change of a detector rests on a full debounce window: whenever an accepted
  input changes the confirmed state of a reachable evaluation state, the history ends in an
  unbroken run of inputs that all asked for the change, and the configured debounce time has
  passed between the first and the last of them.\<close>

theorem transition_debounced:
  assumes "eval_run d xs st" "evaluate d st x t = Inr (r, st')"
    and "pd_kind d \<noteq> Measurement" "pd_detector d = Some det"
    and "initialized st" "active st' \<noteq> active st"
  shows "\<exists>ys w. xs @ [(x, t)] = ys @ w \<and> w \<noteq> [] \<and>
     transition_debounce det (active st') \<le> t - snd (hd w) \<and>
     (\<forall>(y, s)\<in>set w. asks_change d det st y)"
  using assms(2,3)
proof (cases rule: evaluate_detector_cases)
  case (change det' v)
  then have ask: "asks_change d det st x" using assms(4) by (simp add: asks_change_def)
  show ?thesis
  proof (cases "transition_debounce det (active st') = 0")
    case True
    then show ?thesis using ask by (intro exI [of _ xs] exI [of _ "[(x, t)]"]) simp
  next
    case False
    then have "pending st" and D: "transition_debounce det (active st') \<le> t - pending_since st"
      using change assms(4) by auto
    then obtain ys w where "xs = ys @ w" "w \<noteq> []" "snd (hd w) = pending_since st"
        "\<forall>(y, s)\<in>set w. asks_change d det st y"
      using eval_run_window [OF assms(1,3,4)] by (auto simp: pending_window_def)
    then show ?thesis using ask D by (intro exI [of _ ys] exI [of _ "w @ [(x, t)]"]) auto
  qed
qed (use assms in auto)

theorem transition_debounced_witness:
  "\<exists>ys w. [(Fin 0, 0), (Fin 12, 1000), (Fin 12, 1100)] = ys @ w \<and> w \<noteq> [] \<and>
     transition_debounce demo_detector True \<le> 1100 - snd (hd w) \<and>
     (\<forall>(y, s)\<in>set w. asks_change demo_state demo_detector (demo_evaluation False 1000) y)"
proof -
  have 1: "eval_run demo_state ([] @ [(Fin 0, 0)])
      (default_evaluation_state\<lparr> initialized := True \<rparr>)"
    by (rule eval_run.accepted [OF eval_run.start, where r = "(silent (Fin 0))\<lparr> emitted := True, boolean := Some False \<rparr>"])
      (simp add: evaluate_eval)
  have 2: "eval_run demo_state (([] @ [(Fin 0, 0)]) @ [(Fin 12, 1000)]) (demo_evaluation False 1000)"
    by (rule eval_run.accepted [OF 1, where r = "silent (Fin 12)"]) (simp add: evaluate_eval)
  have 3: "evaluate demo_state (demo_evaluation False 1000) (Fin 12) 1100 =
      Inr ((silent (Fin 12))\<lparr> emitted := True, boolean := Some True \<rparr>,
           (demo_evaluation False 1000)\<lparr> active := True, pending := False \<rparr>)"
    by (simp add: evaluate_eval)
  show ?thesis
    using transition_debounced [OF 2 3] by (simp add: demo_state_def demo_evaluation_def)
qed

text \<open>C2: A state pipeline responds: inputs that keep asking for a change, at times not before the
  first of them and spanning the debounce time, do change the confirmed state, without an
  evaluator error on the way.\<close>

theorem transition_happens:
  assumes "validate d = Inr ()" "pd_kind d = State" "pd_detector d = Some det"
    and "initialized st" "eval_inv st" "w \<noteq> []" "0 \<le> snd (hd w)"
    and "\<forall>(x, t)\<in>set w. asks_change d det st x \<and> snd (hd w) \<le> t"
    and "transition_debounce det (\<not> active st) \<le> snd (last w) - snd (hd w)"
  shows "\<exists>v u st'. w = v @ u \<and> feed d st v = Inr st' \<and> active st' = (\<not> active st)"
proof -
  have "detector_validate det = Inr ()"
    using validate_detector [OF assms(1)] assms(2,3) by force
  then have "0 \<le> transition_debounce det (\<not> active st)"
    by (auto simp: detector_validate_def transition_debounce_def Let_def split: if_splits)
  then show ?thesis using feed_change [OF assms(2,3) _ assms(4-)] by blast
qed

theorem transition_happens_witness:
  "\<exists>v u st'. [(Fin 12, 1000), (Fin 11, 1060), (Fin 12, 1100)] = v @ u \<and>
     feed demo_state (default_evaluation_state\<lparr> initialized := True \<rparr>) v = Inr st' \<and> active st'"
proof -
  have v: "validate demo_state = Inr ()" by code_simp
  show ?thesis
    using transition_happens [OF v, of demo_detector "default_evaluation_state\<lparr> initialized := True \<rparr>"
        "[(Fin 12, 1000), (Fin 11, 1060), (Fin 12, 1100)]"]
    by (simp add: evaluate_eval asks_change_def eval_inv_def MAX_SAFE_INTEGER_def)
qed

text \<open>Hysteresis: with valid thresholds, a value strictly between the fall and the rise threshold
  never asks the detector to leave its confirmed state, in either mode.\<close>

theorem hysteresis_band:
  assumes "calibration_apply (pd_calibration d) x = Inr v" "initialized st"
    and "f64_lt (fall_threshold det) v" "f64_lt v (rise_threshold det)"
  shows "\<not> asks_change d det st x"
proof -
  obtain a b c where "fall_threshold det = a" "v = b" "rise_threshold det = c" by blast
  then show ?thesis using assms
    by (cases a; cases b; cases c) (auto simp: asks_change_def detector_active_def f64_le_def
        split: detector_mode.splits)
qed

theorem hysteresis_band_witness:
  "\<not> asks_change demo_state demo_detector (demo_evaluation True 0) (Fin 7)"
  by (rule hysteresis_band [of _ _ "Fin 7"]) (simp_all add: evaluate_eval)

text \<open>C4: A state pipeline emits on the first input and then exactly on confirmed changes, and what
  it emits is the confirmed state.\<close>

theorem state_emission:
  assumes "pd_kind d = State" "evaluate d st x t = Inr (r, st')"
  shows "(emitted r \<longleftrightarrow> \<not> initialized st \<or> active st' \<noteq> active st) \<and>
         (emitted r \<longrightarrow> boolean r = Some (active st')) \<and> counter st' = counter st"
proof -
  have "pd_kind d \<noteq> Measurement" using assms(1) by simp
  with assms(2) show ?thesis
    by (cases rule: evaluate_detector_cases) (use assms(1) in \<open>auto simp: silent_def\<close>)
qed

theorem state_emission_witness:
  "\<exists>r st'. evaluate demo_state (demo_evaluation True 0) (Fin 3) 50 = Inr (r, st') \<and>
     emitted r \<and> boolean r = Some (active st')"
proof -
  have ev: "evaluate demo_state (demo_evaluation True 0) (Fin 3) 50 =
      Inr ((silent (Fin 3))\<lparr> emitted := True, boolean := Some False \<rparr>,
           (demo_evaluation True 0)\<lparr> active := False, pending := False \<rparr>)"
    by (simp add: evaluate_eval)
  from state_emission [OF _ ev] ev show ?thesis by (simp add: demo_state_def demo_evaluation_def)
qed

text \<open>C3: An accumulated count emits exactly when the detector goes from inactive to active after the
  baseline input; each emission advances the counter by one and carries the new value, and no
  other input changes the counter.\<close>

theorem count_emission:
  assumes "pd_kind d = AccumulatedCount" "evaluate d st x t = Inr (r, st')"
  shows "(emitted r \<longleftrightarrow> initialized st \<and> \<not> active st \<and> active st') \<and>
         counter st' = counter st + (if emitted r then 1 else 0) \<and>
         integer r = (if emitted r then Some (counter st') else None)"
proof -
  have "pd_kind d \<noteq> Measurement" using assms(1) by simp
  with assms(2) show ?thesis
    by (cases rule: evaluate_detector_cases) (use assms(1) in \<open>auto simp: silent_def\<close>)
qed

theorem count_emission_witness:
  "\<exists>r st'. evaluate demo_count (demo_evaluation False 0) (Fin 12) 50 = Inr (r, st') \<and>
     emitted r \<and> counter st' = counter (demo_evaluation False 0) + 1 \<and> integer r = Some (counter st')"
proof -
  have ev: "evaluate demo_count (demo_evaluation False 0) (Fin 12) 50 =
      Inr ((silent (Fin 12))\<lparr> emitted := True, integer := Some 1 \<rparr>,
           (demo_evaluation False 0)\<lparr> active := True, counter := 1, pending := False \<rparr>)"
    by (simp add: evaluate_eval MAX_SAFE_INTEGER_def)
  from count_emission [OF _ ev] ev show ?thesis by (simp add: demo_count_def demo_evaluation_def)
qed

text \<open>C5: Every reachable evaluation state keeps the counter between 0 and the largest safe integer
  and a non-negative window start, so that neither the window arithmetic nor the next increment
  leaves the range of \<^verbatim>\<open>i64\<close>.\<close>

theorem evaluation_bounds:
  assumes "eval_run d xs st" "0 \<le> t" "in_i64 t" "pending_since st \<le> t"
  shows "0 \<le> counter st \<and> counter st \<le> MAX_SAFE_INTEGER \<and>
         in_i64 (counter st + 1) \<and> in_i64 (t - pending_since st)"
  using eval_run_inv [OF assms(1)] assms(2-)
  by (auto simp: eval_inv_def in_i64_def i64_min_def i64_max_def MAX_SAFE_INTEGER_def)

theorem evaluation_bounds_witness:
  "in_i64 (counter default_evaluation_state + 1) \<and> in_i64 (5 - pending_since default_evaluation_state)"
  using evaluation_bounds [OF eval_run.start [of demo_count], of 5]
  by (simp add: default_evaluation_state_def in_i64_def i64_min_def i64_max_def)

text \<open>C6: A definition that passed validation evaluates every finite input that stays finite under
  calibration: the missing-detector and missing-trigger errors cannot occur, and the only failure
  left is the counter limit.\<close>

theorem validated_evaluates:
  assumes "validate d = Inr ()" "0 \<le> t" "is_finite x"
    and "is_finite (f64_add (f64_mul x (scale (pd_calibration d))) (offset (pd_calibration d)))"
  shows "(\<exists>r st'. evaluate d st x t = Inr (r, st')) \<or>
     (evaluate d st x t = Inl CounterLimit \<and> pd_kind d = AccumulatedCount \<and>
      MAX_SAFE_INTEGER \<le> counter st)"
proof -
  obtain v where v: "calibration_apply (pd_calibration d) x = Inr v"
    using validate_calibration [OF assms(1)] assms(3,4) by (auto simp: calibration_apply_Inr)
  show ?thesis
  proof (cases "pd_kind d = Measurement")
    case True
    then show ?thesis using assms(2) v by (simp add: evaluate_def)
  next
    case False
    obtain det where det: "pd_detector d = Some det"
        "pd_kind d = AccumulatedCount \<longleftrightarrow> pd_trigger d = Some OnTransition"
      using validate_detector [OF assms(1) False] by metis
    have ev: "evaluate d st x t = detect d det st v t" using False assms(2) v det by (simp add: evaluate_def)
    show ?thesis unfolding ev detect_def settle_def Let_def
      using False det by (cases "pd_kind d") auto
  qed
qed

theorem validated_evaluates_witness:
  "(\<exists>r st'. evaluate demo_count default_evaluation_state (Fin 12) 50 = Inr (r, st')) \<or>
   evaluate demo_count default_evaluation_state (Fin 12) 50 = Inl CounterLimit"
proof -
  have v: "validate demo_count = Inr ()" by code_simp
  show ?thesis
    using validated_evaluates [OF v, of 50 "Fin 12" default_evaluation_state]
    by (auto simp: demo_count_def default_calibration_def)
qed

end
