(* ===== verification/Wire.thy ===== *)
theory Wire
  imports Evaluator
begin

text \<open>
  Observations and their MQTT form (\<^verbatim>\<open>edge-node/core/pipeline/src/wire.rs\<close>): the
  values, the two clocks, the topic and the payload.
\<close>

section \<open>Definitions\<close>

datatype observation_value = MeasurementV f64 | StateV bool | AccumulatedCountV i64

fun value_kind :: "observation_value \<Rightarrow> pipeline_kind" where
  "value_kind (MeasurementV _) = Measurement"
| "value_kind (StateV _) = State"
| "value_kind (AccumulatedCountV _) = AccumulatedCount"

text \<open>\<^verbatim>\<open>Value::from(f64)\<close> is \<^verbatim>\<open>null\<close> for a value that is not finite.\<close>

definition json_of_f64 :: "f64 \<Rightarrow> json" where
  "json_of_f64 v = (if is_finite v then JNum v else JNull)"

fun to_json :: "observation_value \<Rightarrow> json" where
  "to_json (MeasurementV v) =
     (if fract_is_zero v \<and> abs_less v 9007199254740992 then JInt (f64_as_i64 v) else json_of_f64 v)"
| "to_json (StateV b) = JBool b"
| "to_json (AccumulatedCountV n) = JInt n"

record input_time =
  uptime_ms :: i64
  unix_epoch_ms :: "i64 option"

text \<open>
  \<^verbatim>\<open>uptime_ms()\<close> and \<^verbatim>\<open>InputTime::now\<close> on the outcome of \<^verbatim>\<open>clock_gettime\<close>: its
  return code, the seconds and the nanoseconds it wrote.
\<close>

definition uptime_of_clock :: "int \<Rightarrow> int \<Rightarrow> int \<Rightarrow> i64" where
  "uptime_of_clock rc tv_sec tv_nsec = (if rc \<noteq> 0 then 0 else tv_sec * 1000 + tv_nsec div 1000000)"

definition input_time_now :: "i64 \<Rightarrow> i64 option \<Rightarrow> input_time" where
  "input_time_now uptime epoch = \<lparr> uptime_ms = uptime, unix_epoch_ms = epoch \<rparr>"

record observation =
  ob_pipeline_id :: pipeline_id
  ob_series_id :: string
  ob_sequence :: u64
  ob_at :: input_time
  ob_value :: observation_value

definition observation_topic :: "edge_node_id \<Rightarrow> pipeline_id \<Rightarrow> pipeline_kind \<Rightarrow> string" where
  "observation_topic node p k =
     ''iotkit/v1/edge-node/'' @ edge_node_id_str node @ ''/observation/'' @ pipeline_id_str p @
     ''/'' @ kind_key k"

definition topic_of :: "edge_node_id \<Rightarrow> observation \<Rightarrow> string" where
  "topic_of node ob = observation_topic node (ob_pipeline_id ob) (value_kind (ob_value ob))"

definition payload_json :: "observation \<Rightarrow> json" where
  "payload_json ob = JObj [
     (''series_id'', JStr (ob_series_id ob)),
     (''sequence'', json_int (ob_sequence ob)),
     (''uptime_ms'', JInt (uptime_ms (ob_at ob))),
     (''unix_epoch_ms'', json_opt JInt (unix_epoch_ms (ob_at ob))),
     (''value'', to_json (ob_value ob))]"

definition payload_of :: "ext \<Rightarrow> observation \<Rightarrow> string" where
  "payload_of x ob = json_text x (payload_json ob)"

text \<open>\<^verbatim>\<open>Number::as_f64\<close>: the double a JSON number denotes.\<close>

fun json_as_f64 :: "json \<Rightarrow> f64 option" where
  "json_as_f64 (JInt i) = Some (round_f64 (of_int i))"
| "json_as_f64 (JNum v) = Some v"
| "json_as_f64 _ = None"

section \<open>Facts\<close>

lemma append_sep_inject:
  "c \<notin> set a \<Longrightarrow> c \<notin> set b \<Longrightarrow> a @ c # x = b @ c # y \<longleftrightarrow> a = b \<and> x = y"
proof (induction a arbitrary: b)
  case (Cons d a)
  then show ?case by (cases b) auto
qed (auto simp: Cons_eq_append_conv)

lemma rat_floor_bound:
  "\<bar>of_int m :: rat\<bar> < 9007199254740992 \<Longrightarrow> \<bar>m\<bar> \<le> 2 ^ 53"
proof -
  assume "\<bar>of_int m :: rat\<bar> < 9007199254740992"
  then have "(of_int \<bar>m\<bar> :: rat) < of_int 9007199254740992" by simp
  then have "\<bar>m\<bar> < 9007199254740992" by (simp only: of_int_less_iff)
  then show ?thesis by simp
qed

lemma f64_as_i64_integral:
  assumes "\<bar>of_int m :: rat\<bar> < 9007199254740992"
  shows "f64_as_i64 (Fin (of_int m)) = m"
  using rat_floor_bound [OF assms] by (auto simp: clamp_i64_def i64_min_def i64_max_def)

section \<open>Properties\<close>

text \<open>C9: Observation topics are injective: two publications share a topic only when they come from
  the same node, the same pipeline and the same kind.\<close>

theorem observation_topic_inject:
  assumes "identifier_grammar (edge_node_id_str n)" "identifier_grammar (edge_node_id_str m)"
    and "identifier_grammar (pipeline_id_str p)" "identifier_grammar (pipeline_id_str q)"
    and "observation_topic n p k = observation_topic m q l"
  shows "n = m \<and> p = q \<and> k = l"
proof -
  note sep = append_sep_inject [OF grammar_no_slash grammar_no_slash]
  have "edge_node_id_str n @ CHR ''/'' # ''observation/'' @ pipeline_id_str p @ CHR ''/'' # kind_key k =
        edge_node_id_str m @ CHR ''/'' # ''observation/'' @ pipeline_id_str q @ CHR ''/'' # kind_key l"
    using assms(5) by (simp add: observation_topic_def)
  then show ?thesis
    using sep [OF assms(1,2)] sep [OF assms(3,4)] by simp
qed

theorem observation_topic_inject_witness:
  "observation_topic (EdgeNodeId ''node-1'') (PipelineId ''temp'') Measurement \<noteq>
   observation_topic (EdgeNodeId ''node-1'') (PipelineId ''door'') State"
proof
  have g: "identifier_grammar ''node-1''" "identifier_grammar ''temp''" "identifier_grammar ''door''"
    unfolding identifier_grammar_ends by code_simp+
  assume "observation_topic (EdgeNodeId ''node-1'') (PipelineId ''temp'') Measurement =
    observation_topic (EdgeNodeId ''node-1'') (PipelineId ''door'') State"
  from observation_topic_inject [OF _ _ _ _ this] g show False by simp
qed

text \<open>C10: The JSON value of a measurement denotes exactly the measured double, although integral
  values below 2^53 are printed as JSON integers.\<close>

theorem measurement_json_exact:
  assumes "f64_ok v" "is_finite v"
  shows "json_as_f64 (to_json (MeasurementV v)) = Some v"
proof (cases v)
  case (Fin r)
  show ?thesis
  proof (cases "fract_is_zero v \<and> abs_less v 9007199254740992")
    case True
    then obtain m where m: "r = of_int m" "\<bar>of_int m :: rat\<bar> < 9007199254740992"
      using Fin by (metis fract_is_zero.simps(1) abs_less.simps(1))
    then show ?thesis
      using True Fin f64_as_i64_integral [OF m(2)] round_f64_of_int [OF rat_floor_bound [OF m(2)]] by simp
  next
    case False
    then show ?thesis using Fin by (auto simp: json_of_f64_def)
  qed
qed (use assms in auto)

theorem measurement_json_exact_witness:
  "json_as_f64 (to_json (MeasurementV (Fin 21))) = Some (Fin 21)"
  by (rule measurement_json_exact) (simp_all add: f64_ok_def)

end
