(* ===== verification/Rust_Parse.thy ===== *)
theory Rust_Parse
  imports Rust_Str
begin

text \<open>
  The parsing and splitting of \<^verbatim>\<open>std\<close> strings the stores use: \<^verbatim>\<open>str::split\<close> and
  \<^verbatim>\<open>str::parse\<close>, the decimal text of signed integers, control characters, and the
  \<^verbatim>\<open>CAST(text AS INTEGER)\<close> of SQLite.
\<close>

section \<open>Splitting\<close>

text \<open>\<^verbatim>\<open>s.split(c)\<close>: always at least one part.\<close>

fun split_on :: "char \<Rightarrow> string \<Rightarrow> string list" where
  "split_on c [] = [[]]"
| "split_on c (b # bs) = (if b = c then [] # split_on c bs
     else case split_on c bs of [] \<Rightarrow> [[b]] | p # ps \<Rightarrow> (b # p) # ps)"

lemma split_on_nonempty [simp]: "split_on c s \<noteq> []"
  by (cases s) (auto split: list.splits)

lemma split_on_free: "c \<notin> set s \<Longrightarrow> split_on c s = [s]"
  by (induction s) auto

lemma split_on_append: "c \<notin> set s \<Longrightarrow> split_on c (s @ c # t) = s # split_on c t"
  by (induction s) auto

lemma split_on_parts: "p \<in> set (split_on c s) \<Longrightarrow> c \<notin> set p"
proof (induction s arbitrary: p)
  case (Cons b bs)
  then show ?case by (cases "split_on c bs") (auto split: if_splits)
qed simp

section \<open>Control characters\<close>

text \<open>\<^verbatim>\<open>char::is_control\<close>: the general category Cc.\<close>

definition is_control :: "code_point \<Rightarrow> bool" where
  "is_control c \<longleftrightarrow> c < 32 \<or> (127 \<le> c \<and> c < 160)"

section \<open>Decimal integers\<close>

definition dec_int :: "int \<Rightarrow> string" where
  "dec_int i = (if i < 0 then CHR ''-'' # dec_nat (nat (- i)) else dec_nat (nat i))"

definition is_digits :: "string \<Rightarrow> bool" where
  "is_digits s \<longleftrightarrow> s \<noteq> [] \<and> list_all (\<lambda>c. is_ascii_digit (byte c)) s"

text \<open>\<^verbatim>\<open>parse::<u64>()\<close> and \<^verbatim>\<open>parse::<i32>()\<close>: an optional sign, at least one digit, in range.\<close>

definition parse_u64 :: "string \<Rightarrow> u64 option" where
  "parse_u64 s = (let d = (case s of c # cs \<Rightarrow> if c = CHR ''+'' then cs else s | [] \<Rightarrow> [])
     in if is_digits d \<and> dec_val d < 2 ^ 64 then Some (dec_val d) else None)"

definition parse_i32 :: "string \<Rightarrow> i32 option" where
  "parse_i32 s = (let neg = (s \<noteq> [] \<and> hd s = CHR ''-'');
       d = (if s \<noteq> [] \<and> (hd s = CHR ''-'' \<or> hd s = CHR ''+'') then tl s else s);
       v = (if neg then - int (dec_val d) else int (dec_val d))
     in if is_digits d \<and> - (2 ^ 31) \<le> v \<and> v < 2 ^ 31 then Some v else None)"

text \<open>
  \<^verbatim>\<open>CAST(value AS INTEGER)\<close> of a text: the longest integer prefix after white space, 0 if there
  is none, clamped to 64 bits.
\<close>

definition sql_space :: "char \<Rightarrow> bool" where
  "sql_space c \<longleftrightarrow> byte c = 32 \<or> (9 \<le> byte c \<and> byte c \<le> 13)"

definition cast_integer :: "string \<Rightarrow> i64" where
  "cast_integer s = (let t = dropWhile sql_space s;
       neg = (t \<noteq> [] \<and> hd t = CHR ''-'');
       d = takeWhile (\<lambda>c. is_ascii_digit (byte c))
             (if t \<noteq> [] \<and> (hd t = CHR ''-'' \<or> hd t = CHR ''+'') then tl t else t)
     in clamp_i64 (if neg then - int (dec_val d) else int (dec_val d)))"

section \<open>Facts\<close>

lemma digits_dec_nat: "list_all (\<lambda>c. is_ascii_digit (byte c)) (dec_nat n)"
proof (induction n rule: dec_nat.induct)
  case (1 n)
  then show ?case by (subst dec_nat.simps) (auto simp: byte_digit_char is_ascii_digit_def)
qed

lemma is_digits_dec_nat [simp]: "is_digits (dec_nat n)"
  by (simp add: is_digits_def digits_dec_nat)

lemma not_digit_signs [simp]:
  "\<not> is_ascii_digit (byte CHR ''-'')" "\<not> is_ascii_digit (byte CHR ''+'')" "\<not> is_ascii_digit (byte CHR '':'')"
  "\<not> is_ascii_digit (byte CHR ''n'')"
  by (simp_all add: is_ascii_digit_def byte_def)

lemma in_dec_nat: "c \<in> set (dec_nat n) \<Longrightarrow> is_ascii_digit (byte c)"
  using digits_dec_nat by (auto simp: list_all_iff)

lemma hd_dec_nat: "is_ascii_digit (byte (hd (dec_nat n)))"
  using in_dec_nat [OF hd_in_set [of "dec_nat n"]] by simp

lemma hd_dec_nat_sign [simp]: "hd (dec_nat n) \<noteq> CHR ''-''" "hd (dec_nat n) \<noteq> CHR ''+''" "hd (dec_nat n) \<noteq> CHR ''n''"
  using hd_dec_nat [of n] not_digit_signs by metis+

lemma parse_u64_dec: "n < 2 ^ 64 \<Longrightarrow> parse_u64 (dec_nat n) = Some n"
proof -
  have "(case dec_nat n of c # cs \<Rightarrow> if c = CHR ''+'' then cs else dec_nat n | [] \<Rightarrow> []) = dec_nat n"
    using hd_dec_nat_sign(2) [of n] by (cases "dec_nat n") simp_all
  then show "n < 2 ^ 64 \<Longrightarrow> parse_u64 (dec_nat n) = Some n"
    by (simp add: parse_u64_def dec_val_dec_nat)
qed

lemma parse_i32_dec: "- (2 ^ 31) \<le> i \<Longrightarrow> i < 2 ^ 31 \<Longrightarrow> parse_i32 (dec_int i) = Some i"
  by (cases "i < 0") (simp_all add: parse_i32_def dec_int_def dec_val_dec_nat)

lemma cast_integer_dec: "cast_integer (dec_int i) = clamp_i64 i"
proof -
  have space: "\<not> sql_space c" if "is_ascii_digit (byte c) \<or> c = CHR ''-''" for c
    using that by (auto simp: is_ascii_digit_def sql_space_def byte_def)
  have "is_ascii_digit (byte (hd (dec_int i))) \<or> hd (dec_int i) = CHR ''-''"
    using hd_dec_nat by (simp add: dec_int_def)
  then have drop: "dropWhile sql_space (dec_int i) = dec_int i"
    using space by (simp add: dropWhile_eq_self_iff)
  have take: "takeWhile (\<lambda>c. is_ascii_digit (byte c)) (dec_nat n) = dec_nat n" for n
    using in_dec_nat by simp
  show ?thesis unfolding cast_integer_def drop
    by (cases "i < 0") (simp_all add: take dec_int_def dec_val_dec_nat)
qed

lemma colon_free_dec_nat [simp]: "CHR '':'' \<notin> set (dec_nat n)"
  using in_dec_nat [of "CHR '':''" n] not_digit_signs(3) by blast

lemma colon_free_dec [simp]: "CHR '':'' \<notin> set (dec_int i)"
  by (simp add: dec_int_def)

lemma dec_int_not_na [simp]: "dec_int i \<noteq> ''na''"
proof
  assume "dec_int i = ''na''"
  then have "hd (dec_int i) = CHR ''n''" by simp
  then show False by (simp add: dec_int_def split: if_splits)
qed

end
