(* ===== verification/Database.thy ===== *)
theory Database
  imports Wire Rust_Parse
begin

text \<open>
  The SQLite database of a node: the tables of the migrations as lists of rows, the statements
  as functions on the tables, and transactions. A statement can fail at run time (the external
  \<open>sql_fault\<close>) or by a constraint of the schema; in both cases it changes no table. The
  counters of executed statements, of generated UUIDs and of clock readings are not part of the tables, so a
  rollback does not restore them.
\<close>

section \<open>Rows of the pipeline migration\<close>

record definition_row =
  dr_pipeline_id :: string
  dr_definition_json :: string
  dr_structural_hash :: string
  dr_input_adapter :: string
  dr_input_subject :: "string option"
  dr_input_measurement_key :: string
  dr_input_channel_index :: "u16 option"
  dr_created_at :: i64
  dr_updated_at :: i64

record state_row =
  ps_pipeline_id :: string
  ps_structural_hash :: string
  ps_series_id :: string
  ps_next_sequence :: i64
  ps_initialized :: bool
  ps_active :: bool
  ps_counter :: i64
  ps_pending :: bool
  ps_pending_active :: bool
  ps_pending_since :: i64
  ps_last_value_json :: "string option"
  ps_last_uptime_ms :: "i64 option"
  ps_last_unix_epoch_ms :: "i64 option"
  ps_updated_at :: i64

record outbox_row =
  outbox_seq :: i64
  or_pipeline_id :: string
  or_topic :: string
  or_payload :: string
  or_retain :: bool
  or_created_at :: input_time

section \<open>Rows of the ledger migrations\<close>

text \<open>Identifiers are stored as BLOBs, the kind and the state of a device as text.\<close>

record device_entry =
  dv_system_id :: string
  dv_hardware_id :: string
  dv_user_label :: "string option"
  dv_parent_system_id :: "string option"
  dv_kind :: string
  dv_state :: string
  dv_declaration_version :: "nat option"
  dv_superseded_by :: "string option"
  dv_created_at :: i64
  dv_retired_at :: "i64 option"
  dv_presentation_identifier :: "string option"

record series_entry =
  se_series_id :: i64
  se_system_id :: string
  se_measurement_key :: string
  se_channel_index :: i32
  se_variant :: string
  se_quarantined :: bool
  se_quarantine_reason :: "string option"
  se_value_semantics :: string
  se_unit :: "string option"
  se_range_min :: "f64 option"
  se_range_max :: "f64 option"
  se_calibration_review :: bool
  se_created_at :: i64

record sighting_entry =
  sg_hardware_id :: string
  sg_source :: string
  sg_first_seen :: i64
  sg_last_seen :: i64
  sg_observations :: i64

record event_entry =
  ev_event_id :: i64
  ev_at :: i64
  ev_kind :: string
  ev_system_id :: "string option"
  ev_detail :: string

record staged_entry =
  st_id :: i64
  st_hardware_id :: string
  st_received_at :: i64
  st_payload_json :: string
  st_principal_id :: string
  st_payload_bytes :: i64
  st_pinned :: bool

text \<open>
  \<open>series_autoinc\<close>, \<open>event_autoinc\<close> and \<open>staged_autoinc\<close> are the largest keys ever used (AUTOINCREMENT).
  The table \<^verbatim>\<open>staged_readings\<close> of the timeseries migrations is kept beside the sightings, whose purge
  reads it if the database has it.
\<close>

record ledger =
  devices_t :: "device_entry list"
  series_t :: "series_entry list"
  series_autoinc :: i64
  sightings_t :: "sighting_entry list"
  ledger_events_t :: "event_entry list"
  event_autoinc :: i64
  ledger_meta_t :: "(string \<times> string) list"
  positional_models_t :: "(string \<times> string) list"
  staged_readings_t :: "staged_entry list option"
  staged_autoinc :: i64

section \<open>Rows of the timeseries migrations\<close>

record reading_entry =
  rd_seq :: i64
  rd_series_id :: i64
  rd_received_at :: i64
  rd_device_time :: "i64 option"
  rd_time_source :: string
  rd_time_quality :: string
  rd_event_time :: i64
  rd_event_time_source :: string
  rd_values_json :: string
  rd_rssi :: "int option"
  rd_battery_pct :: "nat option"
  rd_quarantined :: bool

record dedup_entry =
  dd_rowid :: i64
  dd_sender_id :: string
  dd_envelope_id :: string
  dd_received_at :: i64

record dedup_maintenance =
  dm_degraded :: bool
  dm_episode_started_at :: "i64 option"
  dm_last_failure_at :: "i64 option"
  dm_last_success_at :: "i64 option"

record timeseries =
  readings_t :: "reading_entry list"
  readings_autoinc :: i64
  ingest_dedup_t :: "dedup_entry list"
  dedup_maintenance_t :: dedup_maintenance

section \<open>Rows of the publication migrations\<close>

text \<open>\<open>publication_autoinc\<close> is the row of \<^verbatim>\<open>sqlite_sequence\<close>, zero when there is none.\<close>

record publication_entry =
  pb_pub_seq :: i64
  pb_epoch :: string
  pb_kind :: string
  pb_subtype :: "string option"
  pb_reading_seq :: "i64 option"
  pb_annotation_json :: "string option"
  pb_created_at :: i64

record target_entry =
  tg_target_id :: string
  tg_endpoint_url :: string
  tg_credential_token :: string
  tg_archive_responsible :: bool
  tg_schema_version :: i64
  tg_cursor_epoch :: "string option"
  tg_cursor_pub_seq :: i64
  tg_created_at :: i64

record activation_entry =
  ac_state :: string
  ac_edge_id :: "string option"
  ac_activation_id :: "string option"
  ac_ledger_epoch :: "string option"
  ac_discard_through :: "i64 option"
  ac_cleanup_through :: i64
  ac_request_json :: "string option"
  ac_result_json :: "string option"
  ac_activated_at :: "i64 option"

record publication_store =
  publication_log_t :: "publication_entry list"
  publication_autoinc :: i64
  target_registry_t :: "target_entry list"
  activation_t :: activation_entry

section \<open>Rows of the registry migrations\<close>

record registry_entry =
  re_measurement_key :: string
  re_origin :: string
  re_catalog_version :: "string option"
  re_entry_revision :: string
  re_unit_ucum :: "string option"
  re_unit_display :: "string option"
  re_value_type :: string
  re_semantic_class :: string
  re_channel_mode :: string
  re_channel_roles_json :: "string option"
  re_physical_min :: "f64 option"
  re_physical_max :: "f64 option"
  re_local_min :: "f64 option"
  re_local_max :: "f64 option"
  re_enabled_at :: i64

record alias_entry =
  al_alias :: string
  al_measurement_key :: string
  al_alias_kind :: string
  al_created_at :: i64

record registry_store =
  registry_entries_t :: "registry_entry list"
  registry_aliases_t :: "alias_entry list"
  legacy_map_t :: "(u16 \<times> string \<times> i64) list"

section \<open>Rows of the authority migrations\<close>

text \<open>The columns that the clock, the collector and its live-principal view read.\<close>

record principal_entry =
  dp_principal_id :: string
  dp_device_system_id :: string

record credential_entry =
  dc_credential_id :: string
  dc_principal_id :: string
  dc_auth_epoch :: string
  dc_state :: string

record auth_state =
  auth_generation :: i64
  auth_epoch :: string
  device_credential_generation :: i64
  clock_floor_ms :: i64
  clock_evidence_source :: "string option"
  clock_evidence_at_ms :: "i64 option"
  manual_evidence_seq :: i64

section \<open>The database\<close>

text \<open>\<open>outbox_autoinc\<close> is the largest \<open>outbox_seq\<close> ever used (AUTOINCREMENT).\<close>

record tables =
  pipeline_definition_t :: "definition_row list"
  pipeline_state_t :: "state_row list"
  observation_outbox_t :: "outbox_row list"
  outbox_autoinc :: i64
  pipeline_meta_t :: "(string \<times> string) list"
  ledger_t :: ledger
  auth_state_t :: auth_state
  principals_t :: "principal_entry list"
  scopes_t :: "(string \<times> string) list"
  credentials_t :: "credential_entry list"
  timeseries_t :: timeseries
  publish_t :: publication_store
  registry_t :: registry_store

record node =
  tables :: tables
  sql_step :: nat
  uuid_calls :: nat
  wall_reads :: nat

text \<open>The tables as the migrations leave them; the random \<^verbatim>\<open>auth_epoch\<close> is the zero blob here.\<close>

definition empty_ledger :: ledger where
  "empty_ledger = \<lparr> devices_t = [], series_t = [], series_autoinc = 0, sightings_t = [], ledger_events_t = [],
     event_autoinc = 0, ledger_meta_t = [(''descriptor_revision'', ''1'')], positional_models_t = [],
     staged_readings_t = Some [], staged_autoinc = 0 \<rparr>"

definition initial_auth_state :: auth_state where
  "initial_auth_state = \<lparr> auth_generation = 0, auth_epoch = replicate 32 CHR ''0'', device_credential_generation = 0,
     clock_floor_ms = 0, clock_evidence_source = None, clock_evidence_at_ms = None,
     manual_evidence_seq = 0 \<rparr>"

definition empty_timeseries :: timeseries where
  "empty_timeseries = \<lparr> readings_t = [], readings_autoinc = 0, ingest_dedup_t = [],
     dedup_maintenance_t = \<lparr> dm_degraded = False, dm_episode_started_at = None, dm_last_failure_at = None,
       dm_last_success_at = None \<rparr> \<rparr>"

definition empty_publish :: publication_store where
  "empty_publish = \<lparr> publication_log_t = [], publication_autoinc = 0, target_registry_t = [],
     activation_t = \<lparr> ac_state = ''standalone'', ac_edge_id = None, ac_activation_id = None, ac_ledger_epoch = None,
       ac_discard_through = None, ac_cleanup_through = 0, ac_request_json = None, ac_result_json = None,
       ac_activated_at = None \<rparr> \<rparr>"

definition empty_registry :: registry_store where
  "empty_registry = \<lparr> registry_entries_t = [], registry_aliases_t = [], legacy_map_t = [] \<rparr>"

definition empty_tables :: tables where
  "empty_tables = \<lparr> pipeline_definition_t = [], pipeline_state_t = [], observation_outbox_t = [],
     outbox_autoinc = 0, pipeline_meta_t = [], ledger_t = empty_ledger, auth_state_t = initial_auth_state,
     principals_t = [], scopes_t = [], credentials_t = [], timeseries_t = empty_timeseries, publish_t = empty_publish,
     registry_t = empty_registry \<rparr>"

section \<open>Statements\<close>

datatype sqlite_error =
    SqliteFailure
  | ConstraintPrimaryKey
  | ConstraintForeignKey
  | ConstraintUnique
  | ConstraintCheck
  | FromSqlConversionFailure
  | QueryReturnedNoRows

definition sql :: "ext \<Rightarrow> (tables \<Rightarrow> sqlite_error + 'a \<times> tables) \<Rightarrow> (node, sqlite_error, 'a) act" where
  "sql x f s = (let s' = s\<lparr> sql_step := Suc (sql_step s) \<rparr> in
     if sql_fault x (sql_step s) then (Inl SqliteFailure, s')
     else case f (tables s) of
       Inl e \<Rightarrow> (Inl e, s')
     | Inr (a, t) \<Rightarrow> (Inr a, s'\<lparr> tables := t \<rparr>))"

definition select :: "ext \<Rightarrow> (tables \<Rightarrow> 'a) \<Rightarrow> (node, sqlite_error, 'a) act" where
  "select x f = sql x (\<lambda>t. Inr (f t, t))"

definition execute :: "ext \<Rightarrow> (tables \<Rightarrow> 'a \<times> tables) \<Rightarrow> (node, sqlite_error, 'a) act" where
  "execute x f = sql x (\<lambda>t. Inr (f t))"

definition now_v7 :: "ext \<Rightarrow> (node, 'e, string) act" where
  "now_v7 x s = (Inr (uuid_v7 x (uuid_calls s)), s\<lparr> uuid_calls := Suc (uuid_calls s) \<rparr>)"

text \<open>\<^verbatim>\<open>now_ms()\<close> of the stores: the wall clock since the epoch.\<close>

definition now_ms :: "ext \<Rightarrow> (node, 'e, i64) act" where
  "now_ms x s = (Inr (wall_ms x (wall_reads s)), s\<lparr> wall_reads := Suc (wall_reads s) \<rparr>)"

text \<open>
  A transaction around an action: \<^verbatim>\<open>BEGIN\<close>, the body, and \<^verbatim>\<open>COMMIT\<close> when the body returned
  \<^verbatim>\<open>Ok\<close>. A failing body, and a failing commit, roll the tables back.
\<close>

definition transaction :: "ext \<Rightarrow> (sqlite_error \<Rightarrow> 'e) \<Rightarrow> (node, 'e, 'a) act \<Rightarrow> (node, 'e, 'a) act" where
  "transaction x conv m s =
     (case andThen (mapErr conv (execute x (\<lambda>t. ((), t)))) (\<lambda>_. andThen m (\<lambda>r.
             andThen (mapErr conv (execute x (\<lambda>t. ((), t)))) (\<lambda>_. ret r))) s of
        (Inl e, s') \<Rightarrow> (Inl e, s'\<lparr> tables := tables s \<rparr>)
      | (Inr r, s') \<Rightarrow> (Inr r, s'))"

section \<open>Facts\<close>

lemma sql_Inr [act_simps]:
  "sql x f s = (Inr a, s') \<longleftrightarrow> \<not> sql_fault x (sql_step s) \<and>
     (\<exists>t. f (tables s) = Inr (a, t) \<and> s' = s\<lparr> sql_step := Suc (sql_step s), tables := t \<rparr>)"
  by (auto simp: sql_def Let_def split: sum.splits)

lemma sql_Inl:
  "sql x f s = (Inl e, s') \<Longrightarrow> tables s' = tables s \<and> uuid_calls s' = uuid_calls s"
  by (auto simp: sql_def Let_def split: if_splits sum.splits)

lemma select_Inr [act_simps]:
  "select x f s = (Inr a, s') \<longleftrightarrow> \<not> sql_fault x (sql_step s) \<and> a = f (tables s) \<and>
     s' = s\<lparr> sql_step := Suc (sql_step s) \<rparr>"
  by (auto simp: select_def sql_Inr)

lemma select_tables: "select x f s = (r, s') \<Longrightarrow> tables s' = tables s \<and> uuid_calls s' = uuid_calls s"
  by (auto simp: select_def sql_def Let_def split: if_splits)

lemma execute_Inr [act_simps]:
  "execute x f s = (Inr a, s') \<longleftrightarrow> \<not> sql_fault x (sql_step s) \<and>
     (\<exists>t. f (tables s) = (a, t) \<and> s' = s\<lparr> sql_step := Suc (sql_step s), tables := t \<rparr>)"
  by (auto simp: execute_def sql_Inr)

lemma triple_sql:
  assumes "\<And>s. P s \<Longrightarrow> E' (s\<lparr> sql_step := Suc (sql_step s) \<rparr>)"
    and "\<And>s a t. P s \<Longrightarrow> f (tables s) = Inr (a, t) \<Longrightarrow> Q a (s\<lparr> sql_step := Suc (sql_step s), tables := t \<rparr>)"
  shows "triple P (sql x f) Q (\<lambda>_. E')"
  using assms by (auto simp: triple_def sql_def Let_def split: sum.splits)

lemma triple_select:
  assumes "\<And>s. P s \<Longrightarrow> E' (s\<lparr> sql_step := Suc (sql_step s) \<rparr>)"
    and "\<And>s. P s \<Longrightarrow> Q (f (tables s)) (s\<lparr> sql_step := Suc (sql_step s) \<rparr>)"
  shows "triple P (select x f) Q (\<lambda>_. E')"
  unfolding select_def using assms by (intro triple_sql) auto

lemma triple_execute:
  assumes "\<And>s. P s \<Longrightarrow> E' (s\<lparr> sql_step := Suc (sql_step s) \<rparr>)"
    and "\<And>s. P s \<Longrightarrow> Q (fst (f (tables s))) (s\<lparr> sql_step := Suc (sql_step s), tables := snd (f (tables s)) \<rparr>)"
  shows "triple P (execute x f) Q (\<lambda>_. E')"
  unfolding execute_def using assms by (intro triple_sql) (auto dest: assms(2))

text \<open>Every transaction leaves the tables of its start when it fails.\<close>

lemma transaction_rollback: "transaction x conv m s = (Inl e, s') \<Longrightarrow> tables s' = tables s"
  by (auto simp: transaction_def split: prod.splits sum.splits)

lemma transaction_commit:
  assumes "transaction x conv m s = (Inr r, s')"
  obtains s1 s2 where "tables s1 = tables s" "uuid_calls s1 = uuid_calls s" "m s1 = (Inr r, s2)"
    "tables s' = tables s2" "uuid_calls s' = uuid_calls s2"
proof -
  obtain t where "m (s\<lparr> sql_step := Suc (sql_step s) \<rparr>) = (Inr r, t)"
      "s' = t\<lparr> sql_step := Suc (sql_step t) \<rparr>"
    using assms by (auto simp: transaction_def andThen_eq_Inr execute_Inr split: prod.splits sum.splits)
  then show ?thesis by (intro that [of "s\<lparr> sql_step := Suc (sql_step s) \<rparr>" t]) simp_all
qed

text \<open>A property of the tables that the body keeps is kept by the transaction.\<close>

lemma transaction_keeps:
  assumes "triple P m (\<lambda>_. P) (\<lambda>_. P)" "P s" "\<And>t u. tables t = tables u \<Longrightarrow> P t \<Longrightarrow> P u"
  shows "P (snd (transaction x conv m s))"
proof (cases "transaction x conv m s")
  case (Pair r s')
  show ?thesis
  proof (cases r)
    case (Inl e)
    then have "tables s' = tables s" using Pair transaction_rollback [of x conv m s e s'] by simp
    then have "P s'" by (intro assms(3) [OF _ assms(2)]) simp
    then show ?thesis using Pair by simp
  next
    case (Inr a)
    have "transaction x conv m s = (Inr a, s')" using Pair Inr by simp
    then obtain s1 s2 where s12: "tables s1 = tables s" "m s1 = (Inr a, s2)" "tables s' = tables s2"
      by (rule transaction_commit)
    have "P s1" using s12(1) by (intro assms(3) [OF _ assms(2)]) simp
    then have "P s2" by (rule tripleD_Inr [OF assms(1) _ s12(2)])
    then have "P s'" using s12(3) by (intro assms(3) [of s2 s']) simp_all
    then show ?thesis using Pair by simp
  qed
qed

end
