(* ===== verification/Store.thy ===== *)
theory Store
  imports Database
begin

text \<open>
  Persistence of pipelines (\<^verbatim>\<open>edge-node/core/pipeline/src/store.rs\<close>) and the publication
  outbox (\<^verbatim>\<open>outbox.rs\<close>), one action per function.
\<close>

section \<open>Definitions\<close>

datatype store_error = Sqlite sqlite_error | CorruptDefinition string string

record pipeline_state =
  st_structural_hash :: string
  st_series_id :: string
  st_next_sequence :: u64
  st_evaluation :: evaluation_state
  st_last_value :: "observation_value option"
  st_last_published_at :: "input_time option"

definition definition_row_of :: "ext \<Rightarrow> pipeline_definition \<Rightarrow> i64 \<Rightarrow> definition_row" where
  "definition_row_of x d now = \<lparr>
     dr_pipeline_id = pipeline_id_str (pd_id d),
     dr_definition_json = json_text x (definition_json d),
     dr_structural_hash = structural_hash x d,
     dr_input_adapter = in_adapter (pd_input d),
     dr_input_subject = in_subject (pd_input d),
     dr_input_measurement_key = in_measurement_key (pd_input d),
     dr_input_channel_index = in_channel_index (pd_input d),
     dr_created_at = now, dr_updated_at = now \<rparr>"

definition insert_definition :: "ext \<Rightarrow> pipeline_definition \<Rightarrow> i64 \<Rightarrow> (node, store_error, unit) act" where
  "insert_definition x d now = mapErr Sqlite (sql x (\<lambda>t.
     if \<exists>r\<in>set (pipeline_definition_t t). dr_pipeline_id r = pipeline_id_str (pd_id d)
     then Inl ConstraintPrimaryKey
     else Inr ((), t\<lparr> pipeline_definition_t := pipeline_definition_t t @ [definition_row_of x d now] \<rparr>)))"

definition update_definition :: "ext \<Rightarrow> pipeline_definition \<Rightarrow> i64 \<Rightarrow> (node, store_error, bool) act" where
  "update_definition x d now = mapErr Sqlite (execute x (\<lambda>t.
     let hit = (\<lambda>r. dr_pipeline_id r = pipeline_id_str (pd_id d));
         new = definition_row_of x d now
     in (length (filter hit (pipeline_definition_t t)) = 1,
         t\<lparr> pipeline_definition_t := map (\<lambda>r. if hit r then new\<lparr> dr_created_at := dr_created_at r \<rparr> else r)
              (pipeline_definition_t t) \<rparr>)))"

text \<open>Deleting a definition deletes its state through the foreign key.\<close>

definition delete_definition :: "ext \<Rightarrow> pipeline_id \<Rightarrow> (node, store_error, bool) act" where
  "delete_definition x i = mapErr Sqlite (execute x (\<lambda>t.
     let hit = (\<lambda>r. dr_pipeline_id r = pipeline_id_str i)
     in (length (filter hit (pipeline_definition_t t)) = 1,
         t\<lparr> pipeline_definition_t := filter (\<lambda>r. \<not> hit r) (pipeline_definition_t t),
            pipeline_state_t := filter (\<lambda>r. ps_pipeline_id r \<noteq> pipeline_id_str i \<or>
                \<not> (\<exists>q\<in>set (pipeline_definition_t t). hit q)) (pipeline_state_t t) \<rparr>)))"

definition decode_definition :: "ext \<Rightarrow> string \<Rightarrow> string \<Rightarrow> store_error + pipeline_definition" where
  "decode_definition x i js = (case definition_parse x js of
     Inl e \<Rightarrow> Inl (CorruptDefinition i e) | Inr d \<Rightarrow> Inr d)"

definition get_definition :: "ext \<Rightarrow> pipeline_id \<Rightarrow> (node, store_error, pipeline_definition option) act" where
  "get_definition x i = andThen
     (mapErr Sqlite (select x (\<lambda>t. find_row (\<lambda>r. dr_pipeline_id r = pipeline_id_str i)
        (pipeline_definition_t t))))
     (\<lambda>row. case row of
        None \<Rightarrow> ret None
      | Some r \<Rightarrow> andThen (liftR (decode_definition x (pipeline_id_str i) (dr_definition_json r)))
                    (\<lambda>d. ret (Some d)))"

fun decode_all :: "ext \<Rightarrow> definition_row list \<Rightarrow> store_error + pipeline_definition list" where
  "decode_all x [] = Inr []"
| "decode_all x (r # rs) = (case decode_definition x (dr_pipeline_id r) (dr_definition_json r) of
     Inl e \<Rightarrow> Inl e
   | Inr d \<Rightarrow> (case decode_all x rs of Inl e \<Rightarrow> Inl e | Inr ds \<Rightarrow> Inr (d # ds)))"

definition list_definitions :: "ext \<Rightarrow> (node, store_error, pipeline_definition list) act" where
  "list_definitions x = andThen
     (mapErr Sqlite (select x (\<lambda>t. sort_key dr_pipeline_id (pipeline_definition_t t))))
     (\<lambda>rows. liftR (decode_all x rows))"

definition definitions_for_input ::
    "ext \<Rightarrow> string \<Rightarrow> string option \<Rightarrow> string \<Rightarrow> u16 option \<Rightarrow>
     (node, store_error, pipeline_definition list) act" where
  "definitions_for_input x adapter subject key channel = andThen
     (mapErr Sqlite (select x (\<lambda>t. sort_key dr_pipeline_id (filter (\<lambda>r.
        dr_input_adapter r = adapter \<and> dr_input_measurement_key r = key \<and>
        dr_input_channel_index r = channel \<and>
        (dr_input_subject r = None \<or> dr_input_subject r = subject)) (pipeline_definition_t t)))))
     (\<lambda>rows. liftR (decode_all x rows))"

definition encode_value :: "ext \<Rightarrow> observation_value \<Rightarrow> string" where
  "encode_value x v = json_text x (to_json v)"

definition decode_value :: "ext \<Rightarrow> string \<Rightarrow> observation_value option" where
  "decode_value x js = (case json_parse x js of
     Some (JBool b) \<Rightarrow> Some (StateV b)
   | Some j \<Rightarrow> map_option MeasurementV (json_as_f64 j)
   | None \<Rightarrow> None)"

definition state_of_row :: "ext \<Rightarrow> state_row \<Rightarrow> pipeline_state" where
  "state_of_row x r = \<lparr>
     st_structural_hash = ps_structural_hash r,
     st_series_id = ps_series_id r,
     st_next_sequence = i64_as_u64 (ps_next_sequence r),
     st_evaluation = \<lparr> initialized = ps_initialized r, active = ps_active r, counter = ps_counter r,
       pending = ps_pending r, pending_active = ps_pending_active r, pending_since = ps_pending_since r \<rparr>,
     st_last_value = Option.bind (ps_last_value_json r) (decode_value x),
     st_last_published_at = map_option (\<lambda>up. \<lparr> uptime_ms = up,
       unix_epoch_ms = ps_last_unix_epoch_ms r \<rparr>) (ps_last_uptime_ms r) \<rparr>"

definition get_state :: "ext \<Rightarrow> pipeline_id \<Rightarrow> (node, store_error, pipeline_state option) act" where
  "get_state x i = mapErr Sqlite (select x (\<lambda>t. map_option (state_of_row x)
     (find_row (\<lambda>r. ps_pipeline_id r = pipeline_id_str i) (pipeline_state_t t))))"

definition row_of_state :: "ext \<Rightarrow> pipeline_id \<Rightarrow> pipeline_state \<Rightarrow> i64 \<Rightarrow> state_row" where
  "row_of_state x i st now = \<lparr>
     ps_pipeline_id = pipeline_id_str i,
     ps_structural_hash = st_structural_hash st,
     ps_series_id = st_series_id st,
     ps_next_sequence = u64_as_i64 (st_next_sequence st),
     ps_initialized = initialized (st_evaluation st), ps_active = active (st_evaluation st),
     ps_counter = counter (st_evaluation st), ps_pending = pending (st_evaluation st),
     ps_pending_active = pending_active (st_evaluation st),
     ps_pending_since = pending_since (st_evaluation st),
     ps_last_value_json = map_option (encode_value x) (st_last_value st),
     ps_last_uptime_ms = map_option uptime_ms (st_last_published_at st),
     ps_last_unix_epoch_ms = Option.bind (st_last_published_at st) unix_epoch_ms,
     ps_updated_at = now \<rparr>"

text \<open>The upsert of a state row, which needs its definition to exist.\<close>

definition put_state :: "ext \<Rightarrow> pipeline_id \<Rightarrow> pipeline_state \<Rightarrow> i64 \<Rightarrow> (node, store_error, unit) act" where
  "put_state x i st now = mapErr Sqlite (sql x (\<lambda>t.
     if \<not> (\<exists>r\<in>set (pipeline_definition_t t). dr_pipeline_id r = pipeline_id_str i)
     then Inl ConstraintForeignKey
     else Inr ((), t\<lparr> pipeline_state_t :=
       upsert ps_pipeline_id (row_of_state x i st now) (pipeline_state_t t) \<rparr>)))"

fun get_states :: "ext \<Rightarrow> string list \<Rightarrow> (node, store_error, (pipeline_id \<times> pipeline_state) list) act" where
  "get_states x [] = ret []"
| "get_states x (i # is) = (case parse_pipeline_id i of
     Inl _ \<Rightarrow> get_states x is
   | Inr p \<Rightarrow> andThen (get_state x p) (\<lambda>st. andThen (get_states x is) (\<lambda>rest.
       ret (case st of None \<Rightarrow> rest | Some s \<Rightarrow> (p, s) # rest))))"

definition list_states :: "ext \<Rightarrow> (node, store_error, (pipeline_id \<times> pipeline_state) list) act" where
  "list_states x = andThen
     (mapErr Sqlite (select x (\<lambda>t. sort (map ps_pipeline_id (pipeline_state_t t))))) (get_states x)"

definition META_EDGE_NODE_ID :: string where
  "META_EDGE_NODE_ID = ''edge_node_id''"

definition put_edge_node_id :: "ext \<Rightarrow> edge_node_id \<Rightarrow> (node, store_error, unit) act" where
  "put_edge_node_id x n = mapErr Sqlite (execute x (\<lambda>t. ((), t\<lparr> pipeline_meta_t :=
     upsert fst (META_EDGE_NODE_ID, edge_node_id_str n) (pipeline_meta_t t) \<rparr>)))"

definition get_edge_node_id :: "ext \<Rightarrow> (node, store_error, edge_node_id option) act" where
  "get_edge_node_id x = andThen
     (mapErr Sqlite (select x (\<lambda>t. find_row (\<lambda>r. fst r = META_EDGE_NODE_ID) (pipeline_meta_t t))))
     (\<lambda>row. case row of
        None \<Rightarrow> ret None
      | Some r \<Rightarrow> (case parse_edge_node_id (snd r) of
          Inl e \<Rightarrow> throw (CorruptDefinition META_EDGE_NODE_ID (identifier_error_display (char_debug x) e))
        | Inr n \<Rightarrow> ret (Some n)))"

section \<open>The outbox\<close>

definition outbox_row_of ::
    "pipeline_id \<Rightarrow> string \<Rightarrow> string \<Rightarrow> bool \<Rightarrow> input_time \<Rightarrow> i64 \<Rightarrow> outbox_row" where
  "outbox_row_of i topic payload retain when n = \<lparr> outbox_seq = n,
     or_pipeline_id = pipeline_id_str i, or_topic = topic, or_payload = payload,
     or_retain = retain, or_created_at = when \<rparr>"

definition add_row :: "(i64 \<Rightarrow> outbox_row) \<Rightarrow> tables \<Rightarrow> tables" where
  "add_row row t = t\<lparr> outbox_autoinc := outbox_autoinc t + 1,
     observation_outbox_t := observation_outbox_t t @ [row (outbox_autoinc t + 1)] \<rparr>"

definition enqueue ::
    "ext \<Rightarrow> pipeline_id \<Rightarrow> string \<Rightarrow> string \<Rightarrow> bool \<Rightarrow> input_time \<Rightarrow> (node, sqlite_error, i64) act" where
  "enqueue x i topic payload retain when = execute x (\<lambda>t.
     (outbox_autoinc t + 1, add_row (outbox_row_of i topic payload retain when) t))"

definition oldest_row :: "tables \<Rightarrow> outbox_row option" where
  "oldest_row t = (case sort_key outbox_seq (observation_outbox_t t) of [] \<Rightarrow> None | r # _ \<Rightarrow> Some r)"

definition oldest :: "ext \<Rightarrow> (node, sqlite_error, outbox_row option) act" where
  "oldest x = select x oldest_row"

definition delete_row :: "i64 \<Rightarrow> tables \<Rightarrow> tables" where
  "delete_row n t = t\<lparr> observation_outbox_t := filter (\<lambda>r. outbox_seq r \<noteq> n) (observation_outbox_t t) \<rparr>"

definition outbox_delete :: "ext \<Rightarrow> i64 \<Rightarrow> (node, sqlite_error, bool) act" where
  "outbox_delete x n = execute x (\<lambda>t.
     (length (filter (\<lambda>r. outbox_seq r = n) (observation_outbox_t t)) = 1, delete_row n t))"

definition outbox_count :: "ext \<Rightarrow> (node, sqlite_error, u64) act" where
  "outbox_count x = select x (\<lambda>t. length (observation_outbox_t t))"

definition outbox_all :: "ext \<Rightarrow> (node, sqlite_error, outbox_row list) act" where
  "outbox_all x = select x (\<lambda>t. sort_key outbox_seq (observation_outbox_t t))"

section \<open>The outbox as a queue\<close>

text \<open>
  What the MQTT output adapter relies on: the outbox is a list of rows with increasing sequence
  numbers, rows are added at the end under a number never used before, the oldest row is the
  head, and a deletion removes the row of that number.
\<close>

locale fifo_outbox =
  fixes rows :: "'t \<Rightarrow> 'r list"
    and seq :: "'r \<Rightarrow> int"
    and first :: "'t \<Rightarrow> 'r option"
    and add :: "(int \<Rightarrow> 'r) \<Rightarrow> 't \<Rightarrow> 't"
    and drop_row :: "int \<Rightarrow> 't \<Rightarrow> 't"
    and top :: "'t \<Rightarrow> int"
    and ok :: "'t \<Rightarrow> bool"
  assumes increasing: "ok t \<Longrightarrow> sorted_wrt (<) (map seq (rows t))"
    and bounded: "ok t \<Longrightarrow> r \<in> set (rows t) \<Longrightarrow> seq r \<le> top t"
    and first_row: "ok t \<Longrightarrow> first t = (case rows t of [] \<Rightarrow> None | r # _ \<Rightarrow> Some r)"
    and rows_add: "ok t \<Longrightarrow> rows (add f t) = rows t @ [f (top t + 1)]"
    and rows_drop: "ok t \<Longrightarrow> rows (drop_row n t) = filter (\<lambda>r. seq r \<noteq> n) (rows t)"
    and ok_drop: "ok t \<Longrightarrow> ok (drop_row n t)"
    and ok_add: "ok t \<Longrightarrow> (\<And>n. seq (f n) = n) \<Longrightarrow> ok (add f t)"
begin

lemma first_is_least:
  assumes "ok t" "first t = Some r" "q \<in> set (rows t)"
  shows "seq r \<le> seq q"
  using assms increasing [OF assms(1)] by (auto simp: first_row split: list.splits)

lemma first_in_rows: "ok t \<Longrightarrow> first t = Some r \<Longrightarrow> r \<in> set (rows t)"
  by (auto simp: first_row split: list.splits)

lemma drop_first:
  assumes "ok t" "first t = Some r"
  shows "rows t = r # rows (drop_row (seq r) t)"
proof -
  obtain rs where rs: "rows t = r # rs" using assms by (auto simp: first_row split: list.splits)
  then have "filter (\<lambda>q. seq q \<noteq> seq r) rs = rs" using increasing [OF assms(1)] by (auto simp: filter_id_conv)
  then show ?thesis using rs assms(1) by (simp add: rows_drop)
qed

lemma seq_unique: "ok t \<Longrightarrow> q \<in> set (rows t) \<Longrightarrow> r \<in> set (rows t) \<Longrightarrow> seq q = seq r \<Longrightarrow> q = r"
  using increasing [of t] by (auto simp: strict_sorted_iff distinct_map inj_on_def)

end

definition outbox_ok :: "tables \<Rightarrow> bool" where
  "outbox_ok t \<longleftrightarrow> sorted_wrt (<) (map outbox_seq (observation_outbox_t t)) \<and>
     (\<forall>r\<in>set (observation_outbox_t t). outbox_seq r \<le> outbox_autoinc t)"

lemma sort_key_sorted: "sorted_wrt (<) (map f xs) \<Longrightarrow> sort_key f xs = xs"
  by (rule sort_key_id_if_sorted) (simp add: strict_sorted_iff)

interpretation outbox_queue: fifo_outbox observation_outbox_t outbox_seq oldest_row add_row delete_row
  outbox_autoinc outbox_ok
proof
  show "outbox_ok (delete_row n t)" if "outbox_ok t" for n t
    using that by (auto simp: outbox_ok_def delete_row_def sorted_wrt_map_filter)
  show "outbox_ok (add_row f t)" if "outbox_ok t" "\<And>n. outbox_seq (f n) = n" for f t
    using that by (fastforce simp: outbox_ok_def add_row_def sorted_wrt_append)
qed (auto simp: outbox_ok_def oldest_row_def add_row_def delete_row_def sort_key_sorted)

end
