(* ===== verification/Engine.thy ===== *)
theory Engine
  imports Store
begin

text \<open>
  Series, sequence and single-transaction delivery
  (\<^verbatim>\<open>edge-node/core/pipeline/src/engine.rs\<close>): one action per method of
  \<^verbatim>\<open>PipelineEngine\<close>, the node id as its argument.
\<close>

section \<open>Definitions\<close>

datatype engine_error =
    EValidation validation_error
  | EStore store_error
  | ESqlite sqlite_error
  | AlreadyExists string
  | NotFound string
  | KindChanged
  | MissingValue u16
  | EEvaluator evaluator_error

record series_start =
  ss_pipeline_id :: pipeline_id
  ss_series_id :: string
  ss_published :: "observation option"

record accepted_reading =
  ar_adapter :: string
  ar_subject :: "string option"
  ar_measurement_key :: string
  ar_channel_index :: "u16 option"
  ar_values :: "f64 list"
  ar_received_at :: input_time

datatype delivery_outcome = Silent | Published observation

type_synonym 'a engine_act = "(node, engine_error, 'a) act"

definition engine_load :: "ext \<Rightarrow> (node, store_error, edge_node_id option) act" where
  "engine_load x = get_edge_node_id x"

text \<open>\<^verbatim>\<open>publish\<close> returns the observation together with the advanced state.\<close>

definition publish ::
    "ext \<Rightarrow> edge_node_id \<Rightarrow> pipeline_definition \<Rightarrow> pipeline_state \<Rightarrow> observation_value \<Rightarrow> input_time \<Rightarrow>
     (observation \<times> pipeline_state) engine_act" where
  "publish x node d st v when =
     (let ob = \<lparr> ob_pipeline_id = pd_id d, ob_series_id = st_series_id st,
                 ob_sequence = st_next_sequence st, ob_at = when, ob_value = v \<rparr>
      in andThen (mapErr ESqlite (enqueue x (pd_id d) (topic_of node ob) (payload_of x ob) True when))
           (\<lambda>_. ret (ob, st\<lparr> st_next_sequence := (st_next_sequence st + 1) mod 2 ^ 64,
                            st_last_value := Some v, st_last_published_at := Some when \<rparr>)))"

definition enqueue_deletion ::
    "ext \<Rightarrow> edge_node_id \<Rightarrow> pipeline_definition \<Rightarrow> input_time \<Rightarrow> unit engine_act" where
  "enqueue_deletion x node d now = andThen
     (mapErr ESqlite (enqueue x (pd_id d) (observation_topic node (pd_id d) (pd_kind d)) [] True now))
     (\<lambda>_. ret ())"

definition fresh_state :: "ext \<Rightarrow> pipeline_definition \<Rightarrow> string \<Rightarrow> pipeline_state" where
  "fresh_state x d series = \<lparr> st_structural_hash = structural_hash x d, st_series_id = series,
     st_next_sequence = 1, st_evaluation = default_evaluation_state, st_last_value = None,
     st_last_published_at = None \<rparr>"

definition start_series ::
    "ext \<Rightarrow> edge_node_id \<Rightarrow> pipeline_definition \<Rightarrow> input_time \<Rightarrow> series_start engine_act" where
  "start_series x node d now =
     andThen (now_v7 x) (\<lambda>series. let state = fresh_state x d series in
     andThen (if pd_kind d = AccumulatedCount
              then andThen (publish x node d state (AccumulatedCountV 0) now)
                     (\<lambda>(ob, st). ret (Some ob, st))
              else ret (None, state)) (\<lambda>(published, st).
     andThen (mapErr EStore (put_state x (pd_id d) st (uptime_ms now))) (\<lambda>_.
     ret \<lparr> ss_pipeline_id = pd_id d, ss_series_id = st_series_id st, ss_published = published \<rparr>)))"

definition create :: "ext \<Rightarrow> edge_node_id \<Rightarrow> pipeline_definition \<Rightarrow> input_time \<Rightarrow> series_start engine_act" where
  "create x node d now =
     andThen (mapErr EValidation (liftR (validate d))) (\<lambda>_.
     andThen (mapErr EStore (get_definition x (pd_id d))) (\<lambda>existing.
     if existing \<noteq> None then throw (AlreadyExists (pipeline_id_str (pd_id d)))
     else andThen (mapErr EStore (insert_definition x d (uptime_ms now))) (\<lambda>_.
       start_series x node d now)))"

text \<open>\<^verbatim>\<open>get_definition(..)?.ok_or_else(NotFound)\<close>.\<close>

definition require_definition :: "ext \<Rightarrow> pipeline_id \<Rightarrow> pipeline_definition engine_act" where
  "require_definition x i = andThen (mapErr EStore (get_definition x i)) (\<lambda>d.
     case d of None \<Rightarrow> throw (NotFound (pipeline_id_str i)) | Some d \<Rightarrow> ret d)"

definition continues :: "ext \<Rightarrow> pipeline_definition \<Rightarrow> pipeline_state option \<Rightarrow> bool" where
  "continues x d st = (case st of None \<Rightarrow> False | Some s \<Rightarrow> st_structural_hash s = structural_hash x d)"

definition update ::
    "ext \<Rightarrow> edge_node_id \<Rightarrow> pipeline_definition \<Rightarrow> input_time \<Rightarrow> series_start option engine_act" where
  "update x node d now =
     andThen (mapErr EValidation (liftR (validate d))) (\<lambda>_.
     andThen (require_definition x (pd_id d)) (\<lambda>existing.
     if pd_kind existing \<noteq> pd_kind d then throw KindChanged
     else andThen (mapErr EStore (update_definition x d (uptime_ms now))) (\<lambda>_.
          andThen (mapErr EStore (get_state x (pd_id d))) (\<lambda>state.
          if continues x d state then ret None
          else andThen (start_series x node d now) (\<lambda>ss. ret (Some ss))))))"

definition delete :: "ext \<Rightarrow> edge_node_id \<Rightarrow> pipeline_id \<Rightarrow> input_time \<Rightarrow> unit engine_act" where
  "delete x node i now =
     andThen (require_definition x i) (\<lambda>d.
     andThen (mapErr EStore (delete_definition x i)) (\<lambda>_.
     enqueue_deletion x node d now))"

definition reset :: "ext \<Rightarrow> edge_node_id \<Rightarrow> pipeline_id \<Rightarrow> input_time \<Rightarrow> series_start engine_act" where
  "reset x node i now =
     andThen (require_definition x i) (\<lambda>d. start_series x node d now)"

fun first_duplicate :: "pipeline_id list \<Rightarrow> pipeline_id list \<Rightarrow> pipeline_id option" where
  "first_duplicate seen [] = None"
| "first_duplicate seen (i # is) = (if i \<in> set seen then Some i else first_duplicate (i # seen) is)"

fun validate_all :: "pipeline_definition list \<Rightarrow> validation_error + unit" where
  "validate_all [] = Inr ()"
| "validate_all (d # ds) = (case validate d of Inl e \<Rightarrow> Inl e | Inr _ \<Rightarrow> validate_all ds)"

definition import_definitions ::
    "ext \<Rightarrow> edge_node_id \<Rightarrow> pipeline_definition list \<Rightarrow> input_time \<Rightarrow> series_start list engine_act" where
  "import_definitions x node ds now =
     andThen (mapErr EValidation (liftR (validate_all ds))) (\<lambda>_.
     case first_duplicate [] (map pd_id ds) of
       Some i \<Rightarrow> throw (EValidation (ValidationError (''duplicate pipeline id '' @ pipeline_id_str i)))
     | None \<Rightarrow>
         andThen (mapErr EStore (list_definitions x)) (\<lambda>existing.
         andThen (forA existing (\<lambda>e.
             andThen (mapErr EStore (delete_definition x (pd_id e))) (\<lambda>_.
             if pd_id e \<notin> set (map pd_id ds) then enqueue_deletion x node e now else ret ()))) (\<lambda>_.
         forA ds (\<lambda>d. andThen (mapErr EStore (insert_definition x d (uptime_ms now))) (\<lambda>_.
             start_series x node d now)))))"

fun reconcile_all ::
    "ext \<Rightarrow> edge_node_id \<Rightarrow> input_time \<Rightarrow> pipeline_definition list \<Rightarrow> series_start list engine_act" where
  "reconcile_all x node now [] = ret []"
| "reconcile_all x node now (d # ds) =
     andThen (mapErr EStore (get_state x (pd_id d))) (\<lambda>state.
     if continues x d state then reconcile_all x node now ds
     else andThen (start_series x node d now) (\<lambda>ss.
          andThen (reconcile_all x node now ds) (\<lambda>rest. ret (ss # rest))))"

definition reconcile :: "ext \<Rightarrow> edge_node_id \<Rightarrow> input_time \<Rightarrow> series_start list engine_act" where
  "reconcile x node now =
     andThen (mapErr EStore (put_edge_node_id x node)) (\<lambda>_.
     andThen (mapErr EStore (list_definitions x)) (reconcile_all x node now))"

text \<open>No usable series yet: start one and read its state back.\<close>

definition restart_series ::
    "ext \<Rightarrow> edge_node_id \<Rightarrow> pipeline_definition \<Rightarrow> input_time \<Rightarrow> pipeline_state engine_act" where
  "restart_series x node d received_at =
     andThen (start_series x node d received_at) (\<lambda>_.
     andThen (mapErr EStore (get_state x (pd_id d))) (\<lambda>state.
     case state of None \<Rightarrow> throw (NotFound (pipeline_id_str (pd_id d))) | Some st \<Rightarrow> ret st))"

definition usable_state ::
    "ext \<Rightarrow> edge_node_id \<Rightarrow> pipeline_definition \<Rightarrow> input_time \<Rightarrow> pipeline_state engine_act" where
  "usable_state x node d received_at =
     andThen (mapErr EStore (get_state x (pd_id d))) (\<lambda>state.
     case state of
       Some st \<Rightarrow> if st_structural_hash st = structural_hash x d then ret st
                  else restart_series x node d received_at
     | None \<Rightarrow> restart_series x node d received_at)"

definition emitted_value :: "pipeline_definition \<Rightarrow> evaluation \<Rightarrow> observation_value option" where
  "emitted_value d r = (if \<not> emitted r then None else case pd_kind d of
     Measurement \<Rightarrow> map_option MeasurementV (number r)
   | State \<Rightarrow> map_option StateV (boolean r)
   | AccumulatedCount \<Rightarrow> map_option AccumulatedCountV (integer r))"

definition process ::
    "ext \<Rightarrow> edge_node_id \<Rightarrow> pipeline_definition \<Rightarrow> f64 \<Rightarrow> input_time \<Rightarrow> delivery_outcome engine_act" where
  "process x node d input received_at =
     andThen (usable_state x node d received_at) (\<lambda>st.
     andThen (mapErr EEvaluator (liftR (evaluate d (st_evaluation st) input (uptime_ms received_at))))
       (\<lambda>(r, next). let st1 = st\<lparr> st_evaluation := next \<rparr> in
     andThen (case emitted_value d r of
         None \<Rightarrow> ret (Silent, st1)
       | Some v \<Rightarrow> andThen (publish x node d st1 v received_at) (\<lambda>(ob, st2). ret (Published ob, st2)))
       (\<lambda>(outcome, st2).
     andThen (mapErr EStore (put_state x (pd_id d) st2 (uptime_ms received_at))) (\<lambda>_.
     ret outcome))))"

text \<open>The error of one pipeline is an outcome, unless it is a storage error.\<close>

definition isolate :: "'a engine_act \<Rightarrow> (engine_error + 'a) engine_act" where
  "isolate m s = (case m s of
     (Inl (ESqlite e), s') \<Rightarrow> (Inl (ESqlite e), s')
   | (Inl (EStore e), s') \<Rightarrow> (Inl (EStore e), s')
   | (r, s') \<Rightarrow> (Inr r, s'))"

definition deliver_one ::
    "ext \<Rightarrow> edge_node_id \<Rightarrow> accepted_reading \<Rightarrow> pipeline_definition \<Rightarrow> delivery_outcome engine_act" where
  "deliver_one x node reading d =
     (let i = in_value_index (pd_input d) in
      if i < length (ar_values reading)
      then process x node d (ar_values reading ! i) (ar_received_at reading)
      else throw (MissingValue i))"

definition deliver ::
    "ext \<Rightarrow> edge_node_id \<Rightarrow> accepted_reading \<Rightarrow>
     (pipeline_id \<times> (engine_error + delivery_outcome)) list engine_act" where
  "deliver x node reading =
     andThen (mapErr EStore (definitions_for_input x (ar_adapter reading) (ar_subject reading)
       (ar_measurement_key reading) (ar_channel_index reading))) (\<lambda>ds.
     forA ds (\<lambda>d. andThen (isolate (deliver_one x node reading d)) (\<lambda>r. ret (pd_id d, r))))"

end
