(* ===== verification/Engine_Series.thy ===== *)
theory Engine_Series
  imports Engine "HOL-Library.Sublist"
begin

text \<open>
  Series and sequences of the pipeline engine. The outbox is related to a log of publications:
  each row is the wire form of an observation or the clearing of a retained value. The invariant
  ties the log, the stored states and the generated series ids together; every method of the
  engine keeps it, so per series the published sequence numbers are 1, 2, 3, ... without gaps.
\<close>

section \<open>The publication log\<close>

datatype publication = Pub observation | Clear pipeline_id pipeline_kind

fun row_publishes :: "ext \<Rightarrow> edge_node_id \<Rightarrow> outbox_row \<Rightarrow> publication \<Rightarrow> bool" where
  "row_publishes x node r (Pub ob) \<longleftrightarrow>
     or_pipeline_id r = pipeline_id_str (ob_pipeline_id ob) \<and> or_topic r = topic_of node ob \<and>
     or_payload r = payload_of x ob \<and> or_retain r"
| "row_publishes x node r (Clear i k) \<longleftrightarrow>
     or_pipeline_id r = pipeline_id_str i \<and> or_topic r = observation_topic node i k \<and>
     or_payload r = [] \<and> or_retain r"

fun series_obs :: "string \<Rightarrow> publication list \<Rightarrow> observation list" where
  "series_obs sid [] = []"
| "series_obs sid (Pub ob # pubs) = (if ob_series_id ob = sid then ob # series_obs sid pubs else series_obs sid pubs)"
| "series_obs sid (Clear i k # pubs) = series_obs sid pubs"

text \<open>The sequence number the next publication of a series gets.\<close>

definition next_of :: "publication list \<Rightarrow> string \<Rightarrow> u64" where
  "next_of pubs sid = Suc (length (series_obs sid pubs)) mod 2 ^ 64"

definition seqs_ok :: "publication list \<Rightarrow> bool" where
  "seqs_ok pubs \<longleftrightarrow> (\<forall>sid. map ob_sequence (series_obs sid pubs) =
     map (\<lambda>i. i mod 2 ^ 64) [1 ..< Suc (length (series_obs sid pubs))])"

definition states_ok :: "ext \<Rightarrow> publication list \<Rightarrow> nat \<Rightarrow> state_row list \<Rightarrow> bool" where
  "states_ok x pubs n rows \<longleftrightarrow> distinct (map ps_pipeline_id rows) \<and> distinct (map ps_series_id rows) \<and>
     (\<forall>r\<in>set rows. i64_as_u64 (ps_next_sequence r) = next_of pubs (ps_series_id r) \<and>
        (\<exists>k<n. ps_series_id r = uuid_v7 x k))"

definition log_known :: "ext \<Rightarrow> publication list \<Rightarrow> nat \<Rightarrow> bool" where
  "log_known x pubs n \<longleftrightarrow> (\<forall>ob. Pub ob \<in> set pubs \<longrightarrow> (\<exists>k<n. ob_series_id ob = uuid_v7 x k))"

definition log_inv :: "ext \<Rightarrow> edge_node_id \<Rightarrow> publication list \<Rightarrow> node \<Rightarrow> bool" where
  "log_inv x node pubs s \<longleftrightarrow>
     list_all2 (row_publishes x node) (observation_outbox_t (tables s)) pubs \<and> seqs_ok pubs \<and>
     states_ok x pubs (uuid_calls s) (pipeline_state_t (tables s)) \<and> log_known x pubs (uuid_calls s)"

definition logged :: "ext \<Rightarrow> edge_node_id \<Rightarrow> node \<Rightarrow> bool" where
  "logged x node s \<longleftrightarrow> (\<exists>pubs. log_inv x node pubs s)"

section \<open>Facts on logs\<close>

lemma series_obs_append [simp]: "series_obs sid (a @ b) = series_obs sid a @ series_obs sid b"
  by (induction sid a rule: series_obs.induct) auto

lemma series_obs_unknown: "log_known x pubs n \<Longrightarrow> inj (uuid_v7 x) \<Longrightarrow> series_obs (uuid_v7 x n) pubs = []"
proof (induction pubs)
  case (Cons p pubs)
  then have "series_obs (uuid_v7 x n) pubs = []" by (simp add: log_known_def)
  moreover have "ob_series_id ob \<noteq> uuid_v7 x n" if "p = Pub ob" for ob
    using Cons.prems that by (auto simp: log_known_def inj_eq)
  ultimately show ?case by (cases p) auto
qed simp

lemma seqs_ok_clear: "seqs_ok pubs \<Longrightarrow> seqs_ok (pubs @ [Clear i k])"
  by (simp add: seqs_ok_def)

lemma seqs_ok_pub: "seqs_ok pubs \<Longrightarrow> ob_sequence ob = next_of pubs (ob_series_id ob) \<Longrightarrow> seqs_ok (pubs @ [Pub ob])"
  by (simp add: seqs_ok_def next_of_def del: upt_Suc) (auto simp: upt_Suc_append simp del: upt_Suc)

lemma next_of_clear [simp]: "next_of (pubs @ [Clear i k]) sid = next_of pubs sid"
  by (simp add: next_of_def)

lemma next_of_pub: "next_of (pubs @ [Pub ob]) sid =
    (if ob_series_id ob = sid then (next_of pubs sid + 1) mod 2 ^ 64 else next_of pubs sid)"
  by (simp add: next_of_def mod_Suc_eq)

lemma log_known_mono: "log_known x pubs n \<Longrightarrow> n \<le> m \<Longrightarrow> log_known x pubs m"
  unfolding log_known_def by (meson order_less_le_trans)

lemma log_known_snoc: "log_known x pubs n \<Longrightarrow> \<exists>k<n. ob_series_id ob = uuid_v7 x k \<Longrightarrow>
    log_known x (pubs @ [Pub ob]) n"
  by (auto simp: log_known_def)

lemma states_ok_upsert:
  assumes ok: "states_ok x pubs n rows" and "n \<le> m"
    and new: "i64_as_u64 (ps_next_sequence new) = next_of pubs' (ps_series_id new)"
      "\<exists>k<m. ps_series_id new = uuid_v7 x k"
    and other: "\<And>r. r \<in> set rows \<Longrightarrow> ps_pipeline_id r \<noteq> ps_pipeline_id new \<Longrightarrow>
      ps_series_id r \<noteq> ps_series_id new \<and> next_of pubs' (ps_series_id r) = next_of pubs (ps_series_id r)"
  shows "states_ok x pubs' m (upsert ps_pipeline_id new rows)"
proof -
  have "\<exists>k<m. ps_series_id r = uuid_v7 x k" if "r \<in> set rows" for r
    using ok that \<open>n \<le> m\<close> by (force simp: states_ok_def)
  then show ?thesis using ok new other
    by (auto simp: states_ok_def set_upsert distinct_upsert intro!: distinct_upsert_other)
qed

lemma states_ok_mono: "states_ok x pubs n rows \<Longrightarrow> n \<le> m \<Longrightarrow> states_ok x pubs m rows"
  by (force simp: states_ok_def)

lemma states_ok_filter: "states_ok x pubs n rows \<Longrightarrow> states_ok x pubs n (filter p rows)"
  by (auto simp: states_ok_def distinct_map_filter)

lemma i64_as_u64_bound [simp]: "i64_as_u64 z < 2 ^ 64"
  using unsigned_less [of "of_int z :: 64 word"] by (simp add: i64_as_u64_def)

lemma log_inv_step [simp]: "log_inv x node pubs (s\<lparr> sql_step := n \<rparr>) = log_inv x node pubs s"
  by (simp add: log_inv_def)

lemma logged_step [simp]: "logged x node (s\<lparr> sql_step := n \<rparr>) = logged x node s"
  by (simp add: logged_def)

section \<open>Effects of the engine's building blocks\<close>

text \<open>The storage errors, which make the caller roll the transaction back.\<close>

fun storage_error :: "engine_error \<Rightarrow> bool" where
  "storage_error (EStore _) = True"
| "storage_error (ESqlite _) = True"
| "storage_error _ = False"

definition observe :: "pipeline_definition \<Rightarrow> pipeline_state \<Rightarrow> observation_value \<Rightarrow> input_time \<Rightarrow> observation" where
  "observe d st v when = \<lparr> ob_pipeline_id = pd_id d, ob_series_id = st_series_id st,
     ob_sequence = st_next_sequence st, ob_at = when, ob_value = v \<rparr>"

definition advance :: "pipeline_state \<Rightarrow> observation_value \<Rightarrow> input_time \<Rightarrow> pipeline_state" where
  "advance st v when = st\<lparr> st_next_sequence := (st_next_sequence st + 1) mod 2 ^ 64,
     st_last_value := Some v, st_last_published_at := Some when \<rparr>"

definition push_row :: "outbox_row \<Rightarrow> tables \<Rightarrow> tables" where
  "push_row r t = t\<lparr> outbox_autoinc := outbox_seq r, observation_outbox_t := observation_outbox_t t @ [r] \<rparr>"

definition pub_row :: "ext \<Rightarrow> edge_node_id \<Rightarrow> observation \<Rightarrow> tables \<Rightarrow> outbox_row" where
  "pub_row x node ob t = outbox_row_of (ob_pipeline_id ob) (topic_of node ob) (payload_of x ob) True
     (ob_at ob) (outbox_autoinc t + 1)"

lemma publish_Inr:
  assumes "publish x node d st v when s = (Inr (ob, st'), s')"
  shows "ob = observe d st v when" "st' = advance st v when"
    "tables s' = push_row (pub_row x node ob (tables s)) (tables s)" "uuid_calls s' = uuid_calls s"
  using assms
  by (auto simp: publish_def observe_def advance_def enqueue_def add_row_def push_row_def pub_row_def outbox_row_of_def
      andThen_eq_Inr execute_Inr Let_def)

lemma publish_Inl: "publish x node d st v when s = (Inl e, s') \<Longrightarrow> storage_error e"
  by (auto simp: publish_def andThen_eq_Inl mapErr_eq_Inl Let_def)

lemma put_state_Inr:
  assumes "put_state x i st now s = (Inr u, s')"
  shows "tables s' = (tables s)\<lparr> pipeline_state_t :=
      upsert ps_pipeline_id (row_of_state x i st now) (pipeline_state_t (tables s)) \<rparr>"
    "uuid_calls s' = uuid_calls s" "pipeline_id_str i \<in> dr_pipeline_id ` set (pipeline_definition_t (tables s))"
  using assms by (auto simp: put_state_def sql_Inr split: if_splits) (metis imageI)

lemma start_series_Inr:
  assumes "start_series x node d now s = (Inr ss, s')"
  defines "st0 \<equiv> fresh_state x d (uuid_v7 x (uuid_calls s))"
  shows "uuid_calls s' = Suc (uuid_calls s) \<and> ss_pipeline_id ss = pd_id d \<and>
    ss_series_id ss = uuid_v7 x (uuid_calls s) \<and>
    pipeline_id_str (pd_id d) \<in> dr_pipeline_id ` set (pipeline_definition_t (tables s)) \<and>
    (if pd_kind d = AccumulatedCount then
       ss_published ss = Some (observe d st0 (AccumulatedCountV 0) now) \<and>
       tables s' = (push_row (pub_row x node (observe d st0 (AccumulatedCountV 0) now) (tables s)) (tables s))
         \<lparr> pipeline_state_t := upsert ps_pipeline_id
             (row_of_state x (pd_id d) (advance st0 (AccumulatedCountV 0) now) (uptime_ms now))
             (pipeline_state_t (tables s)) \<rparr>
     else ss_published ss = None \<and>
       tables s' = (tables s)\<lparr> pipeline_state_t := upsert ps_pipeline_id
             (row_of_state x (pd_id d) st0 (uptime_ms now)) (pipeline_state_t (tables s)) \<rparr>)"
proof -
  let ?s1 = "s\<lparr> uuid_calls := Suc (uuid_calls s) \<rparr>"
  obtain p st u s2 where mid: "(if pd_kind d = AccumulatedCount
        then andThen (publish x node d st0 (AccumulatedCountV 0) now) (\<lambda>(ob, st). ret (Some ob, st))
        else ret (None, st0)) ?s1 = (Inr (p, st), s2)"
      and put: "put_state x (pd_id d) st (uptime_ms now) s2 = (Inr u, s')"
      and ss: "ss = \<lparr> ss_pipeline_id = pd_id d, ss_series_id = st_series_id st, ss_published = p \<rparr>"
    using assms(1) unfolding st0_def
    by (auto simp: start_series_def now_v7_def andThen_eq_Inr Let_def split: prod.splits)
  show ?thesis
  proof (cases "pd_kind d = AccumulatedCount")
    case True
    then obtain ob where pub: "publish x node d st0 (AccumulatedCountV 0) now ?s1 = (Inr (ob, st), s2)"
        and p: "p = Some ob"
      using mid by (auto simp: andThen_eq_Inr split: prod.splits)
    show ?thesis using True ss p publish_Inr [OF pub] put_state_Inr [OF put]
      by (auto simp: push_row_def pub_row_def advance_def st0_def fresh_state_def)
  next
    case False
    then show ?thesis using mid ss put_state_Inr [OF put] by (auto simp: st0_def fresh_state_def)
  qed
qed

lemma start_series_Inl: "start_series x node d now s = (Inl e, s') \<Longrightarrow> storage_error e"
  by (auto simp: start_series_def now_v7_def andThen_eq_Inl mapErr_eq_Inl Let_def
      dest: publish_Inl split: if_splits prod.splits)

section \<open>Preservation\<close>

lemma row_publishes_pub_row: "row_publishes x node (pub_row x node ob t) (Pub ob)"
  by (simp add: pub_row_def outbox_row_of_def)

lemma row_of_state_fields [simp]:
  "ps_pipeline_id (row_of_state x i st now) = pipeline_id_str i"
  "ps_series_id (row_of_state x i st now) = st_series_id st"
  "ps_next_sequence (row_of_state x i st now) = u64_as_i64 (st_next_sequence st)"
  "ps_structural_hash (row_of_state x i st now) = st_structural_hash st"
  by (simp_all add: row_of_state_def)

lemma log_inv_start_series:
  assumes inv: "log_inv x node pubs s" and inj: "inj (uuid_v7 x)"
    and run: "start_series x node d now s = (Inr ss, s')"
  shows "logged x node s'"
proof -
  let ?n = "uuid_calls s" and ?rows = "pipeline_state_t (tables s)"
  let ?st = "fresh_state x d (uuid_v7 x ?n)"
  have known: "log_known x pubs ?n" and states: "states_ok x pubs ?n ?rows"
    using inv by (auto simp: log_inv_def)
  have none: "series_obs (uuid_v7 x ?n) pubs = []" by (rule series_obs_unknown [OF known inj])
  have other: "ps_series_id r \<noteq> uuid_v7 x ?n" if "r \<in> set ?rows" for r
    using states that inj by (auto simp: states_ok_def inj_eq)
  note eff = start_series_Inr [OF run]
  show ?thesis
  proof (cases "pd_kind d = AccumulatedCount")
    case True
    let ?v = "AccumulatedCountV 0"
    let ?ob = "observe d ?st ?v now"
    have "states_ok x (pubs @ [Pub ?ob]) (Suc ?n)
        (upsert ps_pipeline_id (row_of_state x (pd_id d) (advance ?st ?v now) (uptime_ms now)) ?rows)"
      using states by (rule states_ok_upsert)
        (auto simp: next_of_pub next_of_def none observe_def advance_def fresh_state_def
          u64_i64_roundtrip dest: other)
    moreover have "seqs_ok (pubs @ [Pub ?ob])"
      using inv by (intro seqs_ok_pub) (auto simp: log_inv_def next_of_def none observe_def fresh_state_def)
    moreover have "log_known x (pubs @ [Pub ?ob]) (Suc ?n)"
      using log_known_mono [OF known] by (intro log_known_snoc) (auto simp: observe_def fresh_state_def)
    ultimately have "log_inv x node (pubs @ [Pub ?ob]) s'"
      using True eff inv row_publishes_pub_row
      by (auto simp: log_inv_def push_row_def intro!: list_all2_appendI)
    then show ?thesis by (auto simp: logged_def)
  next
    case False
    have "states_ok x pubs (Suc ?n)
        (upsert ps_pipeline_id (row_of_state x (pd_id d) ?st (uptime_ms now)) ?rows)"
      using states by (rule states_ok_upsert)
        (auto simp: next_of_def none fresh_state_def u64_i64_roundtrip dest: other)
    then have "log_inv x node pubs s'"
      using False eff inv log_known_mono [OF known, of "Suc ?n"] by (auto simp: log_inv_def)
    then show ?thesis by (auto simp: logged_def)
  qed
qed

text \<open>A state read from the table is published and stored again under its own series.\<close>

definition holds_state :: "ext \<Rightarrow> edge_node_id \<Rightarrow> pipeline_id \<Rightarrow> pipeline_state \<Rightarrow> node \<Rightarrow> bool" where
  "holds_state x node i st s \<longleftrightarrow> logged x node s \<and>
     map_option (state_of_row x) (find_row (\<lambda>r. ps_pipeline_id r = pipeline_id_str i)
       (pipeline_state_t (tables s))) = Some st"

lemma holds_state_row:
  assumes "holds_state x node i st s"
  obtains pubs r where "log_inv x node pubs s" "r \<in> set (pipeline_state_t (tables s))"
    "ps_pipeline_id r = pipeline_id_str i" "st_series_id st = ps_series_id r"
    "st_next_sequence st = i64_as_u64 (ps_next_sequence r)"
  using assms
  by (auto simp: holds_state_def logged_def state_of_row_def dest!: find_row_Some)

lemma log_inv_restore:
  assumes inv: "log_inv x node pubs s" and r: "r \<in> set (pipeline_state_t (tables s))"
      "ps_pipeline_id r = pipeline_id_str i" "st_series_id st = ps_series_id r"
      "st_next_sequence st = next_of pubs' (ps_series_id r)"
    and pubs': "pubs' = pubs \<or> (\<exists>ob. pubs' = pubs @ [Pub ob] \<and> ob_series_id ob = ps_series_id r)"
  shows "states_ok x pubs' (uuid_calls s)
    (upsert ps_pipeline_id (row_of_state x i st now) (pipeline_state_t (tables s)))"
proof -
  let ?rows = "pipeline_state_t (tables s)"
  have states: "states_ok x pubs (uuid_calls s) ?rows" using inv by (simp add: log_inv_def)
  have other: "ps_series_id q \<noteq> ps_series_id r" if "q \<in> set ?rows" "ps_pipeline_id q \<noteq> ps_pipeline_id r" for q
    using states that r(1) by (auto simp: states_ok_def distinct_map inj_on_def)
  have bound: "next_of pubs' sid < 2 ^ 64" for sid by (simp add: next_of_def)
  have "next_of pubs' (ps_series_id q) = next_of pubs (ps_series_id q)"
    if "q \<in> set ?rows" "ps_pipeline_id q \<noteq> ps_pipeline_id r" for q
    using pubs' other [OF that] by (auto simp: next_of_pub)
  moreover have "\<exists>k<uuid_calls s. ps_series_id r = uuid_v7 x k" using states r by (auto simp: states_ok_def)
  ultimately show ?thesis
    using r other u64_i64_roundtrip [OF bound]
    by (intro states_ok_upsert [OF states order_refl]) simp_all
qed

lemma logged_select: "triple (logged x node) (mapErr g (select y f)) (\<lambda>_. logged x node) (\<lambda>_. logged x node)"
  by (intro triple_mapErr triple_select) simp_all

abbreviation "safe_error x node e s \<equiv> storage_error e \<or> logged x node s"

lemma triple_storage:
  "triple P m Q (\<lambda>_ _. True) \<Longrightarrow> triple P (mapErr EStore m) Q (\<lambda>e s. safe_error x node e s)"
  by (intro triple_mapErr) (auto elim: triple_conseq)

lemma logged_start_series:
  assumes "inj (uuid_v7 x)"
  shows "triple (logged x node) (start_series x node d now) (\<lambda>_. logged x node) (safe_error x node)"
proof (rule tripleI)
  show "logged x node s'" if "logged x node s" "start_series x node d now s = (Inr ss, s')" for s ss s'
    using that log_inv_start_series [OF _ assms] by (auto simp: logged_def [of x node s])
  show "safe_error x node e s'" if "start_series x node d now s = (Inl e, s')" for s e s'
    using start_series_Inl [OF that] by simp
qed

lemma get_state_triple:
  "triple (logged x node) (mapErr EStore (get_state x i))
     (\<lambda>st s. logged x node s \<and> (\<forall>st'. st = Some st' \<longrightarrow> holds_state x node i st' s)) (safe_error x node)"
  unfolding get_state_def
  by (intro triple_storage triple_mapErr triple_select) (auto simp: holds_state_def)

lemma restart_series_triple:
  assumes "inj (uuid_v7 x)"
  shows "triple (logged x node) (restart_series x node d now) (holds_state x node (pd_id d)) (safe_error x node)"
  unfolding restart_series_def
  by (intro triple_andThen [OF logged_start_series [OF assms]] triple_andThen [OF get_state_triple]
      triple_case_option triple_throw triple_ret) auto

lemma usable_state_triple:
  assumes "inj (uuid_v7 x)"
  shows "triple (logged x node) (usable_state x node d now) (holds_state x node (pd_id d)) (safe_error x node)"
  unfolding usable_state_def
  by (intro triple_andThen [OF get_state_triple] triple_case_option triple_If triple_ret
      triple_conseq [OF restart_series_triple [OF assms]]) auto

text \<open>The second half of \<^verbatim>\<open>process\<close>: publish if a value was emitted, and store the state.\<close>

lemma finish_process:
  assumes "holds_state x node (pd_id d) st s"
    and "(case v of None \<Rightarrow> ret (Silent, st1)
          | Some v \<Rightarrow> andThen (publish x node d st1 v now) (\<lambda>(ob, st2). ret (Published ob, st2))) s
         = (Inr (r, st2), s1)"
    and st1: "st1 = st\<lparr> st_evaluation := ev \<rparr>"
    and put: "put_state x (pd_id d) st2 when s1 = (Inr u, s2)"
  shows "logged x node s2"
proof -
  obtain pubs q where inv: "log_inv x node pubs s" and q: "q \<in> set (pipeline_state_t (tables s))"
      "ps_pipeline_id q = pipeline_id_str (pd_id d)" "st_series_id st = ps_series_id q"
      "st_next_sequence st = i64_as_u64 (ps_next_sequence q)"
    using holds_state_row [OF assms(1)] by blast
  have nxt: "st_next_sequence st = next_of pubs (ps_series_id q)" and "\<exists>k<uuid_calls s. ps_series_id q = uuid_v7 x k"
    using inv q by (auto simp: log_inv_def states_ok_def)
  note put = put_state_Inr [OF put]
  show ?thesis
  proof (cases v)
    case None
    then have "st2 = st1" "s1 = s" using assms(2) by auto
    moreover have "states_ok x pubs (uuid_calls s) (upsert ps_pipeline_id (row_of_state x (pd_id d) st1 when)
        (pipeline_state_t (tables s)))"
      using inv q nxt by (intro log_inv_restore) (auto simp: st1)
    ultimately show ?thesis using put inv by (auto simp: logged_def log_inv_def)
  next
    case (Some w)
    then obtain ob where pub: "publish x node d st1 w now s = (Inr (ob, st2), s1)"
      using assms(2) by (auto simp: andThen_eq_Inr split: prod.splits)
    note pub = publish_Inr [OF pub]
    have ob: "ob_series_id ob = ps_series_id q" "ob_sequence ob = next_of pubs (ps_series_id q)"
      using pub(1) q nxt by (auto simp: observe_def st1)
    have "states_ok x (pubs @ [Pub ob]) (uuid_calls s) (upsert ps_pipeline_id
        (row_of_state x (pd_id d) st2 when) (pipeline_state_t (tables s)))"
      by (rule log_inv_restore [OF inv q(1,2)])
        (use pub(2) q nxt ob in \<open>auto simp: advance_def st1 next_of_pub\<close>)
    moreover have "seqs_ok (pubs @ [Pub ob])" using inv ob by (intro seqs_ok_pub) (auto simp: log_inv_def)
    moreover have "log_known x (pubs @ [Pub ob]) (uuid_calls s)"
      using inv ob \<open>\<exists>k<uuid_calls s. _ k\<close> by (intro log_known_snoc) (auto simp: log_inv_def)
    ultimately have "log_inv x node (pubs @ [Pub ob]) s2"
      using put pub(3,4) inv row_publishes_pub_row
      by (auto simp: log_inv_def push_row_def intro!: list_all2_appendI)
    then show ?thesis by (auto simp: logged_def)
  qed
qed

lemma finish_process_triple:
  "triple (holds_state x node (pd_id d) st)
     (andThen (case v of None \<Rightarrow> ret (Silent, st\<lparr> st_evaluation := ev \<rparr>)
          | Some v \<Rightarrow> andThen (publish x node d (st\<lparr> st_evaluation := ev \<rparr>) v now)
              (\<lambda>(ob, st2). ret (Published ob, st2)))
       (\<lambda>(outcome, st2). andThen (mapErr EStore (put_state x (pd_id d) st2 (uptime_ms now))) (\<lambda>_. ret outcome)))
     (\<lambda>_. logged x node) (safe_error x node)" (is "triple ?P (andThen ?m ?f) _ _")
proof (rule tripleI)
  fix s a s' assume "?P s" "andThen ?m ?f s = (Inr a, s')"
  then show "logged x node s'"
    by (auto simp: andThen_eq_Inr split: prod.splits intro: finish_process [OF _ _ refl])
next
  fix s e s' assume "?P s" "andThen ?m ?f s = (Inl e, s')"
  then show "safe_error x node e s'"
    by (cases v) (auto simp: andThen_eq_Inl andThen_eq_Inr mapErr_eq_Inl dest: publish_Inl split: prod.splits)
qed

lemma process_triple:
  assumes "inj (uuid_v7 x)"
  shows "triple (logged x node) (process x node d input now) (\<lambda>_. logged x node) (safe_error x node)"
  unfolding process_def
proof (rule triple_andThen [OF usable_state_triple [OF assms]], rule triple_andThen)
  fix st
  show "triple (holds_state x node (pd_id d) st)
      (mapErr EEvaluator (liftR (evaluate d (st_evaluation st) input (uptime_ms now))))
      (\<lambda>_. holds_state x node (pd_id d) st) (safe_error x node)"
    by (intro triple_mapErr triple_liftR) (auto simp: holds_state_def)
qed (auto simp: Let_def split: prod.splits intro!: finish_process_triple)

lemma deliver_one_triple:
  assumes "inj (uuid_v7 x)"
  shows "triple (logged x node) (deliver_one x node reading d) (\<lambda>_. logged x node) (safe_error x node)"
  unfolding deliver_one_def Let_def by (intro triple_If process_triple [OF assms] triple_throw) simp

lemma isolate_triple:
  assumes "triple P m (\<lambda>_. P) (\<lambda>e s. storage_error e \<or> P s)"
  shows "triple P (isolate m) (\<lambda>_. P) (\<lambda>e s. storage_error e \<or> P s)"
proof (rule tripleI)
  fix s a s' assume s: "P s" and run: "isolate m s = (Inr a, s')"
  show "P s'"
  proof (cases "fst (m s)")
    case (Inl e)
    then show ?thesis using run s tripleD_Inl [OF assms, of s e s']
      by (cases "m s"; cases e) (auto simp: isolate_def)
  next
    case (Inr b)
    then show ?thesis using run s tripleD_Inr [OF assms, of s b s'] by (cases "m s") (auto simp: isolate_def)
  qed
next
  fix s e s' assume "P s" "isolate m s = (Inl e, s')"
  then show "storage_error e \<or> P s'"
    by (auto simp: isolate_def split: prod.splits sum.splits engine_error.splits)
qed

text \<open>Statements that leave the outbox alone and at most remove states keep the invariant.\<close>

lemma logged_sql:
  assumes "\<And>t a t'. f t = Inr (a, t') \<Longrightarrow> observation_outbox_t t' = observation_outbox_t t \<and>
      (\<exists>p. pipeline_state_t t' = filter p (pipeline_state_t t))"
  shows "triple (logged x node) (sql y f) (\<lambda>_. logged x node) (\<lambda>_. logged x node)"
proof (rule triple_sql)
  fix s a t assume "logged x node s" "f (tables s) = Inr (a, t)"
  then show "logged x node (s\<lparr> sql_step := Suc (sql_step s), tables := t \<rparr>)"
    using assms [of "tables s" a t] by (auto simp: logged_def log_inv_def) (meson states_ok_filter)
qed simp

lemma filter_True_ex: "\<exists>p. xs = filter p xs"
  by (rule exI [of _ "\<lambda>_. True"]) simp

lemma logged_definitions:
  "triple (logged x node) (insert_definition y d now) (\<lambda>_. logged x node) (\<lambda>_. logged x node)"
  "triple (logged x node) (update_definition y d now) (\<lambda>_. logged x node) (\<lambda>_. logged x node)"
  "triple (logged x node) (delete_definition y i) (\<lambda>_. logged x node) (\<lambda>_. logged x node)"
  "triple (logged x node) (put_edge_node_id y n) (\<lambda>_. logged x node) (\<lambda>_. logged x node)"
  "triple (logged x node) (get_definition y i) (\<lambda>_. logged x node) (\<lambda>_. logged x node)"
  "triple (logged x node) (list_definitions y) (\<lambda>_. logged x node) (\<lambda>_. logged x node)"
  "triple (logged x node) (definitions_for_input y a b c e) (\<lambda>_. logged x node) (\<lambda>_. logged x node)"
  unfolding insert_definition_def update_definition_def delete_definition_def put_edge_node_id_def
    execute_def get_definition_def list_definitions_def definitions_for_input_def Let_def
  by (intro triple_intros logged_sql logged_select; auto simp: filter_True_ex split: if_splits)+

lemma logged_enqueue_deletion:
  "triple (logged x node) (enqueue_deletion x node d now) (\<lambda>_. logged x node) (safe_error x node)"
proof -
  have "triple (logged x node) (enqueue x (pd_id d) (observation_topic node (pd_id d) (pd_kind d)) [] True now)
      (\<lambda>_. logged x node) (\<lambda>_ _. True)"
  proof (rule tripleI)
    fix s a s' assume "logged x node s"
      and run: "enqueue x (pd_id d) (observation_topic node (pd_id d) (pd_kind d)) [] True now s = (Inr a, s')"
    then obtain pubs where inv: "log_inv x node pubs s" by (auto simp: logged_def)
    have "log_inv x node (pubs @ [Clear (pd_id d) (pd_kind d)]) s'"
      using inv run by (auto simp: enqueue_def add_row_def execute_Inr Let_def log_inv_def outbox_row_of_def
          seqs_ok_clear states_ok_def log_known_def intro!: list_all2_appendI)
    then show "logged x node s'" by (auto simp: logged_def)
  qed simp
  then show ?thesis unfolding enqueue_deletion_def
    by (intro triple_andThen_inv triple_mapErr triple_ret) (auto elim: triple_conseq)
qed

text \<open>The storage errors of \<^verbatim>\<open>EngineError::Store\<close> lifted from the store's own triples.\<close>

lemma stored [triple_intros]:
  "triple P m (\<lambda>_. logged x node) (\<lambda>_. logged x node) \<Longrightarrow>
   triple P (mapErr EStore m) (\<lambda>_. logged x node) (safe_error x node)"
  by (intro triple_mapErr) (auto elim: triple_conseq)

lemma validated: "triple (logged x node) (mapErr EValidation (liftR r)) (\<lambda>_. logged x node) (safe_error x node)"
  by (intro triple_mapErr triple_liftR) auto

lemma get_state_logged:
  "triple (logged x node) (mapErr EStore (get_state y i)) (\<lambda>_. logged x node) (safe_error x node)"
  unfolding get_state_def by (intro stored logged_select)

lemmas engine_steps = triple_andThen_inv triple_If triple_case_option triple_ret triple_throw stored
  logged_definitions logged_enqueue_deletion validated get_state_logged triple_forA

lemma require_definition_triple:
  "triple (logged x node) (require_definition y i) (\<lambda>_. logged x node) (safe_error x node)"
  unfolding require_definition_def by (intro engine_steps) auto

lemma engine_triples:
  assumes "inj (uuid_v7 x)"
  shows "triple (logged x node) (create x node d now) (\<lambda>_. logged x node) (safe_error x node)"
    "triple (logged x node) (update x node d now) (\<lambda>_. logged x node) (safe_error x node)"
    "triple (logged x node) (delete x node i now) (\<lambda>_. logged x node) (safe_error x node)"
    "triple (logged x node) (reset x node i now) (\<lambda>_. logged x node) (safe_error x node)"
    "triple (logged x node) (import_definitions x node ds now) (\<lambda>_. logged x node) (safe_error x node)"
    "triple (logged x node) (deliver x node reading) (\<lambda>_. logged x node) (safe_error x node)"
  unfolding create_def update_def delete_def reset_def import_definitions_def deliver_def
  by (intro engine_steps require_definition_triple logged_start_series assms isolate_triple deliver_one_triple;
      simp)+

lemma reconcile_triple:
  assumes "inj (uuid_v7 x)"
  shows "triple (logged x node) (reconcile x node now) (\<lambda>_. logged x node) (safe_error x node)"
proof -
  have "triple (logged x node) (reconcile_all x node now ds) (\<lambda>_. logged x node) (safe_error x node)" for ds
    by (induction ds) (simp only: reconcile_all.simps, intro engine_steps logged_start_series assms; simp)+
  then show ?thesis unfolding reconcile_def by (intro engine_steps)
qed

section \<open>Runs of transactions\<close>

text \<open>The methods that a caller runs inside a transaction of its own.\<close>

datatype engine_op =
    OpCreate pipeline_definition input_time
  | OpUpdate pipeline_definition input_time
  | OpDelete pipeline_id input_time
  | OpReset pipeline_id input_time
  | OpImport "pipeline_definition list" input_time
  | OpReconcile input_time
  | OpDeliver accepted_reading

fun run_op :: "ext \<Rightarrow> edge_node_id \<Rightarrow> engine_op \<Rightarrow> unit engine_act" where
  "run_op x node (OpCreate d now) = andThen (create x node d now) (\<lambda>_. ret ())"
| "run_op x node (OpUpdate d now) = andThen (update x node d now) (\<lambda>_. ret ())"
| "run_op x node (OpDelete i now) = delete x node i now"
| "run_op x node (OpReset i now) = andThen (reset x node i now) (\<lambda>_. ret ())"
| "run_op x node (OpImport ds now) = andThen (import_definitions x node ds now) (\<lambda>_. ret ())"
| "run_op x node (OpReconcile now) = andThen (reconcile x node now) (\<lambda>_. ret ())"
| "run_op x node (OpDeliver reading) = andThen (deliver x node reading) (\<lambda>_. ret ())"

definition exec :: "ext \<Rightarrow> edge_node_id \<Rightarrow> engine_op \<Rightarrow> node \<Rightarrow> node" where
  "exec x node op s = snd (transaction x ESqlite (run_op x node op) s)"

lemma run_op_triple:
  assumes "inj (uuid_v7 x)"
  shows "triple (logged x node) (run_op x node op) (\<lambda>_. logged x node) (safe_error x node)"
  by (cases op) (simp_all only: run_op.simps,
    (intro triple_andThen_inv triple_ret engine_triples reconcile_triple assms; assumption?)+)

text \<open>
  A property of the node that every statement of the store keeps is kept by every operation of
  the engine, whether it succeeds or fails: the engine touches the database only through the
  store.
\<close>

locale store_invariant =
  fixes P :: "node \<Rightarrow> bool"
  assumes insert_definition: "\<And>y d now. triple P (insert_definition y d now) (\<lambda>_. P) (\<lambda>_. P)"
    and update_definition: "\<And>y d now. triple P (update_definition y d now) (\<lambda>_. P) (\<lambda>_. P)"
    and delete_definition: "\<And>y i. triple P (delete_definition y i) (\<lambda>_. P) (\<lambda>_. P)"
    and put_edge_node_id: "\<And>y k. triple P (put_edge_node_id y k) (\<lambda>_. P) (\<lambda>_. P)"
    and put_state: "\<And>y i st now. triple P (put_state y i st now) (\<lambda>_. P) (\<lambda>_. P)"
    and enqueue: "\<And>y i topic load r when. triple P (enqueue y i topic load r when) (\<lambda>_. P) (\<lambda>_. P)"
    and now_v7: "\<And>y. triple P (now_v7 y :: (node, engine_error, string) act) (\<lambda>_. P) (\<lambda>_. P)"
    and statement: "\<And>s. P s \<Longrightarrow> P (s\<lparr> sql_step := Suc (sql_step s) \<rparr>)"
begin

lemma inv_isolate: "triple P m (\<lambda>_. P) (\<lambda>_. P) \<Longrightarrow> triple P (isolate m) (\<lambda>_. P) (\<lambda>_. P)"
  by (auto simp: triple_def isolate_def split: prod.splits sum.splits engine_error.splits)

lemma inv_select: "triple P (select y g) (\<lambda>_. P) (\<lambda>_. P)"
  by (intro triple_select statement)

lemma inv_noop: "triple P (execute y (\<lambda>t. ((), t))) (\<lambda>_. P) (\<lambda>_. P)"
  using statement by (intro triple_execute) (simp_all del: node.update_defs)

lemmas inv_steps = triple_andThen_inv triple_If triple_case_option triple_case_prod triple_case_sum
  triple_ret triple_throw triple_mapErr triple_liftR triple_forA inv_isolate inv_select inv_noop
  insert_definition update_definition delete_definition put_edge_node_id put_state enqueue now_v7

lemma inv_reads:
  "triple P (get_definition y i) (\<lambda>_. P) (\<lambda>_. P)"
  "triple P (list_definitions y) (\<lambda>_. P) (\<lambda>_. P)"
  "triple P (definitions_for_input y a b c e) (\<lambda>_. P) (\<lambda>_. P)"
  "triple P (get_state y i) (\<lambda>_. P) (\<lambda>_. P)"
  unfolding get_definition_def list_definitions_def definitions_for_input_def get_state_def
  by (intro inv_steps; assumption)+

lemma inv_start:
  "triple P (publish y node d st v when) (\<lambda>_. P) (\<lambda>_. P)"
  "triple P (enqueue_deletion y node d when) (\<lambda>_. P) (\<lambda>_. P)"
  "triple P (require_definition y i) (\<lambda>_. P) (\<lambda>_. P)"
  unfolding publish_def enqueue_deletion_def require_definition_def Let_def
  by (intro inv_steps inv_reads; assumption)+

lemma inv_start_series: "triple P (start_series y node d now) (\<lambda>_. P) (\<lambda>_. P)"
  unfolding start_series_def Let_def by (intro inv_steps inv_reads inv_start; assumption)+

lemma inv_process: "triple P (process y node d input now) (\<lambda>_. P) (\<lambda>_. P)"
  unfolding process_def usable_state_def restart_series_def Let_def
  by (intro inv_steps inv_reads inv_start inv_start_series; assumption)+

lemma inv_reconcile_all: "triple P (reconcile_all y node now ds) (\<lambda>_. P) (\<lambda>_. P)"
  by (induction ds) (simp only: reconcile_all.simps,
    (intro inv_steps inv_reads inv_start_series; assumption)+)+

lemma inv_run_op: "triple P (run_op x node op) (\<lambda>_. P) (\<lambda>_. P)"
  by (cases op) (simp_all only: run_op.simps create_def update_def delete_def reset_def import_definitions_def
      reconcile_def deliver_def deliver_one_def Let_def,
    (intro inv_steps inv_reads inv_start inv_start_series inv_process inv_reconcile_all; assumption)+)

lemma inv_transaction_body:
  assumes "triple P m (\<lambda>_. P) (\<lambda>_. P)"
  shows "triple P (andThen (mapErr conv (execute x (\<lambda>t. ((), t)))) (\<lambda>_. andThen m (\<lambda>r.
      andThen (mapErr conv (execute x (\<lambda>t. ((), t)))) (\<lambda>_. ret r)))) (\<lambda>_. P) (\<lambda>_. P)"
  by (intro inv_steps assms; assumption?)

text \<open>A failed transaction restores the tables, and so any property of the tables at its start.\<close>

lemma inv_transaction:
  assumes "triple P m (\<lambda>_. P) (\<lambda>_. P)" "P s"
    and "\<And>s'. P s' \<Longrightarrow> P (s'\<lparr> tables := tables s \<rparr>)"
  shows "P (snd (transaction x conv m s))"
  using inv_transaction_body [OF assms(1), of conv x] assms(2,3)
  unfolding transaction_def triple_def
  by (drule_tac spec [of _ s]) (auto split: prod.splits sum.splits)

lemma inv_exec:
  assumes "P s" "\<And>s'. P s' \<Longrightarrow> P (s'\<lparr> tables := tables s \<rparr>)"
  shows "P (exec x node op s)"
  unfolding exec_def using inv_run_op assms by (rule inv_transaction)

end

text \<open>UUIDs are never given back, not even by a failed transaction.\<close>

definition uuids_from :: "nat \<Rightarrow> node \<Rightarrow> bool" where
  "uuids_from n s \<longleftrightarrow> n \<le> uuid_calls s"

interpretation uuids: store_invariant "uuids_from n" for n
  by unfold_locales
    (auto simp: insert_definition_def update_definition_def delete_definition_def put_edge_node_id_def
      put_state_def enqueue_def triple_mapErr uuids_from_def now_v7_def triple_def [of _ "now_v7 _"]
      intro!: triple_mapErr triple_sql triple_execute)

lemma uuids_exec: "uuid_calls s \<le> uuid_calls (exec x node op s)"
  using uuids.inv_exec [of "uuid_calls s" s] by (simp add: uuids_from_def)

text \<open>Every engine operation keeps the rows of the outbox and appends to them.\<close>

definition outbox_grown :: "outbox_row list \<Rightarrow> i64 \<Rightarrow> node \<Rightarrow> bool" where
  "outbox_grown rows low s \<longleftrightarrow> outbox_ok (tables s) \<and> low \<le> outbox_autoinc (tables s) \<and>
     (\<exists>new. observation_outbox_t (tables s) = rows @ new \<and> (\<forall>r\<in>set new. low < outbox_seq r))"

lemma grown_other [simp]:
  "observation_outbox_t t' = observation_outbox_t (tables s) \<Longrightarrow> outbox_autoinc t' = outbox_autoinc (tables s) \<Longrightarrow>
   outbox_grown rows low s \<Longrightarrow> outbox_grown rows low (s\<lparr> sql_step := n, tables := t' \<rparr>)"
  by (simp add: outbox_grown_def outbox_ok_def)

lemma grown_step [simp]: "outbox_grown rows low (s\<lparr> sql_step := n \<rparr>) = outbox_grown rows low s"
  by (simp add: outbox_grown_def)

lemma grown_add:
  assumes "outbox_grown rows low s" "\<And>n. outbox_seq (f n) = n"
  shows "outbox_grown rows low (s\<lparr> sql_step := m, tables := add_row f (tables s) \<rparr>)"
proof -
  obtain new where new: "observation_outbox_t (tables s) = rows @ new" "\<forall>r\<in>set new. low < outbox_seq r"
      "outbox_ok (tables s)" "low \<le> outbox_autoinc (tables s)"
    using assms(1) by (auto simp: outbox_grown_def)
  have "observation_outbox_t (add_row f (tables s)) = rows @ new @ [f (outbox_autoinc (tables s) + 1)]"
    using new(1) outbox_queue.rows_add [OF new(3)] by simp
  moreover have "outbox_ok (add_row f (tables s))" by (rule outbox_queue.ok_add [OF new(3) assms(2)])
  moreover have "low \<le> outbox_autoinc (add_row f (tables s))" using new(4) by (simp add: add_row_def)
  moreover have "\<forall>r\<in>set (new @ [f (outbox_autoinc (tables s) + 1)]). low < outbox_seq r" using new(2,4) assms(2) by auto
  ultimately show ?thesis unfolding outbox_grown_def by auto
qed

lemma grown_enqueue:
  "triple (outbox_grown rows low) (enqueue y i topic load r when) (\<lambda>_. outbox_grown rows low) (\<lambda>_. outbox_grown rows low)"
  unfolding enqueue_def by (intro triple_execute) (auto simp: outbox_row_of_def intro: grown_add)

interpretation growth: store_invariant "outbox_grown rows low" for rows low
  by unfold_locales
    (auto simp: insert_definition_def update_definition_def delete_definition_def put_edge_node_id_def
      put_state_def now_v7_def triple_def [of _ "now_v7 _"] outbox_grown_def [of _ _ "_\<lparr> uuid_calls := _ \<rparr>"]
      outbox_grown_def [symmetric] Let_def
      intro!: triple_mapErr triple_sql triple_execute grown_enqueue split: if_splits)

lemma exec_outbox:
  assumes "outbox_ok (tables s)"
  shows "outbox_ok (tables (exec x node op s)) \<and> outbox_autoinc (tables s) \<le> outbox_autoinc (tables (exec x node op s)) \<and>
    (\<exists>new. observation_outbox_t (tables (exec x node op s)) = observation_outbox_t (tables s) @ new \<and>
      (\<forall>r\<in>set new. outbox_autoinc (tables s) < outbox_seq r))"
  using growth.inv_exec [of "observation_outbox_t (tables s)" "outbox_autoinc (tables s)" s] assms
  by (simp add: outbox_grown_def)

lemma logged_same_tables:
  assumes "logged x node s" "tables s' = tables s" "uuid_calls s \<le> uuid_calls s'"
  shows "logged x node s'"
  using assms by (auto simp: logged_def log_inv_def intro: states_ok_mono log_known_mono)

text \<open>Every transaction of the engine keeps the log, whether it commits or rolls back.\<close>

lemma logged_exec:
  assumes "inj (uuid_v7 x)" "logged x node s"
  shows "logged x node (exec x node op s)"
proof (cases "transaction x ESqlite (run_op x node op) s")
  case (Pair r s')
  show ?thesis
  proof (cases r)
    case (Inl e)
    then show ?thesis
      using Pair assms(2) transaction_rollback [of x ESqlite _ s e s']
        uuids_exec [of s x node op]
      by (auto simp: exec_def intro: logged_same_tables)
  next
    case (Inr u)
    have "transaction x ESqlite (run_op x node op) s = (Inr u, s')" using Pair Inr by simp
    then obtain s1 s2 where s1: "tables s1 = tables s" "uuid_calls s1 = uuid_calls s"
        and run: "run_op x node op s1 = (Inr u, s2)"
        and s2: "tables s' = tables s2" "uuid_calls s' = uuid_calls s2"
      by (rule transaction_commit)
    have "logged x node s1" using assms(2) s1 by (simp add: logged_same_tables)
    then have "logged x node s2" by (rule tripleD_Inr [OF run_op_triple [OF assms(1)] _ run])
    then have "logged x node s'" using s2 by (simp add: logged_same_tables)
    then show ?thesis using Pair by (simp add: exec_def)
  qed
qed

interpretation engine_runs: invariant_system "exec x node" "\<lambda>s. inj (uuid_v7 x) \<longrightarrow> logged x node s"
  for x node
  by unfold_locales (auto intro: logged_exec)

section \<open>Properties\<close>

lemma logged_empty: "tables s = empty_tables \<Longrightarrow> logged x node s"
  by (auto simp: logged_def log_inv_def empty_tables_def seqs_ok_def states_ok_def log_known_def
      intro!: exI [of _ "[]"])

text \<open>C11: Whatever operations run from an empty database, with statements failing anywhere and failed
  transactions rolled back, the outbox is a list of observations and retained-value clears in
  which every series counts 1, 2, 3, ... without a gap or a repetition (modulo the 64-bit
  sequence), and the stored next sequence of every pipeline continues its series.\<close>

theorem series_contiguous:
  fixes x :: ext and node :: edge_node_id and ops :: "engine_op list" and s :: node
  assumes "inj (uuid_v7 x)" "tables s = empty_tables"
  defines "t \<equiv> tables (fold (exec x node) ops s)"
  shows "\<exists>pubs. list_all2 (row_publishes x node) (observation_outbox_t t) pubs \<and>
     (\<forall>sid. map ob_sequence (series_obs sid pubs) =
        map (\<lambda>i. i mod 2 ^ 64) [1 ..< Suc (length (series_obs sid pubs))]) \<and>
     (\<forall>r\<in>set (pipeline_state_t t). i64_as_u64 (ps_next_sequence r) =
        Suc (length (series_obs (ps_series_id r) pubs)) mod 2 ^ 64)"
proof -
  have "logged x node (fold (exec x node) ops s)"
    using engine_runs.run_inv [of x node s ops] assms(1) logged_empty [OF assms(2)] by blast
  then show ?thesis
    unfolding logged_def log_inv_def seqs_ok_def states_ok_def next_of_def t_def by blast
qed

definition demo_node :: node where
  "demo_node = \<lparr> tables = empty_tables, sql_step = 0, uuid_calls = 0, wall_reads = 0 \<rparr>"

definition demo_time :: "i64 \<Rightarrow> input_time" where
  "demo_time up = \<lparr> uptime_ms = up, unix_epoch_ms = None \<rparr>"

definition demo_reading :: "f64 \<Rightarrow> i64 \<Rightarrow> accepted_reading" where
  "demo_reading v up = \<lparr> ar_adapter = ''http'', ar_subject = None, ar_measurement_key = ''level'',
     ar_channel_index = None, ar_values = [v], ar_received_at = demo_time up \<rparr>"

definition demo_ops :: "engine_op list" where
  "demo_ops = [OpCreate demo_count (demo_time 0), OpDeliver (demo_reading (Fin 0) 10),
     OpDeliver (demo_reading (Fin 12) 20), OpReset (PipelineId ''count'') (demo_time 30)]"

lemma demo_uuid_inj: "inj (uuid_v7 demo_ext)"
  by (rule inj_on_inverseI [where g = dec_val]) (simp add: uuid_v7_def demo_ext_def dec_val_zeros dec_val_dec_nat)

theorem series_contiguous_witness:
  "length (observation_outbox_t (tables (fold (exec demo_ext (EdgeNodeId ''node-1'')) demo_ops demo_node))) = 3 \<and>
   (\<exists>pubs. list_all2 (row_publishes demo_ext (EdgeNodeId ''node-1''))
      (observation_outbox_t (tables (fold (exec demo_ext (EdgeNodeId ''node-1'')) demo_ops demo_node))) pubs \<and>
    (\<forall>sid. map ob_sequence (series_obs sid pubs) =
        map (\<lambda>i. i mod 2 ^ 64) [1 ..< Suc (length (series_obs sid pubs))]))"
proof
  have empty: "tables demo_node = empty_tables" by (simp add: demo_node_def)
  show "length (observation_outbox_t (tables (fold (exec demo_ext (EdgeNodeId ''node-1'')) demo_ops demo_node))) = 3"
    by code_simp
  show "\<exists>pubs. list_all2 (row_publishes demo_ext (EdgeNodeId ''node-1''))
      (observation_outbox_t (tables (fold (exec demo_ext (EdgeNodeId ''node-1'')) demo_ops demo_node))) pubs \<and>
    (\<forall>sid. map ob_sequence (series_obs sid pubs) =
        map (\<lambda>i. i mod 2 ^ 64) [1 ..< Suc (length (series_obs sid pubs))])"
    using series_contiguous [OF demo_uuid_inj empty] by blast
qed

end
