(* ===== verification/Engine_Effects.thy ===== *)
theory Engine_Effects
  imports Engine_Series
begin

text \<open>
  What the methods of the pipeline engine do to the tables, on success and on the errors a
  caller keeps: updates, resets, deletions, imports and the processing of one input.
\<close>

section \<open>Effects\<close>

definition state_at :: "ext \<Rightarrow> pipeline_id \<Rightarrow> tables \<Rightarrow> pipeline_state option" where
  "state_at x i t = map_option (state_of_row x)
     (find_row (\<lambda>r. ps_pipeline_id r = pipeline_id_str i) (pipeline_state_t t))"

definition definition_at :: "ext \<Rightarrow> pipeline_id \<Rightarrow> tables \<Rightarrow> pipeline_definition option" where
  "definition_at x i t = (case find_row (\<lambda>r. dr_pipeline_id r = pipeline_id_str i) (pipeline_definition_t t) of
     None \<Rightarrow> None
   | Some r \<Rightarrow> (case definition_parse x (dr_definition_json r) of Inl _ \<Rightarrow> None | Inr d \<Rightarrow> Some d))"

lemma get_state_eff:
  "get_state x i s = (r, s') \<Longrightarrow> tables s' = tables s \<and> uuid_calls s' = uuid_calls s \<and>
     (\<forall>st. r = Inr st \<longrightarrow> st = state_at x i (tables s))"
  by (cases r) (auto simp: get_state_def state_at_def mapErr_eq_Inl select_Inr dest: select_tables)

lemma get_definition_eff:
  "get_definition x i s = (r, s') \<Longrightarrow> tables s' = tables s \<and> uuid_calls s' = uuid_calls s \<and>
     (\<forall>d. r = Inr d \<longrightarrow> d = definition_at x i (tables s) \<and>
        (d = None \<longrightarrow> pipeline_id_str i \<notin> dr_pipeline_id ` set (pipeline_definition_t (tables s))))"
  by (cases r) (auto simp: get_definition_def definition_at_def decode_definition_def andThen_eq_Inr
      andThen_eq_Inl mapErr_eq_Inl select_Inr dest: select_tables
      split: option.splits sum.splits, auto simp: find_row_None)

lemma require_definition_eff:
  "require_definition x i s = (Inr d, s') \<Longrightarrow> tables s' = tables s \<and> uuid_calls s' = uuid_calls s \<and>
     definition_at x i (tables s) = Some d"
  by (auto simp: require_definition_def andThen_eq_Inr split: option.splits dest!: get_definition_eff)

lemma update_definition_eff:
  "update_definition x d now s = (Inr b, s') \<Longrightarrow>
     pipeline_state_t (tables s') = pipeline_state_t (tables s) \<and>
     observation_outbox_t (tables s') = observation_outbox_t (tables s) \<and>
     outbox_autoinc (tables s') = outbox_autoinc (tables s) \<and> uuid_calls s' = uuid_calls s"
  by (auto simp: update_definition_def execute_Inr Let_def)

lemma state_at_cong: "pipeline_state_t t = pipeline_state_t t' \<Longrightarrow> state_at x i t = state_at x i t'"
  by (simp add: state_at_def)

lemma enqueue_deletion_eff:
  "enqueue_deletion x node d now s = (Inr u, s') \<Longrightarrow>
   tables s' = push_row (outbox_row_of (pd_id d) (observation_topic node (pd_id d) (pd_kind d)) [] True now
     (outbox_autoinc (tables s) + 1)) (tables s) \<and> uuid_calls s' = uuid_calls s"
  by (auto simp: enqueue_deletion_def andThen_eq_Inr enqueue_def add_row_def execute_Inr Let_def push_row_def outbox_row_of_def)

lemma delete_definition_eff:
  "delete_definition x i s = (Inr b, s') \<Longrightarrow>
     pipeline_definition_t (tables s') =
       filter (\<lambda>r. dr_pipeline_id r \<noteq> pipeline_id_str i) (pipeline_definition_t (tables s)) \<and>
     pipeline_state_t (tables s') = filter (\<lambda>r. ps_pipeline_id r \<noteq> pipeline_id_str i \<or>
         pipeline_id_str i \<notin> dr_pipeline_id ` set (pipeline_definition_t (tables s))) (pipeline_state_t (tables s)) \<and>
     observation_outbox_t (tables s') = observation_outbox_t (tables s) \<and>
     outbox_autoinc (tables s') = outbox_autoinc (tables s) \<and> uuid_calls s' = uuid_calls s"
  by (auto simp: delete_definition_def execute_Inr Let_def image_iff intro!: filter_cong)

text \<open>The stored state after a series start reads back as the started state.\<close>

lemma state_at_upsert:
  "state_at x i (t\<lparr> pipeline_state_t := upsert ps_pipeline_id (row_of_state x j st now) rows \<rparr>) =
     (if i = j then Some (state_of_row x (row_of_state x j st now))
      else state_at x i (t\<lparr> pipeline_state_t := rows \<rparr>))"
  by (auto simp: state_at_def find_row_upsert)

lemma stored_state_fields [simp]:
  "st_series_id (state_of_row x (row_of_state x i st now)) = st_series_id st"
  "st_structural_hash (state_of_row x (row_of_state x i st now)) = st_structural_hash st"
  "st_evaluation (state_of_row x (row_of_state x i st now)) = st_evaluation st"
  "st_next_sequence st < 2 ^ 64 \<Longrightarrow>
     st_next_sequence (state_of_row x (row_of_state x i st now)) = st_next_sequence st"
  by (simp_all add: state_of_row_def row_of_state_def u64_i64_roundtrip)

text \<open>A started series: fresh state, next sequence after what it published, definitions kept.\<close>

lemma start_series_eff:
  assumes "start_series x node d now s = (Inr ss, s')"
  defines "sid \<equiv> uuid_v7 x (uuid_calls s)"
  obtains st where "state_at x (pd_id d) (tables s') = Some st" "st_series_id st = sid"
    "st_structural_hash st = structural_hash x d" "st_evaluation st = default_evaluation_state"
    "st_next_sequence st = (if pd_kind d = AccumulatedCount then 2 else 1)"
    "ss_pipeline_id ss = pd_id d" "ss_series_id ss = sid"
    "pipeline_definition_t (tables s') = pipeline_definition_t (tables s)"
    "uuid_calls s' = Suc (uuid_calls s)"
    "ss_published ss = (if pd_kind d = AccumulatedCount
       then Some (observe d (fresh_state x d sid) (AccumulatedCountV 0) now) else None)"
    "observation_outbox_t (tables s') = observation_outbox_t (tables s) @
       (case ss_published ss of None \<Rightarrow> [] | Some ob \<Rightarrow> [pub_row x node ob (tables s)])"
proof -
  note eff = start_series_Inr [OF assms(1)]
  show ?thesis
  proof (cases "pd_kind d = AccumulatedCount")
    case True
    then show ?thesis
      using eff by (intro that [OF _ _ _ _ _ _ _ _ _ _ _ ])
        (auto simp: state_at_upsert sid_def push_row_def fresh_state_def advance_def)
  next
    case False
    then show ?thesis
      using eff by (intro that) (auto simp: state_at_upsert sid_def fresh_state_def)
  qed
qed

section \<open>A concrete database\<close>

definition demo_id :: edge_node_id where
  "demo_id = EdgeNodeId ''node-1''"

text \<open>A count whose baseline input was seen, and a state pipeline without a stored state.\<close>

definition demo_count_state :: pipeline_state where
  "demo_count_state = (fresh_state demo_ext demo_count ''series-0'')\<lparr> st_next_sequence := 2,
     st_evaluation := default_evaluation_state\<lparr> initialized := True \<rparr> \<rparr>"

definition demo_db :: node where
  "demo_db = \<lparr> tables = empty_tables\<lparr>
       pipeline_definition_t := [definition_row_of demo_ext demo_count 0, definition_row_of demo_ext demo_state 0],
       pipeline_state_t := [row_of_state demo_ext (PipelineId ''count'') demo_count_state 10] \<rparr>,
     sql_step = 0, uuid_calls = 1, wall_reads = 0 \<rparr>"

lemma demo_definition: "definition_at demo_ext (PipelineId ''count'') (tables demo_db) = Some demo_count"
  by code_simp

section \<open>Properties\<close>

text \<open>C14: Editing a pipeline starts a new series exactly when the structural hash of the stored series
  differs from the new definition's. A tuning edit leaves the state and the outbox alone; a
  structural edit (or a missing state) installs a fresh evaluation state under a new series id.\<close>

theorem update_series:
  assumes "update x node d now s = (Inr r, s')"
  shows "if continues x d (state_at x (pd_id d) (tables s))
    then r = None \<and> pipeline_state_t (tables s') = pipeline_state_t (tables s) \<and>
         observation_outbox_t (tables s') = observation_outbox_t (tables s)
    else (\<exists>ss st. r = Some ss \<and> ss_series_id ss = uuid_v7 x (uuid_calls s) \<and>
         state_at x (pd_id d) (tables s') = Some st \<and> st_series_id st = uuid_v7 x (uuid_calls s) \<and>
         st_structural_hash st = structural_hash x d \<and> st_evaluation st = default_evaluation_state)"
proof -
  obtain e s1 b s2 st0 s3 where req: "require_definition x (pd_id d) s = (Inr e, s1)"
      and upd: "update_definition x d (uptime_ms now) s1 = (Inr b, s2)"
      and get: "get_state x (pd_id d) s2 = (Inr st0, s3)"
      and rest: "(if continues x d st0 then ret None
          else andThen (start_series x node d now) (\<lambda>ss. ret (Some ss))) s3 = (Inr r, s')"
    using assms by (auto simp: update_def andThen_eq_Inr split: if_splits)
  note eff = require_definition_eff [OF req] update_definition_eff [OF upd] get_state_eff [OF get]
  have st0: "st0 = state_at x (pd_id d) (tables s)"
    using eff state_at_cong [of "tables s2" "tables s"] by simp
  show ?thesis
  proof (cases "continues x d st0")
    case True
    then show ?thesis using rest eff st0 by auto
  next
    case False
    then obtain ss where start: "start_series x node d now s3 = (Inr ss, s')" and r: "r = Some ss"
      using rest by (auto simp: andThen_eq_Inr)
    have u: "uuid_calls s3 = uuid_calls s" using eff by simp
    show ?thesis using start
      by (rule start_series_eff) (use False st0 r u in auto)
  qed
qed

theorem update_series_witness:
  "\<exists>s'. update demo_ext demo_id (demo_count\<lparr> pd_display_name := Some ''parts'' \<rparr>) (demo_time 20) demo_db = (Inr None, s') \<and>
     pipeline_state_t (tables s') = pipeline_state_t (tables demo_db)"
proof -
  let ?m = "update demo_ext demo_id (demo_count\<lparr> pd_display_name := Some ''parts'' \<rparr>) (demo_time 20)"
  have "fst (?m demo_db) = Inr None" by code_simp
  then obtain s' where run: "?m demo_db = (Inr None, s')" by (metis prod.collapse)
  show ?thesis using update_series [OF run] run by (auto split: if_splits)
qed

text \<open>C15: A reset starts a new series with cleared evaluation state; an accumulated count publishes
  sequence 1 with value 0 under the new series at once, other kinds publish nothing.\<close>

theorem reset_restarts:
  assumes "reset x node i now s = (Inr ss, s')" "definition_at x i (tables s) = Some d"
  shows "ss_series_id ss = uuid_v7 x (uuid_calls s) \<and>
    (\<exists>st. state_at x (pd_id d) (tables s') = Some st \<and> st_series_id st = ss_series_id ss \<and>
       st_evaluation st = default_evaluation_state) \<and>
    (if pd_kind d = AccumulatedCount
     then \<exists>ob. ss_published ss = Some ob \<and> ob_sequence ob = 1 \<and> ob_value ob = AccumulatedCountV 0 \<and>
        ob_series_id ob = ss_series_id ss \<and>
        observation_outbox_t (tables s') = observation_outbox_t (tables s) @ [pub_row x node ob (tables s)]
     else ss_published ss = None \<and> observation_outbox_t (tables s') = observation_outbox_t (tables s))"
proof -
  obtain s1 where t1: "tables s1 = tables s" and u1: "uuid_calls s1 = uuid_calls s"
      and start: "start_series x node d now s1 = (Inr ss, s')"
    using assms by (auto simp: reset_def andThen_eq_Inr dest!: require_definition_eff)
  show ?thesis using start
    by (rule start_series_eff) (use t1 u1 in \<open>auto simp: observe_def fresh_state_def\<close>)
qed

theorem reset_restarts_witness:
  "\<exists>ss s' ob. reset demo_ext demo_id (PipelineId ''count'') (demo_time 20) demo_db = (Inr ss, s') \<and>
     ss_published ss = Some ob \<and> ob_sequence ob = 1 \<and> ob_value ob = AccumulatedCountV 0"
proof -
  have "\<not> isl (fst (reset demo_ext demo_id (PipelineId ''count'') (demo_time 20) demo_db))" by code_simp
  then obtain ss s' where run: "reset demo_ext demo_id (PipelineId ''count'') (demo_time 20) demo_db = (Inr ss, s')"
    by (blast dest: returned)
  show ?thesis using reset_restarts [OF run demo_definition] run by (simp add: demo_count_def) blast
qed

text \<open>C16: Deleting a pipeline removes its definition and its state and enqueues, as the last row of the
  outbox, a retained publication of zero length on the pipeline's observation topic.\<close>

theorem delete_clears:
  assumes "delete x node i now s = (Inr u, s')" "definition_at x i (tables s) = Some d"
  shows "pipeline_id_str i \<notin> dr_pipeline_id ` set (pipeline_definition_t (tables s')) \<and>
    state_at x i (tables s') = None \<and>
    (\<exists>r. observation_outbox_t (tables s') = observation_outbox_t (tables s) @ [r] \<and>
       or_topic r = observation_topic node (pd_id d) (pd_kind d) \<and> or_payload r = [] \<and> or_retain r)"
proof -
  obtain s1 b s2 where t1: "tables s1 = tables s"
      and del: "delete_definition x i s1 = (Inr b, s2)" and enq: "enqueue_deletion x node d now s2 = (Inr u, s')"
    using assms by (auto simp: delete_def andThen_eq_Inr dest!: require_definition_eff)
  have "\<exists>r\<in>set (pipeline_definition_t (tables s)). dr_pipeline_id r = pipeline_id_str i"
    using assms(2) by (auto simp: definition_at_def split: option.splits dest!: find_row_Some)
  then have "pipeline_id_str i \<in> dr_pipeline_id ` set (pipeline_definition_t (tables s))" by force
  then show ?thesis using delete_definition_eff [OF del] enqueue_deletion_eff [OF enq] t1
    by (auto simp: push_row_def outbox_row_of_def state_at_def find_row_None)
qed

theorem delete_clears_witness:
  "\<exists>u s'. delete demo_ext demo_id (PipelineId ''count'') (demo_time 20) demo_db = (Inr u, s') \<and>
     state_at demo_ext (PipelineId ''count'') (tables s') = None"
proof -
  have "\<not> isl (fst (delete demo_ext demo_id (PipelineId ''count'') (demo_time 20) demo_db))" by code_simp
  then obtain u s' where run: "delete demo_ext demo_id (PipelineId ''count'') (demo_time 20) demo_db = (Inr u, s')"
    by (blast dest: returned)
  show ?thesis using delete_clears [OF run demo_definition] run by blast
qed

section \<open>Processing one input\<close>

lemma push_row_fields [simp]:
  "pipeline_state_t (push_row r t) = pipeline_state_t t"
  "observation_outbox_t (push_row r t) = observation_outbox_t t @ [r]"
  "state_at x i (push_row r t) = state_at x i t"
  "state_at x i (t\<lparr> pipeline_state_t := pipeline_state_t u \<rparr>) = state_at x i u"
  by (simp_all add: push_row_def state_at_def)

definition usable :: "ext \<Rightarrow> pipeline_definition \<Rightarrow> pipeline_state \<Rightarrow> tables \<Rightarrow> bool" where
  "usable x d st t \<longleftrightarrow> state_at x (pd_id d) t = Some st \<and> st_structural_hash st = structural_hash x d"

lemma usable_state_run:
  assumes "usable x d st (tables s)" "get_state x (pd_id d) s = (Inr st0, s1)"
  shows "usable_state x node d now s = (Inr st, s1)" "tables s1 = tables s"
  using get_state_eff [OF assms(2)] assms by (auto simp: usable_state_def usable_def andThen_def mapErr_def)

lemma usable_state_eff:
  assumes "usable_state x node d now s = (Inr st', s')" "usable x d st (tables s)"
  shows "st' = st \<and> tables s' = tables s"
proof -
  obtain st0 s1 where get: "get_state x (pd_id d) s = (Inr st0, s1)"
    using assms(1) unfolding usable_state_def by (auto simp: andThen_eq_Inr)
  show ?thesis using usable_state_run [OF assms(2) get] assms(1) by simp
qed

lemma usable_state_evaluator:
  assumes "usable_state x node d now s = (Inl e, s')" "usable x d st (tables s)"
  shows "storage_error e"
proof (cases "get_state x (pd_id d) s")
  case (Pair r s1)
  then show ?thesis
    using assms(1) usable_state_run(1) [OF assms(2), of _ s1 node now]
    by (cases r) (auto simp: usable_state_def andThen_def mapErr_def)
qed

lemma state_at_bound: "state_at x i t = Some st \<Longrightarrow> st_next_sequence st < 2 ^ 64"
  using i64_as_u64_bound by (fastforce simp: state_at_def state_of_row_def)

text \<open>C12: Processing an input of a pipeline with a current series is exactly one evaluation: the stored
  evaluation state becomes the evaluator's, an emitted value is appended to the outbox as the next
  sequence number of the same series, a silent input leaves outbox and sequence alone, and no
  other pipeline's state is touched.\<close>

theorem process_spec:
  assumes "process x node d input now s = (Inr outcome, s')" "usable x d st (tables s)"
  shows "\<exists>r next st'. evaluate d (st_evaluation st) input (uptime_ms now) = Inr (r, next) \<and>
    state_at x (pd_id d) (tables s') = Some st' \<and> st_evaluation st' = next \<and>
    st_series_id st' = st_series_id st \<and>
    (\<forall>j. j \<noteq> pd_id d \<longrightarrow> state_at x j (tables s') = state_at x j (tables s)) \<and>
    (case emitted_value d r of
       None \<Rightarrow> outcome = Silent \<and> st_next_sequence st' = st_next_sequence st \<and>
         observation_outbox_t (tables s') = observation_outbox_t (tables s)
     | Some v \<Rightarrow> outcome = Published (observe d st v now) \<and>
         st_next_sequence st' = (st_next_sequence st + 1) mod 2 ^ 64 \<and>
         observation_outbox_t (tables s') = observation_outbox_t (tables s) @
           [pub_row x node (observe d st v now) (tables s)])"
proof -
  obtain r nxt s1 st2 s2 u where s1: "tables s1 = tables s"
      and ev: "evaluate d (st_evaluation st) input (uptime_ms now) = Inr (r, nxt)"
      and pub: "(case emitted_value d r of None \<Rightarrow> ret (Silent, st\<lparr> st_evaluation := nxt \<rparr>)
         | Some v \<Rightarrow> andThen (publish x node d (st\<lparr> st_evaluation := nxt \<rparr>) v now)
             (\<lambda>(ob, st2). ret (Published ob, st2))) s1 = (Inr (outcome, st2), s2)"
      and put: "put_state x (pd_id d) st2 (uptime_ms now) s2 = (Inr u, s')"
    using assms by (auto simp: process_def andThen_eq_Inr Let_def split: prod.splits dest!: usable_state_eff)
  have bound: "st_next_sequence st < 2 ^ 64" using assms(2) state_at_bound by (auto simp: usable_def)
  let ?st' = "state_of_row x (row_of_state x (pd_id d) st2 (uptime_ms now))"
  have state: "state_at x (pd_id d) (tables s') = Some ?st'"
    using put_state_Inr(1) [OF put] by (simp add: state_at_upsert)
  have "\<exists>st'. state_at x (pd_id d) (tables s') = Some st' \<and> st_evaluation st' = nxt \<and>
      st_series_id st' = st_series_id st \<and>
      (\<forall>j. j \<noteq> pd_id d \<longrightarrow> state_at x j (tables s') = state_at x j (tables s)) \<and>
      (case emitted_value d r of
         None \<Rightarrow> outcome = Silent \<and> st_next_sequence st' = st_next_sequence st \<and>
           observation_outbox_t (tables s') = observation_outbox_t (tables s)
       | Some v \<Rightarrow> outcome = Published (observe d st v now) \<and>
           st_next_sequence st' = (st_next_sequence st + 1) mod 2 ^ 64 \<and>
           observation_outbox_t (tables s') = observation_outbox_t (tables s) @
             [pub_row x node (observe d st v now) (tables s)])"
  proof (cases "emitted_value d r")
    case None
    then have "st2 = st\<lparr> st_evaluation := nxt \<rparr>" "s2 = s1" "outcome = Silent" using pub by auto
    then show ?thesis using None s1 state put_state_Inr(1) [OF put] bound
      by (intro exI [of _ ?st']) (simp add: state_at_upsert)
  next
    case (Some v)
    then obtain ob where p: "publish x node d (st\<lparr> st_evaluation := nxt \<rparr>) v now s1 = (Inr (ob, st2), s2)"
        and out: "outcome = Published ob"
      using pub by (auto simp: andThen_eq_Inr split: prod.splits)
    have ob: "ob = observe d st v now" using publish_Inr(1) [OF p] by (simp add: observe_def)
    show ?thesis
      using Some s1 state out ob publish_Inr(2,3) [OF p] put_state_Inr(1) [OF put]
      by (intro exI [of _ ?st']) (simp add: state_at_upsert advance_def)
  qed
  then show ?thesis using ev by blast
qed

lemma demo_usable: "\<exists>st. usable demo_ext demo_count st (tables demo_db)"
proof -
  have "case state_at demo_ext (pd_id demo_count) (tables demo_db) of None \<Rightarrow> False
      | Some st \<Rightarrow> st_structural_hash st = structural_hash demo_ext demo_count" by code_simp
  then show ?thesis by (auto simp: usable_def split: option.splits)
qed

theorem process_spec_witness:
  "\<exists>ob s'. process demo_ext demo_id demo_count (Fin 12) (demo_time 20) demo_db = (Inr (Published ob), s') \<and>
     length (observation_outbox_t (tables s')) = Suc (length (observation_outbox_t (tables demo_db)))"
proof -
  have "case fst (process demo_ext demo_id demo_count (Fin 12) (demo_time 20) demo_db) of
      Inr (Published ob) \<Rightarrow> True | _ \<Rightarrow> False" by code_simp
  then obtain ob s' where run: "process demo_ext demo_id demo_count (Fin 12) (demo_time 20) demo_db = (Inr (Published ob), s')"
    by (cases "process demo_ext demo_id demo_count (Fin 12) (demo_time 20) demo_db")
      (auto split: sum.splits delivery_outcome.splits)
  obtain st where "usable demo_ext demo_count st (tables demo_db)" using demo_usable by blast
  from process_spec [OF run this] run show ?thesis by (auto split: option.splits)
qed

text \<open>C13: An evaluator error of a pipeline with a current series (a non-finite input, the counter limit)
  changes no table, so the pipeline's state is left as it was.\<close>

theorem evaluator_error_keeps_state:
  assumes "process x node d input now s = (Inl (EEvaluator e), s')" "usable x d st (tables s)"
  shows "evaluate d (st_evaluation st) input (uptime_ms now) = Inl e \<and> tables s' = tables s"
proof -
  have no_storage: "\<not> storage_error (EEvaluator e)" by simp
  have "\<exists>s1. usable_state x node d now s = (Inr st, s1) \<and> tables s1 = tables s"
  proof (cases "usable_state x node d now s")
    case (Pair r s1)
    then show ?thesis
      using assms usable_state_evaluator [OF _ assms(2), of node now] usable_state_eff [OF _ assms(2)]
        no_storage
      by (cases r) (force simp: process_def andThen_def)+
  qed
  then obtain s1 where run: "usable_state x node d now s = (Inr st, s1)" "tables s1 = tables s" by blast
  show ?thesis
  proof (cases "evaluate d (st_evaluation st) input (uptime_ms now)")
    case (Inl f)
    then show ?thesis using assms(1) run by (auto simp: process_def andThen_def mapErr_def)
  next
    case (Inr p)
    obtain r nxt where "p = (r, nxt)" by force
    then have "storage_error (EEvaluator e)"
      using assms(1) run Inr
      by (cases "emitted_value d r")
        (auto simp: process_def Let_def andThen_Inr [where m = "usable_state x node d now", OF run(1)] andThen_eq_Inl andThen_eq_Inr mapErr_eq_Inl
          split: prod.splits dest: publish_Inl)
    then show ?thesis by simp
  qed
qed

theorem evaluator_error_keeps_state_witness:
  "\<exists>e s'. process demo_ext demo_id demo_count NaN (demo_time 20) demo_db = (Inl (EEvaluator e), s') \<and>
     tables s' = tables demo_db"
proof -
  have "fst (process demo_ext demo_id demo_count NaN (demo_time 20) demo_db) =
      Inl (EEvaluator (Invalid ''input must be finite''))" by code_simp
  then obtain s' where run: "process demo_ext demo_id demo_count NaN (demo_time 20) demo_db =
      (Inl (EEvaluator (Invalid ''input must be finite'')), s')" by (metis prod.collapse)
  obtain st where "usable demo_ext demo_count st (tables demo_db)" using demo_usable by blast
  from evaluator_error_keeps_state [OF run this] run show ?thesis by blast
qed

section \<open>Import\<close>

definition start_pubs :: "series_start \<Rightarrow> publication list" where
  "start_pubs ss = (case ss_published ss of None \<Rightarrow> [] | Some ob \<Rightarrow> [Pub ob])"

text \<open>Rows appended to the outbox, as publications.\<close>

definition appends :: "ext \<Rightarrow> edge_node_id \<Rightarrow> publication list \<Rightarrow> node \<Rightarrow> node \<Rightarrow> bool" where
  "appends x node pubs s s' \<longleftrightarrow> (\<exists>rows. observation_outbox_t (tables s') = observation_outbox_t (tables s) @ rows \<and>
     list_all2 (row_publishes x node) rows pubs)"

lemma appends_refl: "observation_outbox_t (tables s') = observation_outbox_t (tables s) \<Longrightarrow> appends x node [] s s'"
  by (simp add: appends_def)

lemma appends_trans: "appends x node p s s1 \<Longrightarrow> appends x node q s1 s' \<Longrightarrow> appends x node (p @ q) s s'"
  unfolding appends_def by (fastforce intro: list_all2_appendI)

lemma start_series_appends:
  "start_series x node d now s = (Inr ss, s') \<Longrightarrow> appends x node (start_pubs ss) s s'"
  by (erule start_series_eff) (auto simp: appends_def start_pubs_def pub_row_def outbox_row_of_def split: option.splits)

lemma import_clear_loop:
  assumes "forA es (\<lambda>e. andThen (mapErr EStore (delete_definition x (pd_id e))) (\<lambda>_.
      if pd_id e \<notin> ids then enqueue_deletion x node e now else ret ())) s = (Inr us, s')"
  shows "appends x node (map (\<lambda>e. Clear (pd_id e) (pd_kind e)) (filter (\<lambda>e. pd_id e \<notin> ids) es)) s s' \<and>
    uuid_calls s' = uuid_calls s"
  using assms
proof (induction es arbitrary: s us)
  case Nil
  then show ?case by (simp add: appends_refl)
next
  case (Cons e es)
  then obtain b s1 u s2 vs where del: "delete_definition x (pd_id e) s = (Inr b, s1)"
      and enq: "(if pd_id e \<notin> ids then enqueue_deletion x node e now else ret ()) s1 = (Inr u, s2)"
      and rest: "forA es (\<lambda>e. andThen (mapErr EStore (delete_definition x (pd_id e))) (\<lambda>_.
          if pd_id e \<notin> ids then enqueue_deletion x node e now else ret ())) s2 = (Inr vs, s')"
    by (auto simp: andThen_eq_Inr)
  have "appends x node (if pd_id e \<notin> ids then [Clear (pd_id e) (pd_kind e)] else []) s s2 \<and> uuid_calls s2 = uuid_calls s"
    using delete_definition_eff [OF del] enq
    by (auto simp: appends_def push_row_def outbox_row_of_def dest!: enqueue_deletion_eff split: if_splits)
  then show ?case using Cons.IH [OF rest] by (auto dest: appends_trans split: if_splits)
qed

lemma import_insert_loop:
  assumes "forA ds (\<lambda>d. andThen (mapErr EStore (insert_definition x d when)) (\<lambda>_. start_series x node d now)) s
      = (Inr started, s')"
  shows "appends x node (concat (map start_pubs started)) s s' \<and> map ss_pipeline_id started = map pd_id ds \<and>
    map ss_series_id started = map (uuid_v7 x) [uuid_calls s ..< uuid_calls s + length ds]"
  using assms
proof (induction ds arbitrary: s started)
  case Nil
  then show ?case by (simp add: appends_refl)
next
  case (Cons d ds)
  then obtain s1 ss s2 vs where ins: "insert_definition x d when s = (Inr (), s1)"
      and start: "start_series x node d now s1 = (Inr ss, s2)"
      and rest: "forA ds (\<lambda>d. andThen (mapErr EStore (insert_definition x d when)) (\<lambda>_. start_series x node d now)) s2
          = (Inr vs, s')" and st: "started = ss # vs"
    by (auto simp: andThen_eq_Inr)
  have 1: "appends x node [] s s1" "uuid_calls s1 = uuid_calls s"
    using ins by (auto simp: insert_definition_def sql_Inr appends_refl split: if_splits)
  have "appends x node (start_pubs ss) s s2"
    using appends_trans [OF 1(1) start_series_appends [OF start]] by simp
  moreover have "uuid_calls s2 = Suc (uuid_calls s)" "ss_pipeline_id ss = pd_id d"
      "ss_series_id ss = uuid_v7 x (uuid_calls s)"
    using start_series_Inr [OF start] 1 by auto
  ultimately show ?case using Cons.IH [OF rest] st
    by (auto simp: upt_conv_Cons intro: appends_trans simp del: upt_Suc)
qed

text \<open>C17: An import appends to the outbox first one retained-value clear per stored definition whose id is
  not imported, on that definition's topic, and then the series starts of the imported
  definitions; every imported pipeline gets a series id of its own. A definition that is
  re-imported under its id is not cleared, even when its kind, and with it its topic, changes.\<close>

theorem import_publications:
  assumes "import_definitions x node ds now s = (Inr started, s')"
    and "decode_all x (sort_key dr_pipeline_id (pipeline_definition_t (tables s))) = Inr es"
  shows "appends x node
      (map (\<lambda>e. Clear (pd_id e) (pd_kind e)) (filter (\<lambda>e. pd_id e \<notin> pd_id ` set ds) es) @
       concat (map start_pubs started)) s s' \<and>
    map ss_pipeline_id started = map pd_id ds \<and>
    map ss_series_id started = map (uuid_v7 x) [uuid_calls s ..< uuid_calls s + length ds]"
proof -
  let ?clear = "\<lambda>e. andThen (mapErr EStore (delete_definition x (pd_id e))) (\<lambda>_.
      if pd_id e \<notin> pd_id ` set ds then enqueue_deletion x node e now else ret ())"
  let ?start = "\<lambda>d. andThen (mapErr EStore (insert_definition x d (uptime_ms now))) (\<lambda>_. start_series x node d now)"
  let ?s1 = "s\<lparr> sql_step := Suc (sql_step s) \<rparr>"
  obtain us s2 where clear: "forA es ?clear ?s1 = (Inr us, s2)" and start: "forA ds ?start s2 = (Inr started, s')"
    using assms
    by (auto simp: import_definitions_def andThen_eq_Inr list_definitions_def select_Inr split: option.splits)
  have "appends x node [] s ?s1" by (simp add: appends_refl)
  then show ?thesis
    using import_clear_loop [OF clear] import_insert_loop [OF start]
    by (auto dest: appends_trans)
qed

text \<open>The count is imported again as a measurement; the stored state pipeline is left out.\<close>

definition demo_import :: "pipeline_definition list" where
  "demo_import = [demo_measurement\<lparr> pd_id := PipelineId ''count'' \<rparr>]"

theorem import_publications_witness:
  "\<exists>started s'. import_definitions demo_ext demo_id demo_import (demo_time 20) demo_db = (Inr started, s') \<and>
     appends demo_ext demo_id ([Clear (PipelineId ''door'') State] @ concat (map start_pubs started)) demo_db s'"
proof -
  have "\<not> isl (fst (import_definitions demo_ext demo_id demo_import (demo_time 20) demo_db))" by code_simp
  then obtain started s' where run: "import_definitions demo_ext demo_id demo_import (demo_time 20) demo_db = (Inr started, s')"
    by (blast dest: returned)
  have "decode_all demo_ext (sort_key dr_pipeline_id (pipeline_definition_t (tables demo_db))) =
      Inr [demo_count, demo_state]" by code_simp
  from import_publications [OF run this] run show ?thesis
    by (auto simp: demo_import_def demo_count_def demo_state_def)
qed

end
