(* ===== verification/Storage.thy ===== *)
theory Storage
  imports Database "HOL-Library.Sublist"
begin

text \<open>
  Schema migrations (\<^verbatim>\<open>edge-node/core/storage/src/migrate.rs\<close>) and the errors of
  the storage crate (\<^verbatim>\<open>error.rs\<close>). What a migration script does to the schema is
  SQLite's business: the scripts run through a parameter \<open>batch\<close>, over an arbitrary content
  \<open>'c\<close> of the database, and any statement may fail (\<open>fault n\<close>: the \<open>n\<close>-th one does).
\<close>

section \<open>Definitions\<close>

datatype storage_error =
    StSqlite sqlite_error
  | StIo string
  | MigrationFailed nat storage_error
  | SchemaVersionAhead nat nat
  | InvalidMigrationOrder nat nat
  | UnsupportedPreReleaseEdgeDatabase

record migration =
  mg_version :: nat
  mg_label :: string
  mg_sql :: string

text \<open>The database file: the table \<^verbatim>\<open>_schema_version\<close>, if it exists, and everything else.\<close>

record 'c schema =
  schema_version :: "(nat \<times> string \<times> i64) list option"
  content :: 'c
  statements :: nat

definition statement :: "(nat \<Rightarrow> bool) \<Rightarrow> ('c schema \<Rightarrow> sqlite_error + 'c schema) \<Rightarrow> ('c schema, sqlite_error, unit) act" where
  "statement fault f s = (let s' = s\<lparr> statements := Suc (statements s) \<rparr> in
     if fault (statements s) then (Inl SqliteFailure, s')
     else case f s' of Inl e \<Rightarrow> (Inl e, s') | Inr s'' \<Rightarrow> (Inr (), s''))"

definition recorded :: "'c schema \<Rightarrow> nat list" where
  "recorded s = (case schema_version s of None \<Rightarrow> [] | Some rows \<Rightarrow> map fst rows)"

definition bootstrap :: "'c schema \<Rightarrow> sqlite_error + 'c schema" where
  "bootstrap s = Inr (case schema_version s of None \<Rightarrow> s\<lparr> schema_version := Some [] \<rparr> | Some _ \<Rightarrow> s)"

definition run_batch :: "(string \<Rightarrow> 'c \<Rightarrow> sqlite_error + 'c) \<Rightarrow> migration \<Rightarrow> 'c schema \<Rightarrow> sqlite_error + 'c schema" where
  "run_batch batch m s = (case batch (mg_sql m) (content s) of
     Inl e \<Rightarrow> Inl e | Inr c \<Rightarrow> Inr (s\<lparr> content := c \<rparr>))"

definition insert_version :: "nat \<Rightarrow> migration \<Rightarrow> 'c schema \<Rightarrow> sqlite_error + 'c schema" where
  "insert_version secs m s = (case schema_version s of
     None \<Rightarrow> Inl SqliteFailure
   | Some rows \<Rightarrow> if mg_version m \<in> fst ` set rows then Inl ConstraintPrimaryKey
                 else Inr (s\<lparr> schema_version := Some (rows @ [(mg_version m, mg_label m, int secs)]) \<rparr>))"

definition apply_migration ::
    "(nat \<Rightarrow> bool) \<Rightarrow> (string \<Rightarrow> 'c \<Rightarrow> sqlite_error + 'c) \<Rightarrow> nat \<Rightarrow> migration \<Rightarrow> ('c schema, storage_error, unit) act" where
  "apply_migration fault batch secs m s =
     (case andThen (statement fault Inr) (\<lambda>_. andThen (statement fault (run_batch batch m))
             (\<lambda>_. andThen (statement fault (insert_version secs m)) (\<lambda>_. statement fault Inr))) s of
        (Inl e, s') \<Rightarrow> (Inl (MigrationFailed (mg_version m) (StSqlite e)),
           s'\<lparr> schema_version := schema_version s, content := content s \<rparr>)
      | (Inr u, s') \<Rightarrow> (Inr u, s'))"

definition apply_pending ::
    "(nat \<Rightarrow> bool) \<Rightarrow> (string \<Rightarrow> 'c \<Rightarrow> sqlite_error + 'c) \<Rightarrow> nat \<Rightarrow> migration list \<Rightarrow> nat list \<Rightarrow> ('c schema, storage_error, unit) act" where
  "apply_pending fault batch secs ms applied =
     (let current = (if applied = [] then 0 else Max (set applied));
          latest = (if ms = [] then 0 else mg_version (last ms))
      in if latest < current then throw (SchemaVersionAhead current latest)
         else andThen (forA (filter (\<lambda>m. mg_version m \<notin> set applied) ms) (apply_migration fault batch secs))
                (\<lambda>_. ret ()))"

definition run_migrations_inner ::
    "(nat \<Rightarrow> bool) \<Rightarrow> (string \<Rightarrow> 'c \<Rightarrow> sqlite_error + 'c) \<Rightarrow> nat \<Rightarrow> migration list \<Rightarrow> ('c schema, storage_error, unit) act" where
  "run_migrations_inner fault batch secs ms =
     andThen (mapErr StSqlite (statement fault bootstrap)) (\<lambda>_.
     andThen (mapErr StSqlite (statement fault Inr)) (\<lambda>_ s. apply_pending fault batch secs ms (recorded s) s))"

fun first_disorder :: "migration list \<Rightarrow> (nat \<times> nat) option" where
  "first_disorder (m # n # ms) =
     (if mg_version n \<le> mg_version m then Some (mg_version m, mg_version n) else first_disorder (n # ms))"
| "first_disorder _ = None"

definition run_migrations ::
    "(nat \<Rightarrow> bool) \<Rightarrow> (string \<Rightarrow> 'c \<Rightarrow> sqlite_error + 'c) \<Rightarrow> nat \<Rightarrow> migration list \<Rightarrow> ('c schema, storage_error, unit) act" where
  "run_migrations fault batch secs ms = (case first_disorder ms of
     Some (a, b) \<Rightarrow> throw (InvalidMigrationOrder a b)
   | None \<Rightarrow> run_migrations_inner fault batch secs ms)"

section \<open>Migrated databases\<close>

text \<open>The scripts of a list of migrations, one after the other.\<close>

fun run_scripts :: "(string \<Rightarrow> 'c \<Rightarrow> sqlite_error + 'c) \<Rightarrow> migration list \<Rightarrow> 'c \<Rightarrow> 'c option" where
  "run_scripts batch [] c = Some c"
| "run_scripts batch (m # ms) c = (case batch (mg_sql m) c of Inl _ \<Rightarrow> None | Inr c' \<Rightarrow> run_scripts batch ms c')"

lemma run_scripts_append:
  "run_scripts batch (xs @ ys) c = Option.bind (run_scripts batch xs c) (run_scripts batch ys)"
  by (induction xs arbitrary: c) (auto split: sum.splits)

text \<open>The database has seen exactly the first \<open>k\<close> migrations.\<close>

definition migrated :: "(string \<Rightarrow> 'c \<Rightarrow> sqlite_error + 'c) \<Rightarrow> migration list \<Rightarrow> 'c \<Rightarrow> nat \<Rightarrow> 'c schema \<Rightarrow> bool" where
  "migrated batch ms c k s \<longleftrightarrow> k \<le> length ms \<and> recorded s = map mg_version (take k ms) \<and>
     run_scripts batch (take k ms) c = Some (content s)"

lemma statement_Inr:
  "statement fault f s = (Inr u, s') \<longleftrightarrow> \<not> fault (statements s) \<and> f (s\<lparr> statements := Suc (statements s) \<rparr>) = Inr s'"
  by (auto simp: statement_def Let_def split: sum.splits)

lemma statement_Inl: "statement fault f s = (Inl e, s') \<Longrightarrow> s' = s\<lparr> statements := Suc (statements s) \<rparr>"
  by (auto simp: statement_def Let_def split: sum.splits if_splits)

lemma recorded_simps [simp]:
  "recorded (s\<lparr> statements := n \<rparr>) = recorded s" "recorded (s\<lparr> content := c \<rparr>) = recorded s"
  "recorded (s\<lparr> schema_version := Some rows \<rparr>) = map fst rows"
  "recorded (s\<lparr> schema_version := schema_version s', content := c \<rparr>) = recorded s'"
  "recorded (s\<lparr> schema_version := schema_version s' \<rparr>) = recorded s'"
  by (simp_all add: recorded_def)

lemma apply_migration_Inr:
  assumes "apply_migration fault batch secs m s = (Inr u, s')"
  shows "batch (mg_sql m) (content s) = Inr (content s') \<and> recorded s' = recorded s @ [mg_version m]"
  using assms
  by (auto simp: apply_migration_def andThen_eq_Inr statement_Inr run_batch_def insert_version_def recorded_def
      split: prod.splits sum.splits option.splits if_splits)

lemma apply_migration_Inl:
  assumes "apply_migration fault batch secs m s = (Inl e, s')"
  shows "content s' = content s \<and> recorded s' = recorded s"
  using assms by (auto simp: apply_migration_def split: prod.splits sum.splits)

lemma migrated_apply:
  assumes "migrated batch ms c k s" "k < length ms"
  shows "case apply_migration fault batch secs (ms ! k) s of
      (Inl _, s') \<Rightarrow> migrated batch ms c k s' | (Inr _, s') \<Rightarrow> migrated batch ms c (Suc k) s'"
proof (cases "apply_migration fault batch secs (ms ! k) s")
  case (Pair r s')
  show ?thesis
  proof (cases r)
    case (Inl e)
    then show ?thesis using Pair assms(1) apply_migration_Inl [of fault batch secs "ms ! k" s e s']
      by (simp add: migrated_def)
  next
    case (Inr u)
    then show ?thesis using Pair assms apply_migration_Inr [of fault batch secs "ms ! k" s u s']
      by (simp add: migrated_def take_Suc_conv_app_nth run_scripts_append)
  qed
qed

lemma migrated_loop:
  assumes "migrated batch ms c k s"
  shows "\<exists>k'. migrated batch ms c k' (snd (forA (drop k ms) (apply_migration fault batch secs) s)) \<and>
    (\<not> isl (fst (forA (drop k ms) (apply_migration fault batch secs) s)) \<longrightarrow> k' = length ms)"
  using assms
proof (induction "length ms - k" arbitrary: k s)
  case 0
  then have "k = length ms" by (simp add: migrated_def)
  then show ?case using 0(2) by auto
next
  case (Suc n)
  then have k: "k < length ms" by simp
  then have split: "drop k ms = ms ! k # drop (Suc k) ms" by (simp add: Cons_nth_drop_Suc)
  note step = migrated_apply [OF Suc(3) k, of fault secs]
  show ?case
  proof (cases "apply_migration fault batch secs (ms ! k) s")
    case (Pair r s')
    then show ?thesis
      using step Suc(1) [of "Suc k" s'] Suc(2) k
      by (cases r) (auto simp: split andThen_def split: prod.splits sum.splits)
  qed
qed

lemma sorted_versions: "first_disorder ms = None \<longleftrightarrow> sorted_wrt (<) (map mg_version ms)"
  by (induction ms rule: first_disorder.induct) (auto simp: less_trans)

lemma pending_drop:
  assumes "sorted_wrt (<) (map mg_version ms)"
  shows "filter (\<lambda>m. mg_version m \<notin> set (map mg_version (take k ms))) ms = drop k ms"
proof -
  have dist: "distinct (map mg_version ms)" using assms by (simp add: strict_sorted_iff)
  let ?P = "\<lambda>m. mg_version m \<notin> set (map mg_version (take k ms))"
  have "filter ?P (take k ms @ drop k ms) = drop k ms"
  proof -
    have "?P m" if "m \<in> set (drop k ms)" for m
    proof
      assume "mg_version m \<in> set (map mg_version (take k ms))"
      moreover have "mg_version m \<in> set (map mg_version (drop k ms))" using that by simp
      moreover have "distinct (map mg_version (take k ms) @ map mg_version (drop k ms))"
        using dist by (metis append_take_drop_id map_append)
      ultimately show False by (meson disjoint_iff distinct_append)
    qed
    then have "filter ?P (drop k ms) = drop k ms" by (simp add: filter_id_conv)
    moreover have "filter ?P (take k ms) = []" by (simp add: filter_empty_conv)
    ultimately show ?thesis by (simp only: filter_append append_Nil)
  qed
  then show ?thesis by simp
qed

lemma current_le_latest:
  assumes "sorted_wrt (<) (map mg_version ms)" "k \<le> length ms" "map mg_version (take k ms) \<noteq> []"
  shows "Max (set (map mg_version (take k ms))) \<le> mg_version (last ms)"
proof -
  have "ms \<noteq> []" using assms(3) by auto
  have "v \<le> mg_version (last ms)" if "v \<in> set (map mg_version ms)" for v
    using that assms(1) \<open>ms \<noteq> []\<close> by (induction ms) (auto intro: less_imp_le split: if_splits)
  then have "v \<le> mg_version (last ms)" if "v \<in> set (map mg_version (take k ms))" for v
    using that by (auto dest: in_set_takeD)
  then show ?thesis using assms(3) by (intro Max.boundedI) simp_all
qed

text \<open>One attempt moves a database from some number of migrations to a later one.\<close>

lemma apply_pending_triple:
  assumes "sorted_wrt (<) (map mg_version ms)"
  shows "triple (\<lambda>s. \<exists>k. migrated batch ms c k s) (\<lambda>s. apply_pending fault batch secs ms (recorded s) s)
    (\<lambda>_. migrated batch ms c (length ms)) (\<lambda>_ s. \<exists>k. migrated batch ms c k s)"
  unfolding triple_def
proof (intro allI impI)
  fix s assume "\<exists>k. migrated batch ms c k s"
  then obtain k where k: "migrated batch ms c k s" by blast
  let ?loop = "forA (drop k ms) (apply_migration fault batch secs)"
  have rec: "recorded s = map mg_version (take k ms)" "k \<le> length ms" using k by (simp_all add: migrated_def)
  have guard: "\<not> (if ms = [] then 0 else mg_version (last ms)) < (if recorded s = [] then 0 else Max (set (recorded s)))"
    using current_le_latest [OF assms rec(2)] by (simp only: rec(1)) (auto simp: not_less)
  have run: "apply_pending fault batch secs ms (recorded s) s = andThen ?loop (\<lambda>_. ret ()) s"
    using guard pending_drop [OF assms, of k] by (simp only: apply_pending_def Let_def if_False rec(1))
  obtain k' where "migrated batch ms c k' (snd (?loop s))" "\<not> isl (fst (?loop s)) \<longrightarrow> k' = length ms"
    using migrated_loop [OF k, of fault secs] by blast
  then show "case apply_pending fault batch secs ms (recorded s) s of
      (Inl e, s') \<Rightarrow> \<exists>k. migrated batch ms c k s' | (Inr u, s') \<Rightarrow> migrated batch ms c (length ms) s'"
    unfolding run andThen_def by (auto split: prod.splits sum.splits)
qed

lemma run_migrations_triple:
  "triple (\<lambda>s. \<exists>k. migrated batch ms c k s) (run_migrations fault batch secs ms)
    (\<lambda>_. migrated batch ms c (length ms)) (\<lambda>_ s. \<exists>k. migrated batch ms c k s)"
proof (cases "first_disorder ms")
  case (Some p)
  then show ?thesis by (cases p) (simp add: run_migrations_def triple_def)
next
  case None
  let ?P = "\<lambda>s. \<exists>k. migrated batch ms c k s"
  have "triple ?P (statement fault bootstrap) (\<lambda>_. ?P) (\<lambda>_. ?P)" "triple ?P (statement fault Inr) (\<lambda>_. ?P) (\<lambda>_. ?P)"
    by (auto simp: triple_def statement_def bootstrap_def migrated_def recorded_def Let_def split: option.splits)
  moreover have "sorted_wrt (<) (map mg_version ms)" using None by (simp add: sorted_versions)
  ultimately show ?thesis
    unfolding run_migrations_def run_migrations_inner_def None option.case
    by (intro triple_andThen [where R = "\<lambda>_. ?P"] triple_mapErr apply_pending_triple)
qed

text \<open>Nothing but a failing statement or script stops an attempt.\<close>

lemma apply_migration_progress:
  assumes "\<And>n. \<not> fault n" "batch (mg_sql m) (content s) = Inr c" "schema_version s \<noteq> None"
    "mg_version m \<notin> set (recorded s)"
  shows "\<exists>s'. apply_migration fault batch secs m s = (Inr (), s') \<and> schema_version s' \<noteq> None"
  using assms
  by (auto simp: apply_migration_def andThen_def statement_def run_batch_def insert_version_def recorded_def Let_def)

lemma loop_progress:
  assumes "\<And>n. \<not> fault n" "sorted_wrt (<) (map mg_version ms)" "run_scripts batch ms c \<noteq> None"
  shows "migrated batch ms c k s \<Longrightarrow> schema_version s \<noteq> None \<Longrightarrow>
    \<not> isl (fst (forA (drop k ms) (apply_migration fault batch secs) s))"
proof (induction "length ms - k" arbitrary: k s)
  case 0
  then show ?case by simp
next
  case (Suc n)
  then have k: "k < length ms" by simp
  then have split: "drop k ms = ms ! k # drop (Suc k) ms" by (simp add: Cons_nth_drop_Suc)
  have "run_scripts batch (take k ms @ drop k ms) c \<noteq> None" using assms(3) by simp
  then have "run_scripts batch (drop k ms) (content s) \<noteq> None"
    using Suc(3) unfolding run_scripts_append by (simp add: migrated_def)
  then obtain c' where c': "batch (mg_sql (ms ! k)) (content s) = Inr c'"
    unfolding split by (auto split: sum.splits)
  have "mg_version (ms ! k) \<notin> set (map mg_version (take k ms))"
  proof -
    have "ms ! k \<in> set (drop k ms)" using split by simp
    then have "ms ! k \<in> set (filter (\<lambda>m. mg_version m \<notin> set (map mg_version (take k ms))) ms)"
      by (simp only: pending_drop [OF assms(2)])
    then show ?thesis by simp
  qed
  then have fresh: "mg_version (ms ! k) \<notin> set (recorded s)" using Suc(3) by (simp add: migrated_def)
  obtain s' where s': "apply_migration fault batch secs (ms ! k) s = (Inr (), s')" "schema_version s' \<noteq> None"
    using apply_migration_progress [of fault batch "ms ! k" s c' secs, OF assms(1) c' Suc(4) fresh] by blast
  have "migrated batch ms c (Suc k) s'" using migrated_apply [OF Suc(3) k, of fault secs] s'(1) by simp
  then have "\<not> isl (fst (forA (drop (Suc k) ms) (apply_migration fault batch secs) s'))"
    using Suc(1) [of "Suc k" s'] Suc(2) s'(2) k by simp
  then show ?case unfolding split forA.simps
    using s'(1) by (auto simp: andThen_def split: prod.splits sum.splits)
qed

lemma run_migrations_progress:
  assumes "\<And>n. \<not> fault n" "sorted_wrt (<) (map mg_version ms)" "run_scripts batch ms c \<noteq> None"
    "migrated batch ms c k s"
  shows "\<not> isl (fst (run_migrations fault batch secs ms s))"
proof -
  let ?s2 = "(case schema_version s of None \<Rightarrow> s\<lparr> schema_version := Some [] \<rparr> | Some _ \<Rightarrow> s)
    \<lparr> statements := Suc (Suc (statements s)) \<rparr>"

  have "run_migrations fault batch secs ms s = apply_pending fault batch secs ms (recorded ?s2) ?s2"
    using assms(1,2)
    by (cases "schema_version s") (auto simp: run_migrations_def sorted_versions [symmetric] run_migrations_inner_def
        andThen_def mapErr_def statement_def bootstrap_def recorded_def Let_def)
  moreover have "migrated batch ms c k ?s2 \<and> schema_version ?s2 \<noteq> None"
    using assms(4) by (cases "schema_version s") (auto simp: migrated_def recorded_def)
  ultimately have "\<exists>s2. run_migrations fault batch secs ms s = apply_pending fault batch secs ms (recorded s2) s2 \<and>
    migrated batch ms c k s2 \<and> schema_version s2 \<noteq> None" by blast

  then obtain s2 where run: "run_migrations fault batch secs ms s = apply_pending fault batch secs ms (recorded s2) s2"
    and s2: "migrated batch ms c k s2" "schema_version s2 \<noteq> None" by blast
  have rec: "recorded s2 = map mg_version (take k ms)" "k \<le> length ms" using s2(1) by (simp_all add: migrated_def)
  have guard: "\<not> (if ms = [] then 0 else mg_version (last ms)) < (if recorded s2 = [] then 0 else Max (set (recorded s2)))"
    using current_le_latest [OF assms(2) rec(2)] by (simp only: rec(1)) (auto simp: not_less)
  have "run_migrations fault batch secs ms s = andThen (forA (drop k ms) (apply_migration fault batch secs)) (\<lambda>_. ret ()) s2"
    using guard pending_drop [OF assms(2), of k] by (simp only: run apply_pending_def Let_def if_False rec(1))
  then show ?thesis
    using loop_progress [of fault ms batch c k s2 secs] assms(1-3) s2 by (simp add: andThen_def split: prod.splits sum.splits)
qed

section \<open>Properties\<close>

text \<open>An attempt with its own failing statements and time.\<close>

definition attempt :: "(string \<Rightarrow> 'c \<Rightarrow> sqlite_error + 'c) \<Rightarrow> migration list \<Rightarrow> (nat \<Rightarrow> bool) \<times> nat \<Rightarrow> 'c schema \<Rightarrow> 'c schema" where
  "attempt batch ms = (\<lambda>(fault, secs) s. snd (run_migrations fault batch secs ms s))"

interpretation attempts: invariant_system "attempt batch ms" "\<lambda>s. \<exists>k. migrated batch ms c k s" for batch ms c
proof
  fix s op assume "\<exists>k. migrated batch ms c k s"
  then show "\<exists>k. migrated batch ms c k (attempt batch ms op s)"
    using triple_state [OF run_migrations_triple [of batch ms c "fst op" "snd op"]]
    by (fastforce simp: attempt_def split: prod.splits)
qed

text \<open>C27: However often the node is started and at whichever statements the migrations fail on the way, a
  database only ever holds the effect of a prefix of the migrations, each applied once and in order,
  and the version table names exactly that prefix. A run that returns \<^verbatim>\<open>Ok\<close> has completed the
  list, and a run without failing statements does return \<^verbatim>\<open>Ok\<close> when the scripts themselves are
  executable.\<close>

theorem migrations_apply_once:
  fixes s :: "'c schema" and tries :: "((nat \<Rightarrow> bool) \<times> nat) list" and batch ms
  assumes "recorded s = []"
  defines "s' \<equiv> fold (attempt batch ms) tries s"
  shows "(\<exists>k\<le>length ms. recorded s' = map mg_version (take k ms) \<and>
      run_scripts batch (take k ms) (content s) = Some (content s')) \<and>
    (\<forall>u s''. run_migrations fault batch secs ms s' = (Inr u, s'') \<longrightarrow>
      recorded s'' = map mg_version ms \<and> run_scripts batch ms (content s) = Some (content s'')) \<and>
    (sorted_wrt (<) (map mg_version ms) \<and> run_scripts batch ms (content s) \<noteq> None \<longrightarrow>
      \<not> isl (fst (run_migrations (\<lambda>_. False) batch secs ms s')))"
proof -
  have "migrated batch ms (content s) 0 s" using assms(1) by (simp add: migrated_def)
  then have "\<exists>k. migrated batch ms (content s) k s'"
    unfolding s'_def by (intro attempts.run_inv exI)
  then obtain k where k: "migrated batch ms (content s) k s'" by blast
  have "migrated batch ms (content s) (length ms) s''"
    if "run_migrations fault batch secs ms s' = (Inr u, s'')" for u s''
    using tripleD_Inr [OF run_migrations_triple _ that] k by blast
  then show ?thesis
    using k run_migrations_progress [of "\<lambda>_. False" ms batch "content s" k s' secs]
    by (auto simp: migrated_def)
qed

definition demo_migrations :: "migration list" where
  "demo_migrations = [\<lparr> mg_version = 1, mg_label = ''init'', mg_sql = ''a'' \<rparr>,
     \<lparr> mg_version = 3, mg_label = ''ledger'', mg_sql = ''b'' \<rparr>]"

theorem migrations_apply_once_witness:
  "let s = \<lparr> schema_version = None, content = [], statements = 0 \<rparr>;
       batch = (\<lambda>q c. Inr (c @ q)); s' = fold (attempt batch demo_migrations) [(\<lambda>n. n = 7, 10)] s
   in content s' = ''a'' \<and> \<not> isl (fst (run_migrations (\<lambda>_. False) batch 20 demo_migrations s'))"
proof -
  let ?s = "\<lparr> schema_version = None, content = [], statements = 0 \<rparr>"
  let ?batch = "\<lambda>q c. (Inr (c @ q) :: sqlite_error + string)"
  have "recorded ?s = []" by (simp add: recorded_def)
  note once = migrations_apply_once [where batch = ?batch and ms = demo_migrations and tries = "[(\<lambda>n. n = 7, 10)]" and secs = 20, OF this]
  have "sorted_wrt (<) (map mg_version demo_migrations)" "run_scripts ?batch demo_migrations [] \<noteq> None"
    by (simp_all add: demo_migrations_def)
  moreover have "content (fold (attempt ?batch demo_migrations) [(\<lambda>n. n = 7, 10)] ?s) = ''a''" by code_simp
  ultimately show ?thesis using once by (simp add: Let_def)
qed

end
