(* ===== verification/Ledger.thy ===== *)
theory Ledger
  imports Storage "HOL-Library.Product_Lexorder"
begin

text \<open>
  The device ledger (\<^verbatim>\<open>edge-node/core/ledger/src/ids.rs\<close> and \<^verbatim>\<open>store.rs\<close>): devices,
  series, sightings, audit events and the ledger's metadata, one action per function, with the
  triggers of the migrations that maintain the descriptor revision.
\<close>

section \<open>Identifiers, errors and rows\<close>

datatype system_id = SystemId (as_bytes: string)

definition to_text :: "ext \<Rightarrow> system_id \<Rightarrow> string" where
  "to_text x i = uuid_to_string x (as_bytes i)"

datatype ledger_error =
    HardwareIdInUse string
  | LNotFound string
  | InvalidId string
  | InvalidModelId string
  | InvalidReplace string
  | InvalidRecovery
  | UnsupportedPreReleaseSchema
  | LStorage storage_error
  | LSqlite sqlite_error

definition from_text :: "ext \<Rightarrow> string \<Rightarrow> ledger_error + system_id" where
  "from_text x s = (case uuid_parse_str x s of Some bs \<Rightarrow> Inr (SystemId bs) | None \<Rightarrow> Inl (InvalidId s))"

definition generate :: "ext \<Rightarrow> (node, 'e, system_id) act" where
  "generate x s = (Inr (SystemId (uuid_v7_bytes x (uuid_calls s))), s\<lparr> uuid_calls := Suc (uuid_calls s) \<rparr>)"

datatype device_kind = Individual | Positional

fun kind_as_db :: "device_kind \<Rightarrow> string" where
  "kind_as_db Individual = ''individual''"
| "kind_as_db Positional = ''positional''"

definition kind_from_db :: "string \<Rightarrow> device_kind" where
  "kind_from_db s = (if s = ''positional'' then Positional else Individual)"

datatype device_state = Quarantined | Active | Retired

fun state_as_db :: "device_state \<Rightarrow> string" where
  "state_as_db Quarantined = ''quarantined''"
| "state_as_db Active = ''active''"
| "state_as_db Retired = ''retired''"

definition state_from_db :: "string \<Rightarrow> device_state" where
  "state_from_db s = (if s = ''active'' then Active else if s = ''retired'' then Retired else Quarantined)"

record device_row =
  de_system_id :: system_id
  de_hardware_id :: string
  de_presentation_identifier :: "string option"
  de_user_label :: "string option"
  de_parent :: "system_id option"
  de_kind :: device_kind
  de_state :: device_state
  de_declaration_version :: "nat option"

record series_row =
  sr_series_id :: i64
  sr_system_id :: system_id
  sr_measurement_key :: string
  sr_channel_index :: i32
  sr_variant :: string
  sr_quarantined :: bool
  sr_quarantine_reason :: "string option"
  sr_value_semantics :: string
  sr_unit :: "string option"
  sr_range_min :: "f64 option"
  sr_range_max :: "f64 option"
  sr_calibration_review :: bool

record parsed_series_key =
  pk_system_id :: system_id
  pk_measurement_key :: string
  pk_channel_index :: i32
  pk_variant :: string

record series_list_row =
  sl_series_id :: i64
  sl_series_key :: string
  sl_system_id :: string
  sl_user_label :: "string option"

record edge_node_identity =
  ei_edge_node_id :: string
  ei_ledger_epoch :: string

record event_row =
  er_event_id :: i64
  er_at :: i64
  er_kind :: string
  er_system_id :: "system_id option"
  er_detail :: string

record new_device =
  nd_hardware_id :: string
  nd_user_label :: "string option"
  nd_parent :: "system_id option"
  nd_kind :: device_kind
  nd_initial_state :: device_state

record replace_outcome =
  rp_replaced :: system_id
  rp_old_hardware_id :: string
  rp_retired_candidates :: "system_id list"

record series_meta =
  sm_series_id :: i64
  sm_quarantined :: bool
  sm_quarantine_reason :: "string option"
  sm_range_min :: "f64 option"
  sm_range_max :: "f64 option"

definition CHANNEL_NA :: i32 where "CHANNEL_NA = - 1"

definition DEFAULT_VARIANT :: string where "DEFAULT_VARIANT = ''primary''"

definition SIGHTINGS_TTL_MS :: i64 where "SIGHTINGS_TTL_MS = 30 * 24 * 60 * 60 * 1000"

definition SIGHTINGS_CAP :: nat where "SIGHTINGS_CAP = 10000"

section \<open>Series keys and model identifiers\<close>

definition series_key_of :: "ext \<Rightarrow> system_id \<Rightarrow> string \<Rightarrow> i32 \<Rightarrow> string \<Rightarrow> string" where
  "series_key_of x sid key channel variant =
     to_text x sid @ '':'' @ key @ '':'' @
     (if channel = CHANNEL_NA then ''na'' else dec_int channel) @ '':'' @ variant"

definition parse_series_key :: "ext \<Rightarrow> string \<Rightarrow> ledger_error + parsed_series_key" where
  "parse_series_key x key = (case split_on CHR '':'' key of
     [sid, mk, ch, variant] \<Rightarrow>
       (case from_text x sid of
          Inl e \<Rightarrow> Inl e
        | Inr i \<Rightarrow>
          (case (if ch = ''na'' then Some CHANNEL_NA else parse_i32 ch) of
             None \<Rightarrow> Inl (InvalidId (''invalid series channel: '' @ key))
           | Some c \<Rightarrow> Inr \<lparr> pk_system_id = i, pk_measurement_key = mk, pk_channel_index = c, pk_variant = variant \<rparr>))
   | _ \<Rightarrow> Inl (InvalidId (''series_key must have 4 colon-separated parts: '' @ key)))"

text \<open>The loop over the bytes after the first, with the flag \<^verbatim>\<open>after_separator\<close>.\<close>

fun model_id_rest :: "bool \<Rightarrow> string \<Rightarrow> bool" where
  "model_id_rest sep [] = (\<not> sep)"
| "model_id_rest sep (b # bs) =
     (if is_ascii_lowercase (byte b) \<or> is_ascii_digit (byte b) then model_id_rest False bs
      else if b \<in> {CHR ''-'', CHR ''_'', CHR ''.''} \<and> \<not> sep then model_id_rest True bs
      else False)"

definition is_valid_model_id :: "string \<Rightarrow> bool" where
  "is_valid_model_id s =
     (if s = [] \<or> 64 < length s \<or> \<not> is_ascii_lowercase (byte (hd s)) then False
      else model_id_rest False (tl s))"

section \<open>Statements on the ledger\<close>

definition ledger_sql :: "ext \<Rightarrow> (ledger \<Rightarrow> sqlite_error + 'a \<times> ledger) \<Rightarrow> (node, ledger_error, 'a) act" where
  "ledger_sql x f = mapErr LSqlite (sql x (\<lambda>t. case f (ledger_t t) of
     Inl e \<Rightarrow> Inl e | Inr (a, l) \<Rightarrow> Inr (a, t\<lparr> ledger_t := l \<rparr>)))"

definition ledger_select :: "ext \<Rightarrow> (ledger \<Rightarrow> sqlite_error + 'a) \<Rightarrow> (node, ledger_error, 'a) act" where
  "ledger_select x f = ledger_sql x (\<lambda>l. case f l of Inl e \<Rightarrow> Inl e | Inr a \<Rightarrow> Inr (a, l))"

text \<open>The rows of a query converted one by one, stopping at the first error.\<close>

fun collect_rows :: "('a \<Rightarrow> 'e + 'b) \<Rightarrow> 'a list \<Rightarrow> 'e + 'b list" where
  "collect_rows f [] = Inr []"
| "collect_rows f (r # rs) = (case f r of Inl e \<Rightarrow> Inl e | Inr b \<Rightarrow>
     (case collect_rows f rs of Inl e \<Rightarrow> Inl e | Inr bs \<Rightarrow> Inr (b # bs)))"

text \<open>\<^verbatim>\<open>query_row(...).optional()\<close>.\<close>

definition first_row :: "('a \<Rightarrow> 'e + 'b) \<Rightarrow> 'a option \<Rightarrow> 'e + 'b option" where
  "first_row f r = (case r of None \<Rightarrow> Inr None | Some a \<Rightarrow> (case f a of Inl e \<Rightarrow> Inl e | Inr b \<Rightarrow> Inr (Some b)))"

text \<open>
  The triggers: each row event of the watched kind runs
  \<^verbatim>\<open>UPDATE ledger_meta SET value = CAST(CAST(value AS INTEGER) + 1 AS TEXT)\<close> for the key
  \<^verbatim>\<open>descriptor_revision\<close>.
\<close>

definition bump_meta :: "string \<Rightarrow> (string \<times> string) list \<Rightarrow> (string \<times> string) list" where
  "bump_meta key m = map (\<lambda>(k, v). if k = key then (k, dec_int (cast_integer v + 1)) else (k, v)) m"

definition bump_revision :: "ledger \<Rightarrow> ledger" where
  "bump_revision l = l\<lparr> ledger_meta_t := bump_meta ''descriptor_revision'' (ledger_meta_t l) \<rparr>"

definition alive :: "device_entry \<Rightarrow> bool" where
  "alive d \<longleftrightarrow> dv_state d \<noteq> ''retired''"

definition device_change :: "device_entry \<Rightarrow> device_entry \<Rightarrow> bool" where
  "device_change old new \<longleftrightarrow> dv_state old \<noteq> dv_state new \<or>
     dv_presentation_identifier old \<noteq> dv_presentation_identifier new"

definition series_change :: "series_entry \<Rightarrow> series_entry \<Rightarrow> bool" where
  "series_change old new \<longleftrightarrow> se_system_id old \<noteq> se_system_id new \<or>
     se_measurement_key old \<noteq> se_measurement_key new \<or> se_channel_index old \<noteq> se_channel_index new \<or>
     se_variant old \<noteq> se_variant new \<or> se_quarantined old \<noteq> se_quarantined new"

text \<open>
  \<^verbatim>\<open>INSERT INTO devices\<close> with the primary key, the unique index on live hardware ids and the
  foreign key of the parent.
\<close>

definition insert_device_row :: "device_entry \<Rightarrow> ledger \<Rightarrow> sqlite_error + unit \<times> ledger" where
  "insert_device_row d l =
     (if dv_system_id d \<in> dv_system_id ` set (devices_t l) then Inl ConstraintPrimaryKey
      else if alive d \<and> (\<exists>e\<in>set (devices_t l). alive e \<and> dv_hardware_id e = dv_hardware_id d) then Inl ConstraintUnique
      else if (case dv_parent_system_id d of None \<Rightarrow> False
               | Some p \<Rightarrow> p \<noteq> dv_system_id d \<and> p \<notin> dv_system_id ` set (devices_t l)) then Inl ConstraintForeignKey
      else Inr ((), bump_revision (l\<lparr> devices_t := devices_t l @ [d] \<rparr>)))"

text \<open>\<^verbatim>\<open>UPDATE devices SET ... WHERE ...\<close>; the number of rows it changed.\<close>

definition update_device_rows ::
    "(device_entry \<Rightarrow> bool) \<Rightarrow> (device_entry \<Rightarrow> device_entry) \<Rightarrow> ledger \<Rightarrow> sqlite_error + nat \<times> ledger" where
  "update_device_rows hit upd l =
     (let new = map (\<lambda>d. if hit d then upd d else d) (devices_t l);
          fired = length (filter (\<lambda>d. hit d \<and> device_change d (upd d)) (devices_t l))
      in if \<not> distinct (map dv_hardware_id (filter alive new)) then Inl ConstraintUnique
         else if \<exists>d\<in>set (devices_t l). hit d \<and> (case dv_superseded_by (upd d) of None \<Rightarrow> False
                  | Some p \<Rightarrow> p \<notin> dv_system_id ` set (devices_t l)) then Inl ConstraintForeignKey
         else Inr (length (filter hit (devices_t l)), (bump_revision ^^ fired) (l\<lparr> devices_t := new \<rparr>)))"

definition update_series_rows ::
    "(series_entry \<Rightarrow> bool) \<Rightarrow> (series_entry \<Rightarrow> series_entry) \<Rightarrow> ledger \<Rightarrow> sqlite_error + nat \<times> ledger" where
  "update_series_rows hit upd l =
     (let new = map (\<lambda>r. if hit r then upd r else r) (series_t l);
          fired = length (filter (\<lambda>r. hit r \<and> series_change r (upd r)) (series_t l))
      in Inr (length (filter hit (series_t l)), (bump_revision ^^ fired) (l\<lparr> series_t := new \<rparr>)))"

definition series_key_match :: "string \<Rightarrow> string \<Rightarrow> i32 \<Rightarrow> string \<Rightarrow> series_entry \<Rightarrow> bool" where
  "series_key_match sid key channel variant r \<longleftrightarrow> se_system_id r = sid \<and> se_measurement_key r = key \<and>
     se_channel_index r = channel \<and> se_variant r = variant"

definition insert_series_row :: "series_entry \<Rightarrow> ledger \<Rightarrow> sqlite_error + i64 \<times> ledger" where
  "insert_series_row r l =
     (let n = series_autoinc l + 1 in
      if \<exists>q\<in>set (series_t l). series_key_match (se_system_id r) (se_measurement_key r) (se_channel_index r) (se_variant r) q
      then Inl ConstraintUnique
      else if se_system_id r \<notin> dv_system_id ` set (devices_t l) then Inl ConstraintForeignKey
      else Inr (n, bump_revision (l\<lparr> series_t := series_t l @ [r\<lparr> se_series_id := n \<rparr>], series_autoinc := n \<rparr>)))"

definition meta_value :: "string \<Rightarrow> ledger \<Rightarrow> string option" where
  "meta_value k l = map_of (ledger_meta_t l) k"

section \<open>Conversions\<close>

definition system_id_from_blob :: "string \<Rightarrow> sqlite_error + system_id" where
  "system_id_from_blob bs = (if length bs = 16 then Inr (SystemId bs) else Inl FromSqlConversionFailure)"

definition row_to_device :: "device_entry \<Rightarrow> sqlite_error + device_row" where
  "row_to_device d = (case system_id_from_blob (dv_system_id d) of Inl e \<Rightarrow> Inl e | Inr i \<Rightarrow>
     (case first_row system_id_from_blob (dv_parent_system_id d) of Inl e \<Rightarrow> Inl e | Inr p \<Rightarrow>
       Inr \<lparr> de_system_id = i, de_hardware_id = dv_hardware_id d,
         de_presentation_identifier = dv_presentation_identifier d, de_user_label = dv_user_label d,
         de_parent = p, de_kind = kind_from_db (dv_kind d), de_state = state_from_db (dv_state d),
         de_declaration_version = dv_declaration_version d \<rparr>))"

definition row_to_series :: "series_entry \<Rightarrow> sqlite_error + series_row" where
  "row_to_series r = (case system_id_from_blob (se_system_id r) of Inl e \<Rightarrow> Inl e | Inr i \<Rightarrow>
     Inr \<lparr> sr_series_id = se_series_id r, sr_system_id = i, sr_measurement_key = se_measurement_key r,
       sr_channel_index = se_channel_index r, sr_variant = se_variant r, sr_quarantined = se_quarantined r,
       sr_quarantine_reason = se_quarantine_reason r, sr_value_semantics = se_value_semantics r,
       sr_unit = se_unit r, sr_range_min = se_range_min r, sr_range_max = se_range_max r,
       sr_calibration_review = se_calibration_review r \<rparr>)"

definition row_to_event :: "event_entry \<Rightarrow> sqlite_error + event_row" where
  "row_to_event v = (case first_row system_id_from_blob (ev_system_id v) of Inl e \<Rightarrow> Inl e | Inr i \<Rightarrow>
     Inr \<lparr> er_event_id = ev_event_id v, er_at = ev_at v, er_kind = ev_kind v, er_system_id = i,
       er_detail = ev_detail v \<rparr>)"

section \<open>Devices\<close>

definition descriptor_revision :: "ext \<Rightarrow> (node, ledger_error, u64) act" where
  "descriptor_revision x =
     andThen (ledger_select x (\<lambda>l. Inr (meta_value ''descriptor_revision'' l))) (\<lambda>v. case v of
       None \<Rightarrow> throw (LNotFound ''descriptor_revision'')
     | Some s \<Rightarrow> (case parse_u64 s of
         None \<Rightarrow> throw (InvalidId ''descriptor_revision is not an unsigned integer'')
       | Some n \<Rightarrow> ret n))"

definition get_device :: "ext \<Rightarrow> system_id \<Rightarrow> (node, ledger_error, device_row option) act" where
  "get_device x i = ledger_select x (\<lambda>l. first_row row_to_device
     (find_row (\<lambda>d. dv_system_id d = as_bytes i) (devices_t l)))"

definition find_alive_by_hardware_id :: "ext \<Rightarrow> string \<Rightarrow> (node, ledger_error, device_row option) act" where
  "find_alive_by_hardware_id x hw = ledger_select x (\<lambda>l. first_row row_to_device
     (find_row (\<lambda>d. dv_hardware_id d = hw \<and> alive d) (devices_t l)))"

definition set_presentation_identifier :: "ext \<Rightarrow> system_id \<Rightarrow> string option \<Rightarrow> (node, ledger_error, unit) act" where
  "set_presentation_identifier x i ident =
     (if (case ident of None \<Rightarrow> False
          | Some v \<Rightarrow> v = [] \<or> 64 < length v \<or> list_ex is_control (chars v))
      then throw (InvalidId ''presentation_identifier must be 1-64 UTF-8 bytes without control characters'')
      else andThen (ledger_sql x (update_device_rows
             (\<lambda>d. dv_system_id d = as_bytes i \<and> dv_presentation_identifier d \<noteq> ident)
             (\<lambda>d. d\<lparr> dv_presentation_identifier := ident \<rparr>))) (\<lambda>changed.
           if changed = 0
           then andThen (get_device x i) (\<lambda>d. if d = None then throw (LNotFound (''device '' @ to_text x i)) else ret ())
           else ret ()))"

definition record_event :: "ext \<Rightarrow> string \<Rightarrow> system_id option \<Rightarrow> string \<Rightarrow> (node, ledger_error, unit) act" where
  "record_event x kind i detail = andThen (now_ms x) (\<lambda>now. ledger_sql x (\<lambda>l.
     let n = event_autoinc l + 1 in
     Inr ((), l\<lparr> event_autoinc := n, ledger_events_t := ledger_events_t l @
       [\<lparr> ev_event_id = n, ev_at = now, ev_kind = kind, ev_system_id = map_option as_bytes i, ev_detail = detail \<rparr>] \<rparr>)))"

definition insert_device :: "ext \<Rightarrow> new_device \<Rightarrow> (node, ledger_error, system_id) act" where
  "insert_device x new =
     andThen (find_alive_by_hardware_id x (nd_hardware_id new)) (\<lambda>found.
       if found \<noteq> None then throw (HardwareIdInUse (nd_hardware_id new))
       else andThen (generate x) (\<lambda>sid. andThen (now_ms x) (\<lambda>now.
         andThen (ledger_sql x (insert_device_row \<lparr> dv_system_id = as_bytes sid, dv_hardware_id = nd_hardware_id new,
             dv_user_label = nd_user_label new, dv_parent_system_id = map_option as_bytes (nd_parent new),
             dv_kind = kind_as_db (nd_kind new), dv_state = state_as_db (nd_initial_state new),
             dv_declaration_version = None, dv_superseded_by = None, dv_created_at = now,
             dv_retired_at = None, dv_presentation_identifier = None \<rparr>)) (\<lambda>_.
         andThen (record_event x ''device_registered'' (Some sid) (nd_hardware_id new)) (\<lambda>_. ret sid)))))"

definition list_devices :: "ext \<Rightarrow> bool \<Rightarrow> (node, ledger_error, device_row list) act" where
  "list_devices x include_retired = ledger_select x (\<lambda>l. collect_rows row_to_device
     (sort_key (\<lambda>d. (dv_created_at d, dv_hardware_id d))
       (filter (\<lambda>d. include_retired \<or> alive d) (devices_t l))))"

definition positional_model_id :: "ext \<Rightarrow> system_id \<Rightarrow> (node, ledger_error, string option) act" where
  "positional_model_id x i = ledger_select x (\<lambda>l. Inr (map_of (positional_models_t l) (as_bytes i)))"

definition bind_positional_model :: "ext \<Rightarrow> system_id \<Rightarrow> string \<Rightarrow> (node, ledger_error, unit) act" where
  "bind_positional_model x i model =
     (if \<not> is_valid_model_id model then throw (InvalidModelId model)
      else ledger_sql x (\<lambda>l.
        if as_bytes i \<in> fst ` set (positional_models_t l) then Inl ConstraintPrimaryKey
        else if model = [] then Inl ConstraintCheck
        else if as_bytes i \<notin> dv_system_id ` set (devices_t l) then Inl ConstraintForeignKey
        else Inr ((), bump_revision (l\<lparr> positional_models_t := positional_models_t l @ [(as_bytes i, model)] \<rparr>))))"

definition activate_device :: "ext \<Rightarrow> system_id \<Rightarrow> (node, ledger_error, unit) act" where
  "activate_device x i =
     andThen (ledger_sql x (update_device_rows
         (\<lambda>d. dv_system_id d = as_bytes i \<and> dv_state d = ''quarantined'') (\<lambda>d. d\<lparr> dv_state := ''active'' \<rparr>))) (\<lambda>n.
       if n = 0 then throw (LNotFound (''quarantined device '' @ to_text x i))
       else record_event x ''device_activated'' (Some i) [])"

definition retire_device :: "ext \<Rightarrow> system_id \<Rightarrow> (node, ledger_error, unit) act" where
  "retire_device x i = andThen (now_ms x) (\<lambda>now.
     andThen (ledger_sql x (update_device_rows (\<lambda>d. dv_system_id d = as_bytes i \<and> alive d)
         (\<lambda>d. d\<lparr> dv_state := ''retired'', dv_retired_at := Some now \<rparr>))) (\<lambda>n.
       if n = 0 then throw (LNotFound (''non-retired device '' @ to_text x i))
       else record_event x ''device_retired'' (Some i) []))"

definition expire_one :: "ext \<Rightarrow> i64 \<Rightarrow> system_id \<Rightarrow> (node, ledger_error, unit) act" where
  "expire_one x ttl i =
     andThen (ledger_sql x (update_device_rows
         (\<lambda>d. dv_system_id d = as_bytes i \<and> dv_state d = ''quarantined'') (\<lambda>d. d\<lparr> dv_state := ''active'' \<rparr>))) (\<lambda>_.
       record_event x ''quarantine_expired'' (Some i) (json_text x (JObj [(''ttl_ms'', JInt ttl)])))"

definition expire_quarantined_devices :: "ext \<Rightarrow> i64 \<Rightarrow> (node, ledger_error, system_id list) act" where
  "expire_quarantined_devices x ttl = andThen (now_ms x) (\<lambda>now.
     andThen (ledger_select x (\<lambda>l. collect_rows (\<lambda>d. system_id_from_blob (dv_system_id d))
         (sort_key (\<lambda>d. (dv_created_at d, dv_hardware_id d))
           (filter (\<lambda>d. dv_state d = ''quarantined'' \<and> dv_created_at d < saturating_sub now ttl) (devices_t l))))) (\<lambda>expired.
     andThen (forA expired (expire_one x ttl)) (\<lambda>_. ret expired)))"

section \<open>Series\<close>

definition find_series_row :: "system_id \<Rightarrow> string \<Rightarrow> i32 \<Rightarrow> string \<Rightarrow> ledger \<Rightarrow> series_entry option" where
  "find_series_row i key channel variant l = find_row (series_key_match (as_bytes i) key channel variant) (series_t l)"

definition ensure_series ::
    "ext \<Rightarrow> system_id \<Rightarrow> string \<Rightarrow> i32 \<Rightarrow> string \<Rightarrow> bool \<Rightarrow> string option \<Rightarrow> (node, ledger_error, i64) act" where
  "ensure_series x i key channel variant quarantined reason =
     andThen (ledger_select x (\<lambda>l. Inr (map_option se_series_id (find_series_row i key channel variant l)))) (\<lambda>found.
       case found of Some n \<Rightarrow> ret n
       | None \<Rightarrow> andThen (now_ms x) (\<lambda>now. ledger_sql x (insert_series_row \<lparr> se_series_id = 0,
           se_system_id = as_bytes i, se_measurement_key = key, se_channel_index = channel, se_variant = variant,
           se_quarantined = quarantined, se_quarantine_reason = reason, se_value_semantics = ''calibrated'',
           se_unit = None, se_range_min = None, se_range_max = None, se_calibration_review = False,
           se_created_at = now \<rparr>)))"

definition find_series_meta ::
    "ext \<Rightarrow> system_id \<Rightarrow> string \<Rightarrow> i32 \<Rightarrow> string \<Rightarrow> (node, ledger_error, series_meta option) act" where
  "find_series_meta x i key channel variant = ledger_select x (\<lambda>l. Inr (map_option (\<lambda>r.
     \<lparr> sm_series_id = se_series_id r, sm_quarantined = se_quarantined r,
       sm_quarantine_reason = se_quarantine_reason r, sm_range_min = se_range_min r, sm_range_max = se_range_max r \<rparr>)
     (find_series_row i key channel variant l)))"

definition find_series_by_key :: "ext \<Rightarrow> string \<Rightarrow> (node, ledger_error, i64 option) act" where
  "find_series_by_key x key = andThen (liftR (parse_series_key x key)) (\<lambda>p.
     ledger_select x (\<lambda>l. Inr (map_option se_series_id
       (find_series_row (pk_system_id p) (pk_measurement_key p) (pk_channel_index p) (pk_variant p) l))))"

definition list_series :: "ext \<Rightarrow> (node, ledger_error, series_list_row list) act" where
  "list_series x = ledger_select x (\<lambda>l. collect_rows (\<lambda>r.
     case system_id_from_blob (se_system_id r) of Inl e \<Rightarrow> Inl e | Inr i \<Rightarrow>
       Inr \<lparr> sl_series_id = se_series_id r,
         sl_series_key = series_key_of x i (se_measurement_key r) (se_channel_index r) (se_variant r),
         sl_system_id = to_text x i,
         sl_user_label = Option.bind (find_row (\<lambda>d. dv_system_id d = se_system_id r) (devices_t l)) dv_user_label \<rparr>)
     (sort_key se_series_id (series_t l)))"

definition list_series_for_device :: "ext \<Rightarrow> system_id \<Rightarrow> (node, ledger_error, series_row list) act" where
  "list_series_for_device x i = ledger_select x (\<lambda>l. collect_rows row_to_series
     (sort_key se_series_id (filter (\<lambda>r. se_system_id r = as_bytes i) (series_t l))))"

definition series_exists_for_key :: "ext \<Rightarrow> system_id \<Rightarrow> string \<Rightarrow> (node, ledger_error, bool) act" where
  "series_exists_for_key x i key = ledger_select x (\<lambda>l. Inr
     (0 < length (filter (\<lambda>r. se_system_id r = as_bytes i \<and> se_measurement_key r = key) (series_t l))))"

definition release_series_quarantine_for_key_checked ::
    "ext \<Rightarrow> string \<Rightarrow> string \<Rightarrow> (i32 \<Rightarrow> bool) \<Rightarrow> (node, ledger_error, i64 list \<times> i64 list) act" where
  "release_series_quarantine_for_key_checked x key reason channel_ok =
     andThen (ledger_select x (\<lambda>l. Inr (map (\<lambda>r. (se_series_id r, se_channel_index r))
        (filter (\<lambda>r. se_measurement_key r = key \<and> se_quarantined r \<and> se_quarantine_reason r = Some reason) (series_t l))))) (\<lambda>rows.
     let released = map fst (filter (\<lambda>(n, c). channel_ok c) rows);
         mismatch = map fst (filter (\<lambda>(n, c). \<not> channel_ok c) rows)
     in andThen (forA released (\<lambda>n. ledger_sql x (update_series_rows (\<lambda>r. se_series_id r = n)
              (\<lambda>r. r\<lparr> se_quarantined := False, se_quarantine_reason := None \<rparr>)))) (\<lambda>_.
        andThen (forA mismatch (\<lambda>n. ledger_sql x (update_series_rows (\<lambda>r. se_series_id r = n)
              (\<lambda>r. r\<lparr> se_quarantine_reason := Some ''undeclared_channel'' \<rparr>)))) (\<lambda>_.
        ret (released, mismatch))))"

definition set_calibration_review :: "ext \<Rightarrow> system_id \<Rightarrow> bool \<Rightarrow> (node, ledger_error, nat) act" where
  "set_calibration_review x i flag = ledger_sql x (update_series_rows (\<lambda>r. se_system_id r = as_bytes i)
     (\<lambda>r. r\<lparr> se_calibration_review := flag \<rparr>))"

definition superseded :: "system_id \<Rightarrow> i64 \<Rightarrow> device_entry \<Rightarrow> device_entry" where
  "superseded i now d = d\<lparr> dv_state := ''retired'', dv_retired_at := Some now, dv_superseded_by := Some (as_bytes i) \<rparr>"

definition retire_candidate :: "ext \<Rightarrow> system_id \<Rightarrow> i64 \<Rightarrow> device_row option \<Rightarrow> (node, ledger_error, system_id list) act" where
  "retire_candidate x i now candidate = (case candidate of
     None \<Rightarrow> ret []
   | Some c \<Rightarrow> if de_system_id c \<noteq> i
       then andThen (ledger_sql x (update_device_rows (\<lambda>d. dv_system_id d = as_bytes (de_system_id c) \<and> alive d)
              (superseded i now))) (\<lambda>_. ret [de_system_id c])
       else ret [])"

definition replace_hardware :: "ext \<Rightarrow> system_id \<Rightarrow> string \<Rightarrow> (node, ledger_error, replace_outcome) act" where
  "replace_hardware x i new_hw =
     andThen (get_device x i) (\<lambda>row.
       case row of
         None \<Rightarrow> throw (LNotFound (''non-retired device '' @ to_text x i))
       | Some target \<Rightarrow>
         if de_state target = Retired then throw (LNotFound (''non-retired device '' @ to_text x i))
         else if de_hardware_id target = new_hw
         then throw (InvalidReplace (''new hardware_id is the same as current hardware_id: '' @ new_hw))
         else andThen (now_ms x) (\<lambda>now.
           andThen (find_alive_by_hardware_id x new_hw) (\<lambda>candidate.
           andThen (retire_candidate x i now candidate) (\<lambda>retired.
           andThen (ledger_sql x (update_device_rows (\<lambda>d. dv_system_id d = as_bytes i \<and> alive d)
               (\<lambda>d. d\<lparr> dv_hardware_id := new_hw \<rparr>))) (\<lambda>_.
           andThen (set_calibration_review x i True) (\<lambda>_.
           andThen (record_event x ''hardware_replaced'' (Some i) (json_text x (JObj
               [(''at'', JInt now), (''new_hw'', JStr new_hw), (''old_hw'', JStr (de_hardware_id target))]))) (\<lambda>_.
           ret \<lparr> rp_replaced = i, rp_old_hardware_id = de_hardware_id target, rp_retired_candidates = retired \<rparr>)))))))"

section \<open>Sightings\<close>

definition record_sighting :: "ext \<Rightarrow> string \<Rightarrow> string \<Rightarrow> (node, ledger_error, unit) act" where
  "record_sighting x hw src = andThen (now_ms x) (\<lambda>now. ledger_sql x (\<lambda>l.
     Inr ((), l\<lparr> sightings_t :=
       (if hw \<in> sg_hardware_id ` set (sightings_t l)
        then map (\<lambda>r. if sg_hardware_id r = hw
               then r\<lparr> sg_source := src, sg_last_seen := now, sg_observations := sg_observations r + 1 \<rparr> else r) (sightings_t l)
        else sightings_t l @ [\<lparr> sg_hardware_id = hw, sg_source = src, sg_first_seen = now, sg_last_seen = now,
               sg_observations = 1 \<rparr>]) \<rparr>)))"

definition recency :: "sighting_entry \<Rightarrow> i64 \<times> string" where
  "recency r = (- sg_last_seen r, sg_hardware_id r)"

definition list_sightings :: "ext \<Rightarrow> (node, ledger_error, sighting_entry list) act" where
  "list_sightings x = ledger_select x (\<lambda>l. Inr (sort_key recency (sightings_t l)))"

definition delete_sightings :: "(sighting_entry \<Rightarrow> bool) \<Rightarrow> ledger \<Rightarrow> sqlite_error + nat \<times> ledger" where
  "delete_sightings hit l = Inr (length (filter hit (sightings_t l)),
     l\<lparr> sightings_t := filter (\<lambda>r. \<not> hit r) (sightings_t l) \<rparr>)"

text \<open>The guard of both deletions: rows whose hardware id has staged readings stay.\<close>

definition unstaged :: "bool \<Rightarrow> ledger \<Rightarrow> sighting_entry \<Rightarrow> bool" where
  "unstaged exists l r \<longleftrightarrow> (exists \<longrightarrow>
     (case staged_readings_t l of None \<Rightarrow> True | Some rs \<Rightarrow> sg_hardware_id r \<notin> st_hardware_id ` set rs))"

definition beyond_cap :: "ledger \<Rightarrow> string set" where
  "beyond_cap l = set (map sg_hardware_id (drop SIGHTINGS_CAP (sort_key recency (sightings_t l))))"

definition purge_sightings :: "ext \<Rightarrow> i64 \<Rightarrow> (node, ledger_error, u64) act" where
  "purge_sightings x now =
     (let cutoff = saturating_sub now SIGHTINGS_TTL_MS in
      andThen (ledger_select x (\<lambda>l. Inr (staged_readings_t l \<noteq> None))) (\<lambda>staged.
      andThen (ledger_sql x (\<lambda>l. delete_sightings (\<lambda>r. sg_last_seen r < cutoff \<and> unstaged staged l r) l)) (\<lambda>by_ttl.
      andThen (ledger_sql x (\<lambda>l. delete_sightings (\<lambda>r. sg_hardware_id r \<in> beyond_cap l \<and> unstaged staged l r) l)) (\<lambda>by_cap.
      ret (by_ttl + by_cap)))))"

definition approve_sighting :: "ext \<Rightarrow> string \<Rightarrow> string option \<Rightarrow> device_kind \<Rightarrow> (node, ledger_error, system_id) act" where
  "approve_sighting x hw user_label kind =
     andThen (ledger_select x (\<lambda>l. Inr (hw \<in> sg_hardware_id ` set (sightings_t l)))) (\<lambda>seen.
       if \<not> seen then throw (LNotFound (''sighting '' @ hw))
       else andThen (insert_device x \<lparr> nd_hardware_id = hw, nd_user_label = user_label, nd_parent = None,
              nd_kind = kind, nd_initial_state = Quarantined \<rparr>) (\<lambda>sid.
            andThen (ledger_sql x (delete_sightings (\<lambda>r. sg_hardware_id r = hw))) (\<lambda>_.
            andThen (record_event x ''sighting_approved'' (Some sid) hw) (\<lambda>_. ret sid))))"

section \<open>Events and metadata\<close>

definition list_recent_events :: "ext \<Rightarrow> nat \<Rightarrow> (node, ledger_error, event_row list) act" where
  "list_recent_events x limit = ledger_select x (\<lambda>l. collect_rows row_to_event
     (take limit (sort_key (\<lambda>v. - ev_event_id v) (ledger_events_t l))))"

definition set_meta :: "string \<Rightarrow> string \<Rightarrow> (string \<times> string) list \<Rightarrow> (string \<times> string) list" where
  "set_meta k v m = (if k \<in> fst ` set m then map (\<lambda>(k', v'). if k' = k then (k, v) else (k', v')) m else m @ [(k, v)])"

definition current_generation :: "ext \<Rightarrow> (node, ledger_error, i64) act" where
  "current_generation x = ledger_select x (\<lambda>l. Inr (case meta_value ''generation'' l of
     None \<Rightarrow> 0 | Some v \<Rightarrow> cast_integer v))"

definition bump_generation :: "ext \<Rightarrow> (node, ledger_error, i64) act" where
  "bump_generation x =
     andThen (ledger_sql x (\<lambda>l. Inr ((), l\<lparr> ledger_meta_t :=
       (if ''generation'' \<in> fst ` set (ledger_meta_t l) then bump_meta ''generation'' (ledger_meta_t l)
        else ledger_meta_t l @ [(''generation'', ''1'')]) \<rparr>))) (\<lambda>_. current_generation x)"

definition ledger_edge_node_id :: "ext \<Rightarrow> (node, ledger_error, string) act" where
  "ledger_edge_node_id x =
     andThen (ledger_select x (\<lambda>l. Inr (meta_value ''gateway_identity'' l))) (\<lambda>old.
       if old \<noteq> None then throw UnsupportedPreReleaseSchema
       else andThen (ledger_select x (\<lambda>l. Inr (meta_value ''edge_node_id'' l))) (\<lambda>known.
         case known of Some v \<Rightarrow> ret v
         | None \<Rightarrow> andThen (now_v7 x) (\<lambda>candidate.
             andThen (ledger_sql x (\<lambda>l. Inr ((), if ''edge_node_id'' \<in> fst ` set (ledger_meta_t l) then l
                else l\<lparr> ledger_meta_t := ledger_meta_t l @ [(''edge_node_id'', candidate)] \<rparr>))) (\<lambda>_.
             ledger_select x (\<lambda>l. case meta_value ''edge_node_id'' l of
               None \<Rightarrow> Inl QueryReturnedNoRows | Some v \<Rightarrow> Inr v)))))"

definition load_edge_node_identity :: "ext \<Rightarrow> (node, ledger_error, edge_node_identity) act" where
  "load_edge_node_identity x =
     andThen (ledger_select x (\<lambda>l. Inr (meta_value ''gateway_identity'' l))) (\<lambda>old.
       if old \<noteq> None then throw UnsupportedPreReleaseSchema
       else andThen (ledger_select x (\<lambda>l. Inr (meta_value ''edge_node_id'' l))) (\<lambda>i.
         case i of None \<Rightarrow> throw (LNotFound ''edge_node_id'')
         | Some i \<Rightarrow> andThen (ledger_select x (\<lambda>l. Inr (meta_value ''epoch'' l))) (\<lambda>ep.
             case ep of None \<Rightarrow> throw (LNotFound ''ledger_epoch'')
             | Some ep \<Rightarrow> ret \<lparr> ei_edge_node_id = i, ei_ledger_epoch = ep \<rparr>)))"

definition ledger_epoch :: "ext \<Rightarrow> (node, ledger_error, string) act" where
  "ledger_epoch x = andThen (ledger_select x (\<lambda>l. Inr (meta_value ''epoch'' l))) (\<lambda>known.
     case known of Some v \<Rightarrow> ret v
     | None \<Rightarrow> andThen (now_v7 x) (\<lambda>ep.
         andThen (ledger_sql x (\<lambda>l. if ''epoch'' \<in> fst ` set (ledger_meta_t l) then Inl ConstraintPrimaryKey
            else Inr ((), l\<lparr> ledger_meta_t := ledger_meta_t l @ [(''epoch'', ep)] \<rparr>))) (\<lambda>_. ret ep)))"

definition renew_epoch :: "ext \<Rightarrow> (node, ledger_error, string) act" where
  "renew_epoch x = andThen (ledger_select x (\<lambda>l. Inr (meta_value ''epoch'' l))) (\<lambda>old.
     andThen (now_v7 x) (\<lambda>ep.
     andThen (ledger_sql x (\<lambda>l. Inr ((), l\<lparr> ledger_meta_t := set_meta ''epoch'' ep (ledger_meta_t l) \<rparr>))) (\<lambda>_.
     andThen (record_event x ''epoch_renewed'' None (json_text x (JObj [(''old_epoch'', json_opt JStr old)]))) (\<lambda>_.
     ret ep))))"

definition install_recovery_epoch :: "ext \<Rightarrow> string \<Rightarrow> string \<Rightarrow> (node, ledger_error, unit) act" where
  "install_recovery_epoch x old new =
     (if old = [] \<or> new = [] \<or> old = new \<or> CHR '':'' \<in> set old \<or> CHR '':'' \<in> set new \<or>
         list_ex is_control (chars old) \<or> list_ex is_control (chars new)
      then throw InvalidRecovery
      else andThen (ledger_sql x (\<lambda>l. Inr
             (length (filter (\<lambda>(k, v). k = ''epoch'' \<and> v = old) (ledger_meta_t l)),
              l\<lparr> ledger_meta_t := map (\<lambda>(k, v). if k = ''epoch'' \<and> v = old then (k, new) else (k, v)) (ledger_meta_t l) \<rparr>))) (\<lambda>changed.
           if changed \<noteq> 1 then throw InvalidRecovery
           else record_event x ''epoch_recovered'' None (json_text x (JObj
             [(''new_epoch'', JStr new), (''old_epoch'', JStr old)]))))"

end
