(* ===== verification/Ledger_Steps.thy ===== *)
theory Ledger_Steps
  imports Ledger
begin

text \<open>
  The abstract ledger: the elementary changes a ledger can go through, and the proof that every
  operation of \<^verbatim>\<open>store.rs\<close> is a sequence of such changes, also when it stops at an error
  half-way. Invariants of the ledger are then proved by rule induction on the changes.
\<close>

section \<open>Elementary changes\<close>

text \<open>A device keeps its identity; its state only moves from quarantined over active to retired.\<close>

definition device_move :: "device_entry \<Rightarrow> device_entry \<Rightarrow> bool" where
  "device_move d e \<longleftrightarrow> dv_system_id e = dv_system_id d \<and> dv_kind e = dv_kind d \<and>
     dv_created_at e = dv_created_at d \<and> dv_user_label e = dv_user_label d \<and>
     dv_parent_system_id e = dv_parent_system_id d \<and>
     (dv_state e = dv_state d \<or> dv_state d = ''quarantined'' \<and> dv_state e = ''active'' \<or>
      alive d \<and> dv_state e = ''retired'') \<and>
     (\<not> alive d \<longrightarrow> dv_hardware_id e = dv_hardware_id d)"

text \<open>A series keeps its key; a quarantine is only ever lifted.\<close>

definition series_move :: "series_entry \<Rightarrow> series_entry \<Rightarrow> bool" where
  "series_move r q \<longleftrightarrow> se_series_id q = se_series_id r \<and> se_system_id q = se_system_id r \<and>
     se_measurement_key q = se_measurement_key r \<and> se_channel_index q = se_channel_index r \<and>
     se_variant q = se_variant r \<and> (se_quarantined q \<longrightarrow> se_quarantined r)"

definition new_entry :: "device_entry \<Rightarrow> bool" where
  "new_entry d \<longleftrightarrow> dv_kind d \<in> range kind_as_db \<and> dv_state d \<in> range state_as_db \<and>
     dv_presentation_identifier d = None"

definition meta_move :: "(string \<times> string) list \<Rightarrow> (string \<times> string) list \<Rightarrow> bool" where
  "meta_move m m' \<longleftrightarrow> map_of m' ''descriptor_revision'' = map_of m ''descriptor_revision'' \<and>
     (distinct (map fst m) \<longrightarrow> distinct (map fst m')) \<and> fst ` set m \<subseteq> fst ` set m'"

definition sightings_move :: "sighting_entry list \<Rightarrow> sighting_entry list \<Rightarrow> bool" where
  "sightings_move ss ss' \<longleftrightarrow> (distinct (map sg_hardware_id ss) \<longrightarrow> distinct (map sg_hardware_id ss'))"

inductive ledger_step :: "ledger \<Rightarrow> ledger \<Rightarrow> bool" where
  register: "insert_device_row d l = Inr (u, l') \<Longrightarrow> new_entry d \<Longrightarrow> ledger_step l l'"
| move: "update_device_rows hit upd l = Inr (n, l') \<Longrightarrow> (\<And>d. hit d \<Longrightarrow> device_move d (upd d)) \<Longrightarrow> ledger_step l l'"
| measure: "insert_series_row r l = Inr (n, l') \<Longrightarrow> ledger_step l l'"
| release: "update_series_rows hit upd l = Inr (n, l') \<Longrightarrow> (\<And>r. hit r \<Longrightarrow> series_move r (upd r)) \<Longrightarrow> ledger_step l l'"
| bind: "i \<notin> fst ` set (positional_models_t l) \<Longrightarrow> i \<in> dv_system_id ` set (devices_t l) \<Longrightarrow> is_valid_model_id m \<Longrightarrow>
    ledger_step l (bump_revision (l\<lparr> positional_models_t := positional_models_t l @ [(i, m)] \<rparr>))"
| audit: "ev_event_id v = event_autoinc l + 1 \<Longrightarrow>
    ledger_step l (l\<lparr> event_autoinc := event_autoinc l + 1, ledger_events_t := ledger_events_t l @ [v] \<rparr>)"
| sight: "sightings_move (sightings_t l) ss \<Longrightarrow> ledger_step l (l\<lparr> sightings_t := ss \<rparr>)"
| meta: "meta_move (ledger_meta_t l) m \<Longrightarrow> ledger_step l (l\<lparr> ledger_meta_t := m \<rparr>)"

inductive_cases ledger_stepE: "ledger_step l l'"

section \<open>Operations refine the changes\<close>

definition reached :: "ledger \<Rightarrow> node \<Rightarrow> bool" where
  "reached l s \<longleftrightarrow> ledger_step\<^sup>*\<^sup>* l (ledger_t (tables s))"

abbreviation refines :: "ledger \<Rightarrow> (node, ledger_error, 'a) act \<Rightarrow> bool" where
  "refines l m \<equiv> triple (reached l) m (\<lambda>_. reached l) (\<lambda>_. reached l)"

lemma reached_step: "reached l s \<Longrightarrow> ledger_step (ledger_t (tables s)) l' \<Longrightarrow>
   reached l (s\<lparr> sql_step := n, tables := tables s\<lparr> ledger_t := l' \<rparr> \<rparr>)"
  by (simp add: reached_def)

lemma reached_simps [simp]:
  "reached l (s\<lparr> sql_step := n \<rparr>) = reached l s" "reached l (s\<lparr> uuid_calls := n \<rparr>) = reached l s"
  "reached l (s\<lparr> wall_reads := n \<rparr>) = reached l s"
  by (simp_all add: reached_def)

lemma refines_sql:
  assumes "\<And>k a k'. f k = Inr (a, k') \<Longrightarrow> k' = k \<or> ledger_step k k'"
  shows "refines l (ledger_sql x f)"
  unfolding ledger_sql_def
proof (intro triple_mapErr triple_sql)
  fix s a t assume "reached l s"
    and run: "(case f (ledger_t (tables s)) of Inl e \<Rightarrow> Inl e | Inr (a, k) \<Rightarrow> Inr (a, tables s\<lparr> ledger_t := k \<rparr>)) = Inr (a, t)"
  then obtain k where k: "f (ledger_t (tables s)) = Inr (a, k)" "t = tables s\<lparr> ledger_t := k \<rparr>"
    by (auto split: sum.splits)
  then consider "k = ledger_t (tables s)" | "ledger_step (ledger_t (tables s)) k" using assms by blast
  then show "reached l (s\<lparr> sql_step := Suc (sql_step s), tables := t \<rparr>)"
    using \<open>reached l s\<close> k(2) by cases (auto simp: reached_def)
qed simp

lemma refines_select: "refines l (ledger_select x f)"
  unfolding ledger_select_def by (rule refines_sql) (auto split: sum.splits)

lemma refines_reads:
  "refines l (now_ms x)" "refines l (now_v7 x)" "refines l (generate x)"
  by (auto simp: triple_def now_ms_def now_v7_def generate_def)

lemmas refines_control = triple_andThen_inv triple_If triple_case_option triple_case_prod triple_case_sum
  triple_ret triple_throw triple_liftR triple_forA refines_select refines_reads

lemma refines_record_event: "refines l (record_event x k i d)"
  unfolding record_event_def
  by (intro refines_control refines_sql) (auto simp: Let_def intro: audit)

lemma refines_move:
  "(\<And>d. hit d \<Longrightarrow> device_move d (upd d)) \<Longrightarrow> refines l (ledger_sql x (update_device_rows hit upd))"
  by (intro refines_sql) (auto intro: move)

lemma refines_series:
  "(\<And>r. hit r \<Longrightarrow> series_move r (upd r)) \<Longrightarrow> refines l (ledger_sql x (update_series_rows hit upd))"
  by (intro refines_sql) (auto intro: release)

lemma refines_insert_device: "refines l (insert_device x d)"
proof -
  have "refines l (ledger_sql x (insert_device_row \<lparr> dv_system_id = i, dv_hardware_id = nd_hardware_id d,
      dv_user_label = nd_user_label d, dv_parent_system_id = p, dv_kind = kind_as_db k, dv_state = state_as_db st,
      dv_declaration_version = None, dv_superseded_by = None, dv_created_at = now, dv_retired_at = None,
      dv_presentation_identifier = None \<rparr>))" for i p k st now
    by (intro refines_sql) (auto intro: register simp: new_entry_def)
  then show ?thesis unfolding insert_device_def
    by (intro refines_control refines_record_event) (auto simp: find_alive_by_hardware_id_def refines_select)
qed

lemma refines_ensure_series: "refines l (ensure_series x i key c v q r)"
  unfolding ensure_series_def
  by (intro refines_control refines_sql) (auto intro: measure)

lemma refines_device_moves:
  "refines l (set_presentation_identifier x i p)" "refines l (activate_device x i)" "refines l (retire_device x i)"
  "refines l (expire_one x ttl i)"
  unfolding set_presentation_identifier_def activate_device_def retire_device_def expire_one_def get_device_def
  by (intro refines_control refines_move refines_record_event; auto simp: device_move_def alive_def)+

lemma refines_expire: "refines l (expire_quarantined_devices x ttl)"
  unfolding expire_quarantined_devices_def by (intro refines_control refines_device_moves)

lemma refines_bind: "refines l (bind_positional_model x i m)"
  unfolding bind_positional_model_def
  by (intro refines_control refines_sql) (auto intro: bind split: if_splits)

lemma refines_series_moves:
  "refines l (release_series_quarantine_for_key_checked x key reason ok)" "refines l (set_calibration_review x i b)"
  unfolding release_series_quarantine_for_key_checked_def set_calibration_review_def Let_def
  by (intro refines_control refines_series; simp add: series_move_def)+

lemma refines_replace: "refines l (replace_hardware x i hw)"
  unfolding replace_hardware_def get_device_def find_alive_by_hardware_id_def retire_candidate_def
  by (intro refines_control refines_move refines_series_moves refines_record_event;
      auto simp: device_move_def superseded_def alive_def)

lemma refines_sightings:
  "refines l (record_sighting x hw src)" "refines l (purge_sightings x now)" "refines l (approve_sighting x hw lbl k)"
proof -
  have del: "refines l (ledger_sql x (\<lambda>k. delete_sightings (hit k) k))" for hit
    by (intro refines_sql) (auto simp: delete_sightings_def sightings_move_def distinct_map_filter intro!: sight)
  have "refines l (ledger_sql x (delete_sightings hit))" for hit
    using del [of "\<lambda>_. hit"] by simp
  then show "refines l (approve_sighting x hw lbl k)"
    unfolding approve_sighting_def
    by (intro refines_control refines_insert_device refines_record_event)
  show "refines l (purge_sightings x now)"
    unfolding purge_sightings_def Let_def by (intro refines_control del)
  have keys: "map sg_hardware_id (map (\<lambda>r. if sg_hardware_id r = h then f r else r) ss) = map sg_hardware_id ss"
    if "\<And>r. sg_hardware_id (f r) = sg_hardware_id r" for f ss h
    using that by simp
  show "refines l (record_sighting x hw src)"
    unfolding record_sighting_def
    by (intro refines_control refines_sql disjI2) (auto simp: sightings_move_def keys simp del: map_map intro!: sight)
qed

lemma meta_move_append: "k \<noteq> ''descriptor_revision'' \<Longrightarrow> k \<notin> fst ` set m \<Longrightarrow> meta_move m (m @ [(k, v)])"
  by (auto simp: meta_move_def map_of_append map_add_def split: option.splits)

lemma meta_move_map:
  assumes "\<And>k v. fst (f (k, v)) = k" "\<And>v. f (''descriptor_revision'', v) = (''descriptor_revision'', v)"
  shows "meta_move m (map f m)"
proof -
  have keys: "map fst (map f m) = map fst m" using assms(1) by auto
  then have "fst ` set (map f m) = fst ` set m" by (simp only: set_map [symmetric])
  moreover have "map_of (map f m) ''descriptor_revision'' = map_of m ''descriptor_revision''"
  proof (induction m)
    case (Cons p m)
    obtain k v where p: "p = (k, v)" by (cases p)
    show ?case using Cons assms(1) [of k v] assms(2) [of v] by (cases "f (k, v)") (auto simp: p)
  qed simp
  ultimately show ?thesis unfolding meta_move_def keys by simp
qed

lemma refines_meta:
  "refines l (bump_generation x)" "refines l (ledger_edge_node_id x)" "refines l (ledger_epoch x)"
  "refines l (renew_epoch x)" "refines l (install_recovery_epoch x old new)"
  unfolding bump_generation_def ledger_edge_node_id_def ledger_epoch_def renew_epoch_def install_recovery_epoch_def
    current_generation_def set_meta_def bump_meta_def
  by (intro refines_control refines_sql refines_record_event;
      auto intro!: meta meta_move_append meta_move_map split: if_splits)+

end
