(* ===== verification/Ledger_Props.thy ===== *)
theory Ledger_Props
  imports Ledger_Steps
begin

text \<open>
  What the ledger guarantees over any sequence of its operations: its well-formedness, the
  permanence of identities and of the audit log, and the descriptor revision that changes
  whenever the published descriptor does.
\<close>

section \<open>Runs of operations\<close>

datatype ledger_op =
    LSetPresentation system_id "string option"
  | LInsertDevice new_device
  | LBindModel system_id string
  | LActivate system_id
  | LRetire system_id
  | LExpire i64
  | LEnsureSeries system_id string i32 string bool "string option"
  | LRelease string string "i32 \<Rightarrow> bool"
  | LReview system_id bool
  | LReplace system_id string
  | LSighting string string
  | LPurge i64
  | LApprove string "string option" device_kind
  | LBumpGeneration
  | LEdgeNodeId
  | LEpoch
  | LRenewEpoch
  | LInstallEpoch string string
  | LEvent string "system_id option" string

fun ledger_run :: "ext \<Rightarrow> ledger_op \<Rightarrow> node \<Rightarrow> node" where
  "ledger_run x (LSetPresentation i p) s = snd (set_presentation_identifier x i p s)"
| "ledger_run x (LInsertDevice d) s = snd (insert_device x d s)"
| "ledger_run x (LBindModel i m) s = snd (bind_positional_model x i m s)"
| "ledger_run x (LActivate i) s = snd (activate_device x i s)"
| "ledger_run x (LRetire i) s = snd (retire_device x i s)"
| "ledger_run x (LExpire ttl) s = snd (expire_quarantined_devices x ttl s)"
| "ledger_run x (LEnsureSeries i k c v q r) s = snd (ensure_series x i k c v q r s)"
| "ledger_run x (LRelease k r f) s = snd (release_series_quarantine_for_key_checked x k r f s)"
| "ledger_run x (LReview i b) s = snd (set_calibration_review x i b s)"
| "ledger_run x (LReplace i hw) s = snd (replace_hardware x i hw s)"
| "ledger_run x (LSighting hw src) s = snd (record_sighting x hw src s)"
| "ledger_run x (LPurge now) s = snd (purge_sightings x now s)"
| "ledger_run x (LApprove hw lbl k) s = snd (approve_sighting x hw lbl k s)"
| "ledger_run x LBumpGeneration s = snd (bump_generation x s)"
| "ledger_run x LEdgeNodeId s = snd (ledger_edge_node_id x s)"
| "ledger_run x LEpoch s = snd (ledger_epoch x s)"
| "ledger_run x LRenewEpoch s = snd (renew_epoch x s)"
| "ledger_run x (LInstallEpoch old new) s = snd (install_recovery_epoch x old new s)"
| "ledger_run x (LEvent k i d) s = snd (record_event x k i d s)"

lemma refines_state: "refines l m \<Longrightarrow> reached l s \<Longrightarrow> reached l (snd (m s))"
  by (drule triple_state) auto

lemma reached_run: "reached l s \<Longrightarrow> reached l (ledger_run x op s)"
  by (cases op) (simp_all add: refines_state refines_device_moves refines_insert_device refines_bind refines_expire
      refines_ensure_series refines_series_moves refines_replace refines_sightings refines_meta refines_record_event)

interpretation ledger_runs: invariant_system "ledger_run x" "reached l" for x l
  by unfold_locales (rule reached_run)

abbreviation ledger_of :: "node \<Rightarrow> ledger" where
  "ledger_of s \<equiv> ledger_t (tables s)"

lemma runs_reach: "ledger_step\<^sup>*\<^sup>* (ledger_of s) (ledger_of (fold (ledger_run x) ops s))"
  using ledger_runs.run_inv [of "ledger_of s" s x ops] by (simp add: reached_def)

section \<open>The descriptor revision\<close>

definition revision :: "ledger \<Rightarrow> i64" where
  "revision l = (case meta_value ''descriptor_revision'' l of None \<Rightarrow> 0 | Some v \<Rightarrow> cast_integer v)"

text \<open>What the published descriptor shows of the ledger.\<close>

definition descriptor_view :: "ledger \<Rightarrow> (string \<times> string option \<times> string) list \<times> (string \<times> string \<times> i32 \<times> string) list \<times>
    (string \<times> string) list" where
  "descriptor_view l =
     (map (\<lambda>d. (dv_system_id d, dv_presentation_identifier d, dv_state d)) (devices_t l),
      map (\<lambda>r. (se_system_id r, se_measurement_key r, se_channel_index r, se_variant r))
        (filter (\<lambda>r. \<not> se_quarantined r) (series_t l)),
      positional_models_t l)"

lemma bump_meta_keys [simp]: "map fst (bump_meta k m) = map fst m"
  by (auto simp: bump_meta_def)

lemma bump_meta_dom [simp]: "fst ` set (bump_meta k m) = fst ` set m"
  using bump_meta_keys [of k m] by (metis list.set_map)

lemma bump_meta_value: "map_of (bump_meta k m) k = map_option (\<lambda>v. dec_int (cast_integer v + 1)) (map_of m k)"
  by (induction m) (auto simp: bump_meta_def)

lemma bump_power:
  "(bump_revision ^^ n) l = l\<lparr> ledger_meta_t := (bump_meta ''descriptor_revision'' ^^ n) (ledger_meta_t l) \<rparr>"
  by (induction n) (simp_all add: bump_revision_def)

lemma bump_power_keys [simp]:
  "map fst ((bump_meta k ^^ n) m) = map fst m" "fst ` set ((bump_meta k ^^ n) m) = fst ` set m"
  by (induction n) simp_all

lemma revision_cong: "map_of (ledger_meta_t l) ''descriptor_revision'' = map_of (ledger_meta_t k) ''descriptor_revision'' \<Longrightarrow>
   revision l = revision k"
  by (simp add: revision_def meta_value_def)

definition has_revision :: "ledger \<Rightarrow> bool" where
  "has_revision l \<longleftrightarrow> meta_value ''descriptor_revision'' l \<noteq> None"

lemma has_revision_keys: "has_revision l \<longleftrightarrow> ''descriptor_revision'' \<in> fst ` set (ledger_meta_t l)"
  by (auto simp: has_revision_def meta_value_def map_of_eq_None_iff)

lemma cast_bound: "cast_integer v \<le> i64_max"
  by (simp add: cast_integer_def clamp_i64_def Let_def i64_min_def i64_max_def)

lemma cast_lower: "i64_min \<le> cast_integer v"
  by (simp add: cast_integer_def clamp_i64_def Let_def)

lemma revision_bump:
  assumes "has_revision l"
  shows "revision (l\<lparr> ledger_meta_t := (bump_meta ''descriptor_revision'' ^^ n) (ledger_meta_t l) \<rparr>) =
    min (revision l + int n) i64_max"
proof -
  let ?m = "\<lambda>n. (bump_meta ''descriptor_revision'' ^^ n) (ledger_meta_t l)"
  obtain v where v: "map_of (ledger_meta_t l) ''descriptor_revision'' = Some v"
    using assms by (auto simp: has_revision_def meta_value_def)
  have "\<exists>w. map_of (?m n) ''descriptor_revision'' = Some w \<and> cast_integer w = min (cast_integer v + int n) i64_max"
  proof (induction n)
    case 0
    then show ?case using v cast_bound [of v] by (simp add: min_absorb1)
  next
    case (Suc n)
    then obtain w where "map_of (?m n) ''descriptor_revision'' = Some w" "cast_integer w = min (cast_integer v + int n) i64_max"
      by blast
    then show ?case using cast_lower [of v]
      by (auto simp: bump_meta_value cast_integer_dec clamp_i64_def i64_min_def i64_max_def)
  qed
  then show ?thesis using v by (auto simp: revision_def meta_value_def)
qed

text \<open>One change: the revision never falls, and it rises with the view until the counter saturates.\<close>

definition revision_tracks :: "ledger \<Rightarrow> ledger \<Rightarrow> bool" where
  "revision_tracks l l' \<longleftrightarrow> has_revision l' \<and> revision l \<le> revision l' \<and>
     (descriptor_view l' \<noteq> descriptor_view l \<longrightarrow> revision l' < i64_max \<longrightarrow> revision l < revision l')"

lemma tracks_bump:
  assumes "has_revision l" "ledger_meta_t l' = ledger_meta_t l" "n = 0 \<longrightarrow> descriptor_view l' = descriptor_view l"
  shows "revision_tracks l ((bump_revision ^^ n) l')"
proof -
  have l': "has_revision l'" "revision l' = revision l"
    using assms(1,2) by (simp_all add: has_revision_def revision_def meta_value_def)
  then have "revision ((bump_revision ^^ n) l') = min (revision l + int n) i64_max"
    by (simp add: bump_power revision_bump)
  moreover have "has_revision ((bump_revision ^^ n) l')" using l'(1) by (simp add: bump_power has_revision_keys)
  moreover have "descriptor_view ((bump_revision ^^ n) l') = descriptor_view l'"
    by (simp add: bump_power descriptor_view_def)
  moreover have "revision l \<le> i64_max" using cast_bound [unfolded i64_max_def] by (auto simp: revision_def i64_max_def split: option.splits)
  ultimately show ?thesis using assms(3) by (auto simp: revision_tracks_def)
qed

lemma view_devices:
  assumes "\<And>d. hit d \<Longrightarrow> device_move d (upd d)" "filter (\<lambda>d. hit d \<and> device_change d (upd d)) ds = []"
  shows "map (\<lambda>d. (dv_system_id d, dv_presentation_identifier d, dv_state d)) (map (\<lambda>d. if hit d then upd d else d) ds) =
    map (\<lambda>d. (dv_system_id d, dv_presentation_identifier d, dv_state d)) ds"
  using assms by (auto simp: filter_empty_conv device_change_def device_move_def)

lemma view_series:
  assumes "\<And>r. hit r \<Longrightarrow> series_move r (upd r)" "filter (\<lambda>r. hit r \<and> series_change r (upd r)) rs = []"
  shows "map (\<lambda>r. (se_system_id r, se_measurement_key r, se_channel_index r, se_variant r))
      (filter (\<lambda>r. \<not> se_quarantined r) (map (\<lambda>r. if hit r then upd r else r) rs)) =
    map (\<lambda>r. (se_system_id r, se_measurement_key r, se_channel_index r, se_variant r)) (filter (\<lambda>r. \<not> se_quarantined r) rs)"
  using assms by (induction rs) (auto simp: series_change_def split: if_splits)

lemma tracks_step:
  assumes "ledger_step l l'" "has_revision l"
  shows "revision_tracks l l'"
  using assms(1)
proof cases
  case (register d u)
  then have "l' = (bump_revision ^^ 1) (l\<lparr> devices_t := devices_t l @ [d] \<rparr>)"
    by (auto simp: insert_device_row_def split: if_splits)
  then show ?thesis using tracks_bump [OF assms(2), of _ 1] by simp
next
  case (move hit upd n)
  then obtain k where l': "l' = (bump_revision ^^ k) (l\<lparr> devices_t := map (\<lambda>d. if hit d then upd d else d) (devices_t l) \<rparr>)"
      "k = length (filter (\<lambda>d. hit d \<and> device_change d (upd d)) (devices_t l))"
    by (auto simp: update_device_rows_def Let_def split: if_splits)
  have "k = 0 \<longrightarrow> descriptor_view (l\<lparr> devices_t := map (\<lambda>d. if hit d then upd d else d) (devices_t l) \<rparr>) = descriptor_view l"
    using view_devices [of hit upd "devices_t l"] move(2) l'(2) by (simp add: descriptor_view_def)
  then show ?thesis using tracks_bump [OF assms(2), of "l\<lparr> devices_t := map (\<lambda>d. if hit d then upd d else d) (devices_t l) \<rparr>" k] l'(1) by simp
next
  case (measure r n)
  then have "l' = (bump_revision ^^ 1) (l\<lparr> series_t := series_t l @ [r\<lparr> se_series_id := n \<rparr>], series_autoinc := n \<rparr>)"
    by (auto simp: insert_series_row_def Let_def split: if_splits)
  then show ?thesis using tracks_bump [OF assms(2), of _ 1] by simp
next
  case (release hit upd n)
  then obtain k where l': "l' = (bump_revision ^^ k) (l\<lparr> series_t := map (\<lambda>r. if hit r then upd r else r) (series_t l) \<rparr>)"
      "k = length (filter (\<lambda>r. hit r \<and> series_change r (upd r)) (series_t l))"
    by (auto simp: update_series_rows_def Let_def)
  have "k = 0 \<longrightarrow> descriptor_view (l\<lparr> series_t := map (\<lambda>r. if hit r then upd r else r) (series_t l) \<rparr>) = descriptor_view l"
    using view_series [of hit upd "series_t l"] release(2) l'(2) by (simp add: descriptor_view_def)
  then show ?thesis using tracks_bump [OF assms(2), of "l\<lparr> series_t := map (\<lambda>r. if hit r then upd r else r) (series_t l) \<rparr>" k] l'(1) by simp
next
  case (bind i m)
  then have "l' = (bump_revision ^^ 1) (l\<lparr> positional_models_t := positional_models_t l @ [(i, m)] \<rparr>)" by simp
  then show ?thesis using tracks_bump [OF assms(2), of _ 1] by simp
next
  case (meta m)
  then show ?thesis using assms(2)
    by (auto simp: revision_tracks_def has_revision_def meta_value_def revision_def descriptor_view_def meta_move_def)
qed (use assms(2) in \<open>simp_all add: revision_tracks_def has_revision_def meta_value_def revision_def descriptor_view_def\<close>)

lemma tracks_steps:
  "ledger_step\<^sup>*\<^sup>* l l' \<Longrightarrow> has_revision l \<Longrightarrow> revision_tracks l l'"
proof (induction rule: rtranclp_induct)
  case base
  then show ?case by (simp add: revision_tracks_def)
next
  case (step k k')
  then have "revision_tracks l k" "has_revision k" by (auto simp: revision_tracks_def)
  with tracks_step [OF step(2)] show ?case unfolding revision_tracks_def by (metis order_trans less_le_trans le_less_trans not_less)
qed

section \<open>Well-formed ledgers\<close>

definition series_key :: "series_entry \<Rightarrow> string \<times> string \<times> i32 \<times> string" where
  "series_key r = (se_system_id r, se_measurement_key r, se_channel_index r, se_variant r)"

definition devices_ok :: "ledger \<Rightarrow> bool" where
  "devices_ok l \<longleftrightarrow> distinct (map dv_system_id (devices_t l)) \<and>
     distinct (map dv_hardware_id (filter alive (devices_t l))) \<and>
     (\<forall>d\<in>set (devices_t l). dv_kind d \<in> range kind_as_db \<and> dv_state d \<in> range state_as_db)"

definition series_ok :: "ledger \<Rightarrow> bool" where
  "series_ok l \<longleftrightarrow> distinct (map series_key (series_t l)) \<and> sorted_wrt (<) (map se_series_id (series_t l)) \<and>
     (\<forall>r\<in>set (series_t l). se_series_id r \<le> series_autoinc l \<and> se_system_id r \<in> dv_system_id ` set (devices_t l))"

definition models_ok :: "ledger \<Rightarrow> bool" where
  "models_ok l \<longleftrightarrow> distinct (map fst (positional_models_t l)) \<and>
     (\<forall>(i, m)\<in>set (positional_models_t l). i \<in> dv_system_id ` set (devices_t l) \<and> is_valid_model_id m)"

definition ledger_ok :: "ledger \<Rightarrow> bool" where
  "ledger_ok l \<longleftrightarrow> devices_ok l \<and> series_ok l \<and> models_ok l \<and> distinct (map sg_hardware_id (sightings_t l)) \<and>
     distinct (map fst (ledger_meta_t l)) \<and> has_revision l \<and>
     map ev_event_id (ledger_events_t l) = [1 .. event_autoinc l] \<and> 0 \<le> event_autoinc l"

lemma moved_ids:
  assumes "\<And>d. hit d \<Longrightarrow> device_move d (upd d)"
  shows "map dv_system_id (map (\<lambda>d. if hit d then upd d else d) ds) = map dv_system_id ds"
  using assms by (auto simp: device_move_def)

lemma moved_ids_set:
  assumes "\<And>d. hit d \<Longrightarrow> device_move d (upd d)"
  shows "dv_system_id ` set (map (\<lambda>d. if hit d then upd d else d) ds) = dv_system_id ` set ds"
  using moved_ids [OF assms] by (metis list.set_map)

lemma moved_legal:
  assumes "device_move d e" "dv_kind d \<in> range kind_as_db" "dv_state d \<in> range state_as_db"
  shows "dv_kind e \<in> range kind_as_db \<and> dv_state e \<in> range state_as_db"
proof -
  have "''active'' = state_as_db Active" "''retired'' = state_as_db Retired" by simp_all
  then have "''active'' \<in> range state_as_db" "''retired'' \<in> range state_as_db" by blast+
  then show ?thesis using assms by (auto simp: device_move_def)
qed

lemma released_keys:
  assumes "\<And>r. hit r \<Longrightarrow> series_move r (upd r)"
  shows "map series_key (map (\<lambda>r. if hit r then upd r else r) rs) = map series_key rs"
    "map se_series_id (map (\<lambda>r. if hit r then upd r else r) rs) = map se_series_id rs"
  using assms by (auto simp: series_move_def series_key_def)

lemma ledger_ok_step:
  assumes "ledger_step l l'" "ledger_ok l"
  shows "ledger_ok l'"
  using assms(1)
proof cases
  case (register d u)
  then have "l' = bump_revision (l\<lparr> devices_t := devices_t l @ [d] \<rparr>)" "dv_system_id d \<notin> dv_system_id ` set (devices_t l)"
      "alive d \<longrightarrow> (\<forall>e\<in>set (devices_t l). alive e \<longrightarrow> dv_hardware_id e \<noteq> dv_hardware_id d)"
    by (auto simp: insert_device_row_def split: if_splits)
  then show ?thesis using assms(2) register(2)
    by (auto simp: ledger_ok_def devices_ok_def series_ok_def models_ok_def new_entry_def bump_revision_def has_revision_keys)
next
  case (move hit upd n)
  let ?ds = "map (\<lambda>d. if hit d then upd d else d) (devices_t l)"
  obtain k where l': "l' = (bump_revision ^^ k) (l\<lparr> devices_t := ?ds \<rparr>)" "distinct (map dv_hardware_id (filter alive ?ds))"
    using move(1) by (auto simp: update_device_rows_def Let_def split: if_splits)
  have "dv_kind d \<in> range kind_as_db \<and> dv_state d \<in> range state_as_db" if "d \<in> set ?ds" for d
    using that moved_legal [OF move(2)] assms(2) by (auto simp: ledger_ok_def devices_ok_def)
  then show ?thesis using assms(2) l' moved_ids [of hit upd, OF move(2)] moved_ids_set [of hit upd, OF move(2)]
    by (simp add: ledger_ok_def devices_ok_def series_ok_def models_ok_def bump_power has_revision_keys del: map_map)
next
  case (measure r n)
  then have l': "l' = bump_revision (l\<lparr> series_t := series_t l @ [r\<lparr> se_series_id := n \<rparr>], series_autoinc := n \<rparr>)"
      "n = series_autoinc l + 1" "se_system_id r \<in> dv_system_id ` set (devices_t l)"
      "\<forall>q\<in>set (series_t l). \<not> series_key_match (se_system_id r) (se_measurement_key r) (se_channel_index r) (se_variant r) q"
    by (auto simp: insert_series_row_def Let_def split: if_splits)
  have "series_key r \<notin> series_key ` set (series_t l)"
    using l'(4) by (auto simp: series_key_def series_key_match_def)
  moreover have "series_key (r\<lparr> se_series_id := n \<rparr>) = series_key r" by (simp add: series_key_def)
  ultimately show ?thesis using assms(2) l'(1,2,3)
    by (fastforce simp: ledger_ok_def devices_ok_def series_ok_def models_ok_def sorted_wrt_append bump_revision_def has_revision_keys)
next
  case (release hit upd n)
  let ?rs = "map (\<lambda>r. if hit r then upd r else r) (series_t l)"
  obtain k where l': "l' = (bump_revision ^^ k) (l\<lparr> series_t := ?rs \<rparr>)"
    using release(1) by (auto simp: update_series_rows_def Let_def)
  have "se_series_id r \<le> series_autoinc l \<and> se_system_id r \<in> dv_system_id ` set (devices_t l)" if "r \<in> set ?rs" for r
    using that release(2) assms(2) by (force simp: ledger_ok_def series_ok_def series_move_def split: if_splits)
  then show ?thesis using assms(2) l' released_keys [of hit upd, OF release(2)]
    by (simp add: ledger_ok_def devices_ok_def series_ok_def models_ok_def bump_power has_revision_keys del: map_map)
next
  case (bind i m)
  then show ?thesis using assms(2)
    by (auto simp: ledger_ok_def devices_ok_def series_ok_def models_ok_def bump_revision_def has_revision_keys)
next
  case (audit v)
  then show ?thesis using assms(2)
    by (simp add: ledger_ok_def devices_ok_def series_ok_def models_ok_def has_revision_keys upto_rec2)
next
  case (sight ss)
  then show ?thesis using assms(2)
    by (simp add: ledger_ok_def devices_ok_def series_ok_def models_ok_def has_revision_keys sightings_move_def)
next
  case (meta m)
  then show ?thesis using assms(2)
    by (auto simp: ledger_ok_def devices_ok_def series_ok_def models_ok_def has_revision_def meta_value_def meta_move_def)
qed

lemma ledger_ok_steps: "ledger_step\<^sup>*\<^sup>* l l' \<Longrightarrow> ledger_ok l \<Longrightarrow> ledger_ok l'"
  by (induction rule: rtranclp_induct) (auto intro: ledger_ok_step)

lemma ledger_ok_empty: "ledger_ok empty_ledger"
  by (simp add: ledger_ok_def empty_ledger_def devices_ok_def series_ok_def models_ok_def has_revision_def meta_value_def)

section \<open>Permanence\<close>

definition state_rank :: "string \<Rightarrow> nat" where
  "state_rank st = (if st = ''retired'' then 2 else if st = ''active'' then 1 else 0)"

definition device_evolves :: "device_entry \<Rightarrow> device_entry \<Rightarrow> bool" where
  "device_evolves d e \<longleftrightarrow> dv_system_id e = dv_system_id d \<and> dv_kind e = dv_kind d \<and> dv_created_at e = dv_created_at d \<and>
     state_rank (dv_state d) \<le> state_rank (dv_state e) \<and> (\<not> alive d \<longrightarrow> dv_hardware_id e = dv_hardware_id d)"

definition permanent :: "ledger \<Rightarrow> ledger \<Rightarrow> bool" where
  "permanent l l' \<longleftrightarrow> prefix (ledger_events_t l) (ledger_events_t l') \<and>
     (\<forall>d\<in>set (devices_t l). \<exists>e\<in>set (devices_t l'). device_evolves d e) \<and>
     (\<forall>r\<in>set (series_t l). \<exists>q\<in>set (series_t l'). series_move r q)"

lemma device_move_evolves: "device_move d e \<Longrightarrow> device_evolves d e"
  by (auto simp: device_move_def device_evolves_def state_rank_def alive_def)

lemma device_evolves_refl [simp]: "device_evolves d d"
  by (simp add: device_evolves_def)

lemma series_move_refl [simp]: "series_move r r"
  by (simp add: series_move_def)

lemma device_evolves_trans: "device_evolves c d \<Longrightarrow> device_evolves d e \<Longrightarrow> device_evolves c e"
  by (auto simp: device_evolves_def alive_def state_rank_def split: if_splits)

lemma series_move_trans: "series_move r q \<Longrightarrow> series_move q p \<Longrightarrow> series_move r p"
  by (auto simp: series_move_def)

lemma permanent_trans: "permanent j k \<Longrightarrow> permanent k l \<Longrightarrow> permanent j l"
  unfolding permanent_def
  by (auto intro: prefix_order.order_trans) (meson device_evolves_trans, meson series_move_trans)

lemma permanent_same:
  assumes "prefix (ledger_events_t l) (ledger_events_t l')" "set (devices_t l) \<subseteq> set (devices_t l')"
    "set (series_t l) \<subseteq> set (series_t l')"
  shows "permanent l l'"
  using assms device_evolves_refl series_move_refl unfolding permanent_def by (meson subsetD)

lemma permanent_refl: "permanent l l"
  by (rule permanent_same) simp_all

lemma permanent_map:
  assumes "ledger_events_t l' = ledger_events_t l" "devices_t l' = map f (devices_t l)" "series_t l' = map g (series_t l)"
    "\<And>d. device_evolves d (f d)" "\<And>r. series_move r (g r)"
  shows "permanent l l'"
proof -
  have "\<exists>e\<in>set (devices_t l'). device_evolves d e" if "d \<in> set (devices_t l)" for d
    using that assms(2,4) by (intro bexI [of _ "f d"]) simp_all
  moreover have "\<exists>q\<in>set (series_t l'). series_move r q" if "r \<in> set (series_t l)" for r
    using that assms(3,5) by (intro bexI [of _ "g r"]) simp_all
  ultimately show ?thesis using assms(1) by (simp add: permanent_def)
qed

lemma permanent_step: "ledger_step l l' \<Longrightarrow> permanent l l'"
proof (induction rule: ledger_step.induct)
  case (move hit upd l n l')
  let ?f = "\<lambda>d. if hit d then upd d else d"
  obtain k where l': "l' = (bump_revision ^^ k) (l\<lparr> devices_t := map ?f (devices_t l) \<rparr>)"
    using move(1) by (auto simp: update_device_rows_def Let_def split: if_splits)
  have "device_evolves d (?f d)" for d using move(2) by (auto intro: device_move_evolves)
  then show ?case unfolding l' by (intro permanent_map [of _ _ ?f "\<lambda>r. r"]) (simp_all add: bump_power)
next
  case (release hit upd l n l')
  let ?g = "\<lambda>r. if hit r then upd r else r"
  obtain k where l': "l' = (bump_revision ^^ k) (l\<lparr> series_t := map ?g (series_t l) \<rparr>)"
    using release(1) by (auto simp: update_series_rows_def Let_def)
  have "series_move r (?g r)" for r using release(2) by auto
  then show ?case unfolding l' by (intro permanent_map [of _ _ "\<lambda>d. d" ?g]) (simp_all add: bump_power)
qed (auto simp: insert_device_row_def insert_series_row_def bump_revision_def Let_def intro!: permanent_same split: if_splits)

lemma permanent_steps: "ledger_step\<^sup>*\<^sup>* l l' \<Longrightarrow> permanent l l'"
  by (induction rule: rtranclp_induct) (auto intro: permanent_refl permanent_trans permanent_step)

section \<open>Statements that succeed\<close>

lemma ledger_sql_Inr:
  "ledger_sql x f s = (Inr a, s') \<longleftrightarrow> \<not> sql_fault x (sql_step s) \<and>
     (\<exists>l. f (ledger_of s) = Inr (a, l) \<and> s' = s\<lparr> sql_step := Suc (sql_step s), tables := tables s\<lparr> ledger_t := l \<rparr> \<rparr>)"
  by (auto simp: ledger_sql_def mapErr_def sql_def Let_def split: sum.splits prod.splits)

lemma ledger_select_Inr:
  "ledger_select x f s = (Inr a, s') \<longleftrightarrow> \<not> sql_fault x (sql_step s) \<and> f (ledger_of s) = Inr a \<and>
     s' = s\<lparr> sql_step := Suc (sql_step s) \<rparr>"
  by (auto simp: ledger_select_def ledger_sql_Inr split: sum.splits)

lemma now_ms_Inr: "now_ms x s = (Inr a, s') \<longleftrightarrow> a = wall_ms x (wall_reads s) \<and> s' = s\<lparr> wall_reads := Suc (wall_reads s) \<rparr>"
  by (auto simp: now_ms_def)

lemmas ledger_Inr = andThen_eq_Inr ledger_sql_Inr ledger_select_Inr now_ms_Inr

lemma ensure_series_row:
  assumes "ensure_series x i k c v q r s = (Inr n, s')"
  shows "\<exists>row\<in>set (series_t (ledger_of s')). se_series_id row = n \<and> series_key row = (as_bytes i, k, c, v)"
proof (cases "find_series_row i k c v (ledger_of s)")
  case None
  then show ?thesis using assms
    by (auto simp: ensure_series_def ledger_Inr insert_series_row_def Let_def bump_revision_def series_key_def split: if_splits)
next
  case (Some row)
  then show ?thesis using assms
    by (auto simp: ensure_series_def ledger_Inr find_series_row_def series_key_def series_key_match_def
        dest!: find_row_Some)
qed

lemma series_by_key:
  assumes "ledger_ok l" "row \<in> set (series_t l)" "series_key row = (as_bytes i, k, c, v)"
  shows "find_series_row i k c v l = Some row"
proof -
  have match: "series_key_match (as_bytes i) k c v q \<longleftrightarrow> series_key q = series_key row" for q
    using assms(3) by (auto simp: series_key_match_def series_key_def)
  have "find_series_row i k c v l \<noteq> None"
    using assms(2) match by (auto simp: find_series_row_def find_row_None)
  then obtain q where q: "find_series_row i k c v l = Some q" by blast
  then have "q \<in> set (series_t l)" "series_key q = series_key row"
    using match by (auto simp: find_series_row_def dest!: find_row_Some)
  moreover have "inj_on series_key (set (series_t l))"
    using assms(1) by (simp add: ledger_ok_def series_ok_def distinct_map)
  ultimately have "q = row" using assms(2) by (simp add: inj_on_eq_iff)
  then show ?thesis using q by simp
qed

section \<open>Properties\<close>

text \<open>C19: Whatever sequence of ledger operations runs on a freshly migrated database, and wherever it stops at
  an error, the ledger stays well-formed: device identifiers are unique and no two devices in
  service share a hardware id, series have unique keys and increasing ids and belong to registered
  devices, models are valid and bound once to registered devices, sightings and metadata keys are
  unique, and the audit events are numbered 1, 2, 3, ... without a gap.\<close>

theorem ledger_wellformed:
  assumes "ledger_of s = empty_ledger"
  shows "ledger_ok (ledger_of (fold (ledger_run x) ops s))"
  using ledger_ok_steps [OF runs_reach] assms ledger_ok_empty by metis

definition demo_ledger_node :: node where
  "demo_ledger_node = \<lparr> tables = empty_tables, sql_step = 0, uuid_calls = 0, wall_reads = 0 \<rparr>"

definition demo_sid :: system_id where
  "demo_sid = SystemId (uuid_v7_bytes demo_ext 0)"

definition demo_ledger_ops :: "ledger_op list" where
  "demo_ledger_ops = [LSighting ''hw-1'' ''http'', LApprove ''hw-1'' None Individual, LActivate demo_sid,
     LEnsureSeries demo_sid ''temperature'' CHANNEL_NA DEFAULT_VARIANT False None, LRetire demo_sid]"

theorem ledger_wellformed_witness:
  "length (ledger_events_t (ledger_of (fold (ledger_run demo_ext) demo_ledger_ops demo_ledger_node))) = 4 \<and>
   ledger_ok (ledger_of (fold (ledger_run demo_ext) demo_ledger_ops demo_ledger_node))"
proof
  show "length (ledger_events_t (ledger_of (fold (ledger_run demo_ext) demo_ledger_ops demo_ledger_node))) = 4"
    by code_simp
  show "ledger_ok (ledger_of (fold (ledger_run demo_ext) demo_ledger_ops demo_ledger_node))"
    by (rule ledger_wellformed) (simp add: demo_ledger_node_def empty_tables_def)
qed

text \<open>C20: Identities and the audit log are permanent: no operation removes or rewrites an audit event, no
  device or series is ever deleted or changes its identity, a device only moves from quarantined
  over active to retired, and a retired device stays retired under the hardware id it had.\<close>

theorem ledger_permanent:
  fixes x :: ext and s :: node and ops :: "ledger_op list"
  defines "l \<equiv> ledger_of s" and "l' \<equiv> ledger_of (fold (ledger_run x) ops s)"
  shows "prefix (ledger_events_t l) (ledger_events_t l') \<and>
    (\<forall>d\<in>set (devices_t l). \<exists>e\<in>set (devices_t l'). dv_system_id e = dv_system_id d \<and>
       state_rank (dv_state d) \<le> state_rank (dv_state e) \<and>
       (dv_state d = ''retired'' \<longrightarrow> dv_state e = ''retired'' \<and> dv_hardware_id e = dv_hardware_id d)) \<and>
    (\<forall>r\<in>set (series_t l). \<exists>q\<in>set (series_t l'). se_series_id q = se_series_id r \<and> series_key q = series_key r)"
proof -
  have perm: "permanent l l'" unfolding l_def l'_def by (rule permanent_steps [OF runs_reach])
  have dev: "dv_system_id e = dv_system_id d \<and> state_rank (dv_state d) \<le> state_rank (dv_state e) \<and>
       (dv_state d = ''retired'' \<longrightarrow> dv_state e = ''retired'' \<and> dv_hardware_id e = dv_hardware_id d)"
    if "device_evolves d e" for d e
    using that by (auto simp: device_evolves_def alive_def state_rank_def split: if_splits)
  have ser: "se_series_id q = se_series_id r \<and> series_key q = series_key r" if "series_move r q" for r q
    using that by (simp add: series_move_def series_key_def)
  show ?thesis using perm dev ser unfolding permanent_def by meson
qed

theorem ledger_permanent_witness:
  "let s = fold (ledger_run demo_ext) demo_ledger_ops demo_ledger_node in
   \<exists>d\<in>set (devices_t (ledger_of s)). \<exists>e\<in>set (devices_t (ledger_of (ledger_run demo_ext (LActivate demo_sid) s))).
     dv_state d = ''retired'' \<and> dv_state e = ''retired''"
proof -
  let ?s = "fold (ledger_run demo_ext) demo_ledger_ops demo_ledger_node"
  have "map dv_state (devices_t (ledger_of ?s)) = [''retired'']" by code_simp
  then obtain d where "d \<in> set (devices_t (ledger_of ?s))" "dv_state d = ''retired''" by (auto simp: map_eq_Cons_conv)
  then show ?thesis using ledger_permanent [of ?s demo_ext "[LActivate demo_sid]"] by (simp add: Let_def) blast
qed

text \<open>C21: The descriptor revision tracks the published descriptor: it never falls, and whenever a sequence of
  operations changes what the descriptor shows of the devices, their models or the series out of
  quarantine, the revision has strictly increased (while the counter is below the largest 64-bit
  integer). A reader that compares revisions therefore never keeps a stale descriptor.\<close>

theorem descriptor_revision_tracks:
  fixes x :: ext and s :: node and ops :: "ledger_op list"
  defines "l \<equiv> ledger_of s" and "l' \<equiv> ledger_of (fold (ledger_run x) ops s)"
  assumes "has_revision l" "revision l' < i64_max"
  shows "revision l \<le> revision l' \<and> (descriptor_view l' \<noteq> descriptor_view l \<longrightarrow> revision l < revision l')"
  using tracks_steps [OF runs_reach [of s x ops]] assms by (simp add: revision_tracks_def)

theorem descriptor_revision_tracks_witness:
  "let s = fold (ledger_run demo_ext) demo_ledger_ops demo_ledger_node in
   descriptor_view (ledger_of s) \<noteq> descriptor_view (ledger_of demo_ledger_node) \<and>
   revision (ledger_of demo_ledger_node) < revision (ledger_of s)"
proof -
  let ?s = "fold (ledger_run demo_ext) demo_ledger_ops demo_ledger_node"
  have "has_revision (ledger_of demo_ledger_node)" by code_simp
  moreover have "revision (ledger_of ?s) < i64_max" by code_simp
  moreover have "descriptor_view (ledger_of ?s) \<noteq> descriptor_view (ledger_of demo_ledger_node)" by code_simp
  ultimately show ?thesis
    using descriptor_revision_tracks [of demo_ledger_node demo_ext demo_ledger_ops] by (simp add: Let_def)
qed

text \<open>C22: Series ids are stable: once a series id has been assigned to a device, measurement key, channel and
  variant, every later request for them returns that id and changes nothing, whatever operations
  ran in between and whatever quarantine the request asks for; and no other series has that id.\<close>

theorem ensure_series_stable:
  assumes "ledger_ok (ledger_of s)" "ensure_series x i k c v q r s = (Inr n, s1)"
    "ensure_series x i k c v q' r' (fold (ledger_run x) ops s1) = (Inr m, s3)"
  defines "s2 \<equiv> fold (ledger_run x) ops s1"
  shows "m = n \<and> ledger_of s3 = ledger_of s2 \<and>
    (\<forall>row\<in>set (series_t (ledger_of s2)). se_series_id row = n \<longrightarrow> series_key row = (as_bytes i, k, c, v))"
proof -
  have steps1: "ledger_step\<^sup>*\<^sup>* (ledger_of s) (ledger_of s1)"
    using refines_state [OF refines_ensure_series, of "ledger_of s" s x i k c v q r] assms(2) by (simp add: reached_def)
  have ok1: "ledger_ok (ledger_of s1)" by (rule ledger_ok_steps [OF steps1 assms(1)])
  have ok2: "ledger_ok (ledger_of s2)" unfolding s2_def by (rule ledger_ok_steps [OF runs_reach ok1])
  obtain row where row: "row \<in> set (series_t (ledger_of s1))" "se_series_id row = n" "series_key row = (as_bytes i, k, c, v)"
    using ensure_series_row [OF assms(2)] by blast
  have "permanent (ledger_of s1) (ledger_of s2)" unfolding s2_def by (rule permanent_steps [OF runs_reach])
  then obtain row' where row': "row' \<in> set (series_t (ledger_of s2))" "series_move row row'"
    using row(1) unfolding permanent_def by blast
  then have same: "se_series_id row' = n" "series_key row' = (as_bytes i, k, c, v)"
    using row(2,3) by (auto simp: series_move_def series_key_def)
  have "find_series_row i k c v (ledger_of s2) = Some row'" by (rule series_by_key [OF ok2 row'(1) same(2)])
  then have "m = n \<and> ledger_of s3 = ledger_of s2"
    using assms(3) same(1) unfolding s2_def by (auto simp: ensure_series_def ledger_Inr)
  moreover have "inj_on se_series_id (set (series_t (ledger_of s2)))"
    using ok2 by (simp add: ledger_ok_def series_ok_def strict_sorted_iff distinct_map)
  ultimately show ?thesis using row'(1) same by (metis inj_onD)
qed

theorem ensure_series_stable_witness:
  "let s = fold (ledger_run demo_ext) (take 3 demo_ledger_ops) demo_ledger_node;
       first = ensure_series demo_ext demo_sid ''temperature'' CHANNEL_NA DEFAULT_VARIANT False None s;
       again = ensure_series demo_ext demo_sid ''temperature'' CHANNEL_NA DEFAULT_VARIANT True (Some ''unknown_key'')
         (ledger_run demo_ext (LRetire demo_sid) (snd first))
   in fst first = Inr 1 \<and> fst again = Inr 1"
proof -
  let ?s = "fold (ledger_run demo_ext) (take 3 demo_ledger_ops) demo_ledger_node"
  let ?f = "ensure_series demo_ext demo_sid ''temperature'' CHANNEL_NA DEFAULT_VARIANT False None"
  let ?g = "ensure_series demo_ext demo_sid ''temperature'' CHANNEL_NA DEFAULT_VARIANT True (Some ''unknown_key'')"
  let ?t = "fold (ledger_run demo_ext) [LRetire demo_sid] (snd (?f ?s))"
  have ok: "ledger_ok (ledger_of ?s)"
    by (rule ledger_ok_steps [OF runs_reach]) (simp add: demo_ledger_node_def empty_tables_def ledger_ok_empty)
  have first: "fst (?f ?s) = Inr 1" by code_simp
  moreover have "\<not> isl (fst (?g ?t))" by code_simp
  then obtain m where m: "fst (?g ?t) = Inr m" by (cases "fst (?g ?t)") auto
  ultimately have "m = 1"
    using ensure_series_stable [OF ok, of demo_ext demo_sid "''temperature''" CHANNEL_NA DEFAULT_VARIANT False None 1 "snd (?f ?s)"
        True "Some ''unknown_key''" "[LRetire demo_sid]" m "snd (?g ?t)"] by (simp add: prod_eq_iff)
  then show ?thesis using first m by (simp add: Let_def)
qed

end
