(* ===== verification/Ledger_Effects.thy ===== *)
theory Ledger_Effects
  imports Ledger_Props "HOL-Library.Multiset"
begin

text \<open>
  What single functions of the ledger compute: series keys and their parser, the grammar of model
  identifiers, the replacement of a device's hardware, and the bound on sightings.
\<close>

section \<open>Model identifiers\<close>

definition model_char :: "char \<Rightarrow> bool" where
  "model_char c \<longleftrightarrow> is_ascii_lowercase (byte c) \<or> is_ascii_digit (byte c)"

definition model_sep :: "char \<Rightarrow> bool" where
  "model_sep c \<longleftrightarrow> c \<in> {CHR ''-'', CHR ''_'', CHR ''.''}"

lemma sep_not_char: "model_sep c \<Longrightarrow> \<not> model_char c"
  by (auto simp: model_sep_def model_char_def is_ascii_lowercase_def is_ascii_digit_def byte_def)

lemma nth_Cons_all: "(\<forall>i. Suc i < length (b # bs) \<longrightarrow> P ((b # bs) ! i) ((b # bs) ! Suc i)) \<longleftrightarrow>
   (bs \<noteq> [] \<longrightarrow> P b (hd bs)) \<and> (\<forall>i. Suc i < length bs \<longrightarrow> P (bs ! i) (bs ! Suc i))"
  by (auto simp: nth_Cons hd_conv_nth split: nat.splits)

text \<open>The scan accepts exactly the words without a leading, trailing or doubled separator.\<close>

lemma model_id_rest_iff:
  "model_id_rest sep bs \<longleftrightarrow> (\<forall>b\<in>set bs. model_char b \<or> model_sep b) \<and>
     (sep \<longrightarrow> bs \<noteq> [] \<and> \<not> model_sep (hd bs)) \<and> (bs \<noteq> [] \<longrightarrow> \<not> model_sep (last bs)) \<and>
     (\<forall>i. Suc i < length bs \<longrightarrow> \<not> (model_sep (bs ! i) \<and> model_sep (bs ! Suc i)))"
proof (induction bs arbitrary: sep)
  case (Cons b bs)
  note unf = nth_Cons_all [of b bs "\<lambda>c d. \<not> (model_sep c \<and> model_sep d)"]
  consider (char) "model_char b" | (sep) "model_sep b" "\<not> model_char b" | (none) "\<not> model_sep b" "\<not> model_char b"
    using sep_not_char by blast
  then show ?case
  proof cases
    case char
    then have "\<not> model_sep b" using sep_not_char by blast
    then show ?thesis using Cons [of False] char unfolding unf by (simp add: model_char_def)
  next
    case sep
    then show ?thesis using Cons [of True] unfolding unf by (auto simp: model_char_def model_sep_def)
  next
    case none
    then show ?thesis by (auto simp: model_char_def model_sep_def)
  qed
qed simp

section \<open>Successful statements\<close>

lemma update_devices_Inr:
  assumes "ledger_sql x (update_device_rows hit upd) s = (Inr n, s')"
  shows "devices_t (ledger_of s') = map (\<lambda>d. if hit d then upd d else d) (devices_t (ledger_of s)) \<and>
    series_t (ledger_of s') = series_t (ledger_of s) \<and> ledger_events_t (ledger_of s') = ledger_events_t (ledger_of s) \<and>
    wall_reads s' = wall_reads s"
  using assms by (auto simp: ledger_sql_Inr update_device_rows_def Let_def bump_power split: if_splits)

lemma review_Inr:
  assumes "set_calibration_review x i b s = (Inr n, s')"
  shows "devices_t (ledger_of s') = devices_t (ledger_of s) \<and>
    series_t (ledger_of s') = map (\<lambda>r. if se_system_id r = as_bytes i then r\<lparr> se_calibration_review := b \<rparr> else r)
      (series_t (ledger_of s)) \<and> ledger_events_t (ledger_of s') = ledger_events_t (ledger_of s)"
  using assms by (auto simp: set_calibration_review_def ledger_sql_Inr update_series_rows_def Let_def bump_power)

lemma record_event_Inr:
  assumes "record_event x k i d s = (Inr u, s')"
  shows "devices_t (ledger_of s') = devices_t (ledger_of s) \<and> series_t (ledger_of s') = series_t (ledger_of s) \<and>
    (\<exists>v. ledger_events_t (ledger_of s') = ledger_events_t (ledger_of s) @ [v] \<and> ev_kind v = k \<and>
       ev_system_id v = map_option as_bytes i)"
  using assms by (auto simp: record_event_def ledger_Inr Let_def)

lemma row_to_device_Inr:
  assumes "row_to_device d = Inr r"
  shows "de_system_id r = SystemId (dv_system_id d)" "de_hardware_id r = dv_hardware_id d"
    "de_state r = Retired \<longleftrightarrow> \<not> alive d"
  using assms by (auto simp: row_to_device_def system_id_from_blob_def state_from_db_def alive_def split: sum.splits if_splits)

lemma find_device_Inr:
  assumes "ledger_select x (\<lambda>l. first_row row_to_device (find_row p (devices_t l))) s = (Inr r, s')"
  shows "ledger_of s' = ledger_of s \<and> wall_reads s' = wall_reads s \<and>
    (case r of None \<Rightarrow> \<forall>d\<in>set (devices_t (ledger_of s)). \<not> p d
     | Some c \<Rightarrow> \<exists>d\<in>set (devices_t (ledger_of s)). p d \<and> row_to_device d = Inr c)"
  using assms
  by (auto simp: ledger_select_Inr first_row_def find_row_None split: option.splits sum.splits dest!: find_row_Some)

section \<open>Replacing hardware\<close>

text \<open>The device in service with the new hardware id, if any, is the one that is retired.\<close>

lemma supersede_map:
  assumes "inj_on dv_system_id (set ds)" "inj_on dv_hardware_id (set (filter alive ds))"
    "d1 \<in> set ds" "alive d1" "dv_hardware_id d1 = hw" "dv_system_id d1 \<noteq> j"
  shows "map (\<lambda>d. if dv_system_id d = dv_system_id d1 \<and> alive d then g d else d) ds =
    map (\<lambda>d. if dv_system_id d \<noteq> j \<and> alive d \<and> dv_hardware_id d = hw then g d else d) ds"
proof (rule map_cong [OF refl])
  fix d assume d: "d \<in> set ds"
  have "dv_system_id d = dv_system_id d1 \<longleftrightarrow> d = d1" using d assms(1,3) by (auto dest: inj_onD)
  moreover have "dv_hardware_id d = hw \<longleftrightarrow> d = d1" if "alive d"
    using that d assms(2-5) by (auto dest: inj_onD)
  ultimately show "(if dv_system_id d = dv_system_id d1 \<and> alive d then g d else d) =
      (if dv_system_id d \<noteq> j \<and> alive d \<and> dv_hardware_id d = hw then g d else d)"
    using assms(6) by auto
qed

lemma retire_candidate_Inr:
  assumes "find_alive_by_hardware_id x hw s = (Inr cand, s3)" "devices_ok (ledger_of s)"
    "\<And>d. d \<in> set (devices_t (ledger_of s)) \<Longrightarrow> dv_system_id d = as_bytes i \<Longrightarrow> dv_hardware_id d \<noteq> hw"
    "retire_candidate x i now cand s3 = (Inr retired, s4)"
  shows "devices_t (ledger_of s4) = map (\<lambda>d. if dv_system_id d \<noteq> as_bytes i \<and> alive d \<and> dv_hardware_id d = hw
      then superseded i now d else d) (devices_t (ledger_of s)) \<and>
    series_t (ledger_of s4) = series_t (ledger_of s) \<and> ledger_events_t (ledger_of s4) = ledger_events_t (ledger_of s)"
proof -
  let ?ds = "devices_t (ledger_of s)"
  note found = find_device_Inr [OF assms(1) [unfolded find_alive_by_hardware_id_def]]
  show ?thesis
  proof (cases cand)
    case None
    then have "\<forall>d\<in>set ?ds. \<not> (dv_hardware_id d = hw \<and> alive d)" using found by simp
    then have "map (\<lambda>d. if dv_system_id d \<noteq> as_bytes i \<and> alive d \<and> dv_hardware_id d = hw then superseded i now d else d) ?ds = ?ds"
      by (intro map_idI) auto
    then show ?thesis using None found assms(4) by (simp add: retire_candidate_def)
  next
    case (Some c)
    then obtain d1 where d1: "d1 \<in> set ?ds" "alive d1" "dv_hardware_id d1 = hw" "row_to_device d1 = Inr c" using found by auto
    have c: "as_bytes (de_system_id c) = dv_system_id d1" using row_to_device_Inr(1) [OF d1(4)] by simp
    have ne: "dv_system_id d1 \<noteq> as_bytes i" using assms(3) d1 by blast
    then have "de_system_id c \<noteq> i" using c by auto
    then obtain n where upd: "ledger_sql x (update_device_rows (\<lambda>d. dv_system_id d = dv_system_id d1 \<and> alive d) (superseded i now)) s3 = (Inr n, s4)"
      using assms(4) Some c by (auto simp: retire_candidate_def andThen_eq_Inr)
    have "inj_on dv_system_id (set ?ds)" "inj_on dv_hardware_id (set (filter alive ?ds))"
      using assms(2) by (simp_all add: devices_ok_def distinct_map)
    from supersede_map [OF this d1(1-3) ne, of "superseded i now"] update_devices_Inr [OF upd] found
    show ?thesis by simp
  qed
qed

lemma replace_hardware_Inr:
  assumes "replace_hardware x i hw s = (Inr out, s')"
  obtains target s1 cand s3 retired s4 n s5 m s6 detail u where
    "get_device x i s = (Inr (Some target), s1)" "de_state target \<noteq> Retired" "de_hardware_id target \<noteq> hw"
    "find_alive_by_hardware_id x hw (s1\<lparr> wall_reads := Suc (wall_reads s1) \<rparr>) = (Inr cand, s3)"
    "retire_candidate x i (wall_ms x (wall_reads s1)) cand s3 = (Inr retired, s4)"
    "ledger_sql x (update_device_rows (\<lambda>d. dv_system_id d = as_bytes i \<and> alive d) (\<lambda>d. d\<lparr> dv_hardware_id := hw \<rparr>)) s4 = (Inr n, s5)"
    "set_calibration_review x i True s5 = (Inr m, s6)"
    "record_event x ''hardware_replaced'' (Some i) detail s6 = (Inr u, s')"
  using assms
  by (auto simp: replace_hardware_def andThen_eq_Inr now_ms_Inr split: option.splits if_splits)

section \<open>Sightings\<close>

lemma length_filter_sort: "length (filter P (sort_key f xs)) = length (filter P xs)"
  by (metis mset_filter mset_sort size_mset)

lemma within_cap: "length (filter (\<lambda>r. sg_hardware_id r \<notin> beyond_cap l) (sightings_t l)) \<le> SIGHTINGS_CAP"
proof -
  let ?sorted = "sort_key recency (sightings_t l)" and ?P = "\<lambda>r. sg_hardware_id r \<notin> beyond_cap l"
  have "filter ?P (drop SIGHTINGS_CAP ?sorted) = []" by (auto simp: filter_empty_conv beyond_cap_def)
  moreover have "filter ?P ?sorted = filter ?P (take SIGHTINGS_CAP ?sorted) @ filter ?P (drop SIGHTINGS_CAP ?sorted)"
    by (metis append_take_drop_id filter_append)
  ultimately have "length (filter ?P ?sorted) = length (filter ?P (take SIGHTINGS_CAP ?sorted))" by simp
  also have "\<dots> \<le> SIGHTINGS_CAP" by (rule order_trans [OF length_filter_le]) simp
  finally show ?thesis by (simp add: length_filter_sort)
qed

lemma length_filter_disj: "length (filter (\<lambda>r. P r \<or> Q r) xs) \<le> length (filter P xs) + length (filter Q xs)"
  by (induction xs) auto

lemma length_staged:
  assumes "distinct (map sg_hardware_id ss)"
  shows "length (filter (\<lambda>r. sg_hardware_id r \<in> set hs) ss) \<le> card (set hs)"
proof -
  let ?fs = "filter (\<lambda>r. sg_hardware_id r \<in> set hs) ss"
  have "distinct (map sg_hardware_id ?fs)" using assms by (rule distinct_map_filter)
  then have "length ?fs = card (set (map sg_hardware_id ?fs))" by (metis distinct_card length_map)
  also have "\<dots> \<le> card (set hs)" by (rule card_mono) auto
  finally show ?thesis .
qed

definition staged_ids :: "ledger \<Rightarrow> string list" where
  "staged_ids l = (case staged_readings_t l of None \<Rightarrow> [] | Some rs \<Rightarrow> map st_hardware_id rs)"

lemma purge_Inr:
  assumes "purge_sightings x now s = (Inr n, s')"
  obtains l1 where "sightings_t l1 = filter (\<lambda>r. sg_hardware_id r \<in> set (staged_ids (ledger_of s)) \<or>
        saturating_sub now SIGHTINGS_TTL_MS \<le> sg_last_seen r) (sightings_t (ledger_of s))"
    "sightings_t (ledger_of s') = filter (\<lambda>r. sg_hardware_id r \<notin> beyond_cap l1 \<or>
        sg_hardware_id r \<in> set (staged_ids (ledger_of s))) (sightings_t l1)"
    "length (sightings_t (ledger_of s')) + n = length (sightings_t (ledger_of s))"
proof -
  let ?l = "ledger_of s"
  define b where "b \<longleftrightarrow> staged_readings_t ?l \<noteq> None"
  let ?hit1 = "\<lambda>r. sg_last_seen r < saturating_sub now SIGHTINGS_TTL_MS \<and> unstaged b ?l r"
  let ?l1 = "?l\<lparr> sightings_t := filter (\<lambda>r. \<not> ?hit1 r) (sightings_t ?l) \<rparr>"
  let ?hit2 = "\<lambda>r. sg_hardware_id r \<in> beyond_cap ?l1 \<and> unstaged b ?l1 r"
  have st: "sightings_t (ledger_of s') = filter (\<lambda>r. \<not> ?hit2 r) (sightings_t ?l1)"
      "n = length (filter ?hit1 (sightings_t ?l)) + length (filter ?hit2 (sightings_t ?l1))"
    using assms by (auto simp: purge_sightings_def delete_sightings_def ledger_Inr Let_def b_def)
  have un: "unstaged b k r \<longleftrightarrow> sg_hardware_id r \<notin> set (staged_ids ?l)"
    if "staged_readings_t k = staged_readings_t ?l" for k r
    using that by (auto simp: unstaged_def staged_ids_def b_def split: option.splits)
  show ?thesis
  proof (rule that [of ?l1])
    show "sightings_t ?l1 = filter (\<lambda>r. sg_hardware_id r \<in> set (staged_ids ?l) \<or>
        saturating_sub now SIGHTINGS_TTL_MS \<le> sg_last_seen r) (sightings_t ?l)"
      by (auto simp: un [of ?l, OF refl] not_less intro!: filter_cong)
    show "sightings_t (ledger_of s') = filter (\<lambda>r. sg_hardware_id r \<notin> beyond_cap ?l1 \<or>
        sg_hardware_id r \<in> set (staged_ids ?l)) (sightings_t ?l1)"
      unfolding st(1) by (rule filter_cong) (simp_all add: un)
    show "length (sightings_t (ledger_of s')) + n = length (sightings_t ?l)"
      unfolding st using sum_length_filter_compl [of ?hit2 "sightings_t ?l1"] sum_length_filter_compl [of ?hit1 "sightings_t ?l"]
      by simp
  qed
qed

section \<open>Properties\<close>

text \<open>C26: The byte scan that validates a model identifier accepts exactly the words of 1 to 64 bytes over
  lower-case letters, digits and the separators \<^verbatim>\<open>-\<close>, \<^verbatim>\<open>_\<close>, \<^verbatim>\<open>.\<close> that start with a
  letter, do not end with a separator and have no two separators in a row.\<close>

theorem is_valid_model_id_iff:
  "is_valid_model_id s \<longleftrightarrow> s \<noteq> [] \<and> length s \<le> 64 \<and> is_ascii_lowercase (byte (hd s)) \<and>
     (\<forall>b\<in>set s. model_char b \<or> model_sep b) \<and> \<not> model_sep (last s) \<and>
     (\<forall>i. Suc i < length s \<longrightarrow> \<not> (model_sep (s ! i) \<and> model_sep (s ! Suc i)))"
proof (cases s)
  case (Cons b bs)
  note unf = nth_Cons_all [of b bs "\<lambda>c d. \<not> (model_sep c \<and> model_sep d)"]
  show ?thesis
  proof (cases "is_ascii_lowercase (byte b)")
    case True
    then have "model_char b" "\<not> model_sep b" using sep_not_char by (auto simp: model_char_def)
    then show ?thesis using True unfolding Cons unf by (auto simp: is_valid_model_id_def model_id_rest_iff)
  qed (simp add: Cons is_valid_model_id_def)
qed (simp add: is_valid_model_id_def)

theorem is_valid_model_id_iff_witness:
  "is_valid_model_id ''mcp9600-k.v2'' \<and> \<not> model_sep (last ''mcp9600-k.v2'') \<and> \<not> is_valid_model_id ''mcp--9600''"
proof -
  have "is_valid_model_id ''mcp9600-k.v2''" "\<not> is_valid_model_id ''mcp--9600''" by code_simp+
  then show ?thesis using is_valid_model_id_iff [of "''mcp9600-k.v2''"] by blast
qed

text \<open>C25: Series keys round-trip: for a UUID library whose parser reads back its own texts (which have no
  colon), parsing the key of a device, measurement key, channel and variant gives back these four,
  whenever the measurement key and the variant have no colon and the channel is a 32-bit integer.
  Distinct series therefore have distinct keys.\<close>

theorem series_key_roundtrip:
  assumes "uuid_parse_str x (to_text x i) = Some (as_bytes i)" "CHR '':'' \<notin> set (to_text x i)"
    "CHR '':'' \<notin> set k" "CHR '':'' \<notin> set v" "- (2 ^ 31) \<le> c" "c < 2 ^ 31"
  shows "parse_series_key x (series_key_of x i k c v) =
    Inr \<lparr> pk_system_id = i, pk_measurement_key = k, pk_channel_index = c, pk_variant = v \<rparr>"
proof -
  let ?c = "if c = CHANNEL_NA then ''na'' else dec_int c"
  have "CHR '':'' \<notin> set ?c" by simp
  then have "split_on CHR '':'' (series_key_of x i k c v) = [to_text x i, k, ?c, v]"
    using assms(2-4) by (simp add: series_key_of_def split_on_append split_on_free)
  moreover have "(if ?c = ''na'' then Some CHANNEL_NA else parse_i32 ?c) = Some c"
    using parse_i32_dec [OF assms(5,6)] by simp
  moreover have "from_text x (to_text x i) = Inr i" using assms(1) by (simp add: from_text_def)
  ultimately show ?thesis by (simp add: parse_series_key_def)
qed

theorem series_key_roundtrip_witness:
  "parse_series_key demo_ext (series_key_of demo_ext demo_sid ''temperature'' 3 ''primary'') =
    Inr \<lparr> pk_system_id = demo_sid, pk_measurement_key = ''temperature'', pk_channel_index = 3, pk_variant = ''primary'' \<rparr>"
proof (rule series_key_roundtrip)
  show "uuid_parse_str demo_ext (to_text demo_ext demo_sid) = Some (as_bytes demo_sid)" by code_simp
  show "CHR '':'' \<notin> set (to_text demo_ext demo_sid)" by code_simp
qed simp_all


definition demo_two_devices :: node where
  "demo_two_devices = fold (ledger_run demo_ext) [LSighting ''hw-1'' ''http'', LApprove ''hw-1'' None Individual,
    LSighting ''hw-2'' ''http'', LApprove ''hw-2'' None Individual] demo_ledger_node"




end
