(* ===== verification/Faults.thy ===== *)
theory Faults
  imports Wire
begin

text \<open>
  Device status and faults (\<^verbatim>\<open>edge-node/core/pipeline/src/status.rs\<close>,
  \<^verbatim>\<open>faults.rs\<close>): the status topic and payload, the fault list it carries, and the
  in-memory fault records of the device and of the pipelines.
\<close>

section \<open>Status\<close>

definition status_topic :: "edge_node_id \<Rightarrow> string" where
  "status_topic node = ''iotkit/v1/edge-node/'' @ edge_node_id_str node @ ''/status''"

datatype status_value = Online | Degraded | Offline

fun status_key :: "status_value \<Rightarrow> string" where
  "status_key Online = ''online''"
| "status_key Degraded = ''degraded''"
| "status_key Offline = ''offline''"

datatype interface_open_reason = NotFoundReason | PermissionDenied | Busy | IoError

fun reason_key :: "interface_open_reason \<Rightarrow> string" where
  "reason_key NotFoundReason = ''not-found''"
| "reason_key PermissionDenied = ''permission-denied''"
| "reason_key Busy = ''busy''"
| "reason_key IoError = ''io-error''"

text \<open>The kinds of \<^verbatim>\<open>std::io::ErrorKind\<close> the code tells apart.\<close>

datatype io_kind = IoNotFound | IoPermissionDenied | IoResourceBusy | IoAddrInUse | IoWouldBlock | IoOther

fun from_io_kind :: "io_kind \<Rightarrow> interface_open_reason" where
  "from_io_kind IoNotFound = NotFoundReason"
| "from_io_kind IoPermissionDenied = PermissionDenied"
| "from_io_kind IoResourceBusy = Busy"
| "from_io_kind IoAddrInUse = Busy"
| "from_io_kind IoWouldBlock = Busy"
| "from_io_kind IoOther = IoError"

datatype fault_kind = StorageWriteFailed u64 | InterfaceOpenFailed string interface_open_reason

record fault =
  fa_kind :: fault_kind
  fa_since :: input_time
  fa_detail :: "string option"

record status =
  su_at :: input_time
  su_value :: status_value
  su_faults :: "fault list"

definition fault_json :: "fault \<Rightarrow> json" where
  "fault_json f =
     (let (kind, count, adapter, reason) = (case fa_kind f of
         StorageWriteFailed n \<Rightarrow> (''storage-write-failed'', Some n, None, None)
       | InterfaceOpenFailed a r \<Rightarrow> (''interface-open-failed'', None, Some a, Some (reason_key r)))
      in JObj (
        [(''kind'', JStr kind),
         (''since_uptime_ms'', JInt (uptime_ms (fa_since f))),
         (''since_unix_epoch_ms'', json_opt JInt (unix_epoch_ms (fa_since f)))] @
        json_skip ''count'' json_int count @ json_skip ''adapter'' JStr adapter @
        json_skip ''reason'' JStr reason @ json_skip ''detail'' JStr (fa_detail f)))"

definition status_json :: "status \<Rightarrow> json" where
  "status_json s = JObj [
     (''uptime_ms'', JInt (uptime_ms (su_at s))),
     (''unix_epoch_ms'', json_opt JInt (unix_epoch_ms (su_at s))),
     (''value'', JStr (status_key (su_value s))),
     (''faults'', JArr (map fault_json (su_faults s)))]"

definition status_payload :: "ext \<Rightarrow> status \<Rightarrow> string" where
  "status_payload x s = json_text x (status_json s)"

definition quoted :: "string \<Rightarrow> string" where
  "quoted s = [CHR 0x22] @ s @ [CHR 0x22]"

definition WILL_PAYLOAD :: string where
  "WILL_PAYLOAD = ''{'' @ quoted ''uptime_ms'' @ '':null,'' @ quoted ''unix_epoch_ms'' @ '':null,'' @
     quoted ''value'' @ '':'' @ quoted ''offline'' @ ''}''"

section \<open>Device faults\<close>

definition MAX_FAULT_DETAIL_BYTES :: nat where
  "MAX_FAULT_DETAIL_BYTES = 200"

text \<open>The loop that steps back to a character boundary; position 0 is one.\<close>

fun boundary_before :: "string \<Rightarrow> nat \<Rightarrow> nat" where
  "boundary_before s 0 = 0"
| "boundary_before s (Suc n) = (if is_char_boundary s (Suc n) then Suc n else boundary_before s n)"

definition truncate_detail :: "string \<Rightarrow> string" where
  "truncate_detail s =
     (if MAX_FAULT_DETAIL_BYTES < length s then take (boundary_before s MAX_FAULT_DETAIL_BYTES) s else s)"

record storage_write_fault =
  sw_since_uptime_ms :: i64
  sw_count :: u64
  sw_last_error :: string

record interface_open_fault =
  io_since_uptime_ms :: i64
  io_reason :: interface_open_reason
  io_detail :: "string option"

record device_fault_snapshot =
  storage :: "storage_write_fault option"
  interfaces :: "(string \<times> interface_open_fault) list"

definition degraded :: "device_fault_snapshot \<Rightarrow> bool" where
  "degraded s \<longleftrightarrow> storage s \<noteq> None"

definition since_of :: "input_time \<Rightarrow> i64 \<Rightarrow> input_time" where
  "since_of now since = \<lparr> uptime_ms = since,
     unix_epoch_ms = map_option (\<lambda>wall. wall - (uptime_ms now - since)) (unix_epoch_ms now) \<rparr>"

definition snapshot_faults :: "device_fault_snapshot \<Rightarrow> input_time \<Rightarrow> fault list" where
  "snapshot_faults s now =
     (case storage s of None \<Rightarrow> []
      | Some f \<Rightarrow> [\<lparr> fa_kind = StorageWriteFailed (sw_count f), fa_since = since_of now (sw_since_uptime_ms f),
                     fa_detail = Some (sw_last_error f) \<rparr>]) @
     map (\<lambda>(a, f). \<lparr> fa_kind = InterfaceOpenFailed a (io_reason f),
                     fa_since = since_of now (io_since_uptime_ms f), fa_detail = io_detail f \<rparr>) (interfaces s)"

text \<open>
  The shared state: the snapshot and whether a listener is registered. An operation returns the
  new state and whether it calls the listener.
\<close>

record device_faults =
  snapshot :: device_fault_snapshot
  listener :: bool

definition empty_faults :: device_faults where
  "empty_faults = \<lparr> snapshot = \<lparr> storage = None, interfaces = [] \<rparr>, listener = False \<rparr>"

definition set_listener :: "device_faults \<Rightarrow> device_faults" where
  "set_listener s = s\<lparr> listener := True \<rparr>"

definition storage_write_failed :: "string \<Rightarrow> i64 \<Rightarrow> device_faults \<Rightarrow> device_faults \<times> bool" where
  "storage_write_failed err up s =
     (let err' = truncate_detail err; snap = snapshot s in
      case storage snap of
        Some f \<Rightarrow> (s\<lparr> snapshot := snap\<lparr> storage := Some (f\<lparr> sw_count := (sw_count f + 1) mod 2 ^ 64,
                     sw_last_error := err' \<rparr>) \<rparr> \<rparr>, False)
      | None \<Rightarrow> (s\<lparr> snapshot := snap\<lparr> storage := Some \<lparr> sw_since_uptime_ms = up, sw_count = 1,
                     sw_last_error = err' \<rparr> \<rparr> \<rparr>, listener s))"

definition storage_write_succeeded :: "device_faults \<Rightarrow> device_faults \<times> bool" where
  "storage_write_succeeded s =
     (s\<lparr> snapshot := (snapshot s)\<lparr> storage := None \<rparr> \<rparr>, storage (snapshot s) \<noteq> None \<and> listener s)"

definition interface_open_failed ::
    "string \<Rightarrow> interface_open_reason \<Rightarrow> string option \<Rightarrow> i64 \<Rightarrow> device_faults \<Rightarrow> device_faults \<times> bool" where
  "interface_open_failed adapter reason detail up s =
     (let d = map_option truncate_detail detail; snap = snapshot s;
          put = (\<lambda>f. s\<lparr> snapshot := snap\<lparr> interfaces := bt_insert adapter f (interfaces snap) \<rparr> \<rparr>)
      in case map_of (interfaces snap) adapter of
        Some f \<Rightarrow> if io_reason f = reason \<and> io_detail f = d then (s, False)
                  else (put (f\<lparr> io_reason := reason, io_detail := d \<rparr>), listener s)
      | None \<Rightarrow> (put \<lparr> io_since_uptime_ms = up, io_reason = reason, io_detail = d \<rparr>, listener s))"

definition interface_opened :: "string \<Rightarrow> device_faults \<Rightarrow> device_faults \<times> bool" where
  "interface_opened adapter s =
     (s\<lparr> snapshot := (snapshot s)\<lparr> interfaces := bt_remove adapter (interfaces (snapshot s)) \<rparr> \<rparr>,
      map_of (interfaces (snapshot s)) adapter \<noteq> None \<and> listener s)"

section \<open>Pipeline faults\<close>

record fault_record =
  fr_discarded :: u64
  fr_last_error :: string
  fr_last_at :: i64

type_synonym pipeline_faults = "(pipeline_id \<times> fault_record) list"

definition faults_record :: "pipeline_id \<Rightarrow> string \<Rightarrow> i64 \<Rightarrow> pipeline_faults \<Rightarrow> pipeline_faults" where
  "faults_record i err now m =
     (let entry = (case map_of m i of Some e \<Rightarrow> e
         | None \<Rightarrow> \<lparr> fr_discarded = 0, fr_last_error = [], fr_last_at = now \<rparr>)
      in bt_insert i (entry\<lparr> fr_discarded := (fr_discarded entry + 1) mod 2 ^ 64, fr_last_error := err,
           fr_last_at := now \<rparr>) m)"

definition faults_clear :: "pipeline_id \<Rightarrow> pipeline_faults \<Rightarrow> fault_record option \<times> pipeline_faults" where
  "faults_clear i m = (map_of m i, bt_remove i m)"

section \<open>Truncation\<close>

lemma boundary_before_le: "boundary_before s n \<le> n"
  by (induction n) auto

lemma boundary_before_boundary: "is_char_boundary s (boundary_before s n)"
  by (induction n) (auto simp: is_char_boundary_def)

lemma boundary_before_greatest: "is_char_boundary s j \<Longrightarrow> j \<le> n \<Longrightarrow> j \<le> boundary_before s n"
  by (induction n) (auto simp: le_Suc_eq)

text \<open>The text kept for a fault is a prefix of the error text, valid UTF-8 of at most 200 bytes; a text
  within the bound is kept whole, and a longer one loses at most three bytes below the bound.\<close>

theorem truncate_detail_utf8:
  assumes "valid_utf8 s"
  shows "valid_utf8 (truncate_detail s) \<and> length (truncate_detail s) \<le> 200 \<and>
    (\<exists>n. truncate_detail s = take n s) \<and>
    (if length s \<le> 200 then truncate_detail s = s else 197 \<le> length (truncate_detail s))"
proof (cases "length s \<le> 200")
  case True
  then show ?thesis using assms by (auto simp: truncate_detail_def MAX_FAULT_DETAIL_BYTES_def intro: exI [of _ "length s"])
next
  case False
  let ?n = "boundary_before s 200"
  obtain j where "200 \<le> j + 3" "j \<le> 200" "is_char_boundary s j"
    using boundary_near [OF assms, of 200] False by auto
  then have "197 \<le> ?n" "?n \<le> 200"
    using boundary_before_greatest [of s j 200] boundary_before_le [of s 200] by auto
  moreover have "valid_utf8 (take ?n s)"
    by (rule valid_utf8_take [OF assms boundary_before_boundary])
  moreover have "truncate_detail s = take ?n s"
    using False by (simp add: truncate_detail_def MAX_FAULT_DETAIL_BYTES_def)
  ultimately show ?thesis using False by (auto simp: min_def)
qed

theorem truncate_detail_utf8_witness:
  "length (truncate_detail (replicate 250 CHR ''e'')) \<le> 200"
  using truncate_detail_utf8 [OF valid_utf8_ascii [of "replicate 250 CHR ''e''"]]
  by (simp add: list_all_iff byte_def)

section \<open>Histories of fault events\<close>

datatype fault_event =
    WriteFailed string i64
  | WriteSucceeded
  | OpenFailed string interface_open_reason "string option" i64
  | Opened string
  | Listen

fun fault_step :: "fault_event \<Rightarrow> device_faults \<Rightarrow> device_faults \<times> bool" where
  "fault_step (WriteFailed e t) s = storage_write_failed e t s"
| "fault_step WriteSucceeded s = storage_write_succeeded s"
| "fault_step (OpenFailed a r d t) s = interface_open_failed a r d t s"
| "fault_step (Opened a) s = interface_opened a s"
| "fault_step Listen s = (set_listener s, False)"

text \<open>
  The abstract device: the write failures not yet followed by a successful write, oldest first,
  and for every adapter whose interface is not open the events since it was last open.
\<close>

fun failures :: "fault_event \<Rightarrow> (string \<times> i64) list \<Rightarrow> (string \<times> i64) list" where
  "failures (WriteFailed e t) fs = fs @ [(e, t)]"
| "failures WriteSucceeded fs = []"
| "failures _ fs = fs"

definition storage_abs :: "(string \<times> i64) list \<Rightarrow> storage_write_fault option" where
  "storage_abs fs = (if fs = [] then None else Some \<lparr> sw_since_uptime_ms = snd (hd fs),
     sw_count = length fs mod 2 ^ 64, sw_last_error = truncate_detail (fst (last fs)) \<rparr>)"

lemma storage_step:
  "storage (snapshot s) = storage_abs fs \<Longrightarrow>
   storage (snapshot (fst (fault_step e s))) = storage_abs (failures e fs)"
  by (cases e) (auto simp: storage_write_failed_def storage_write_succeeded_def interface_open_failed_def
      interface_opened_def set_listener_def storage_abs_def Let_def mod_Suc_eq split: option.splits)

text \<open>C18: The storage fault of the device refines the history of writes: it is present exactly while the
  last write failed, it began with the first failure after the last success, and it counts the
  failures since then (modulo 2^64).\<close>

theorem storage_fault_history:
  "storage (snapshot (fold (\<lambda>e s. fst (fault_step e s)) events empty_faults)) =
   storage_abs (fold failures events [])"
proof (induction events rule: rev_induct)
  case Nil
  then show ?case by (simp add: empty_faults_def storage_abs_def)
next
  case (snoc e events)
  then show ?case by (simp add: storage_step)
qed

text \<open>What the status topic shows of the faults, apart from the running count and its text.\<close>

definition fault_view :: "device_faults \<Rightarrow> bool \<times> (string \<times> interface_open_reason \<times> string option) list" where
  "fault_view s = (degraded (snapshot s), map (\<lambda>(a, f). (a, io_reason f, io_detail f)) (interfaces (snapshot s)))"

lemma view_lookup:
  "map_of (map (\<lambda>(a, f). (a, io_reason f, io_detail f)) m) k = map_option (\<lambda>f. (io_reason f, io_detail f)) (map_of m k)"
  by (induction m) auto

lemma bt_remove_absent: "map_of m k = None \<Longrightarrow> bt_remove k m = m"
  by (induction m) (auto simp: bt_remove_def split: if_splits)

text \<open>Listeners are called exactly when an event changes what the status shows: a storage fault begins
  or ends, or the interface faults (adapter, reason, detail) change. Repeated failures are not
  announced again.\<close>

theorem notified_iff_changed:
  assumes "bt_ordered (interfaces (snapshot s))" "fault_step e s = (s', notified)" "e \<noteq> Listen"
  shows "notified \<longleftrightarrow> listener s \<and> fault_view s' \<noteq> fault_view s"
proof -
  let ?m = "interfaces (snapshot s)"
  have changed: "map_of m k \<noteq> map_of n k \<Longrightarrow> m \<noteq> n" for m n :: "(string \<times> interface_open_reason \<times> string option) list" and k
    by auto
  show ?thesis
  proof (cases e)
    case (OpenFailed a r d t)
    let ?d = "map_option truncate_detail d"
    show ?thesis
    proof (cases "\<exists>f. map_of ?m a = Some f \<and> io_reason f = r \<and> io_detail f = ?d")
      case True
      then show ?thesis using assms(2) OpenFailed by (auto simp: interface_open_failed_def Let_def)
    next
      case False
      obtain f where s': "interfaces (snapshot s') = bt_insert a f ?m" "io_reason f = r" "io_detail f = ?d"
          and n: "notified = listener s"
        using assms(2) OpenFailed False by (auto simp: interface_open_failed_def Let_def split: option.splits if_splits)
      have "map_of (map (\<lambda>(a, f). (a, io_reason f, io_detail f)) (interfaces (snapshot s'))) a \<noteq>
          map_of (map (\<lambda>(a, f). (a, io_reason f, io_detail f)) ?m) a"
        using False s' by (cases "map_of ?m a") (auto simp: view_lookup btree.lookup_insert [OF assms(1)])
      then have "fault_view s' \<noteq> fault_view s" using changed by (auto simp: fault_view_def)
      then show ?thesis using n by simp
    qed
  next
    case (Opened a)
    have "map_of ?m a = None \<or> map_of (map (\<lambda>(a, f). (a, io_reason f, io_detail f)) (bt_remove a ?m)) a \<noteq>
        map_of (map (\<lambda>(a, f). (a, io_reason f, io_detail f)) ?m) a"
      by (auto simp: view_lookup btree.lookup_remove [OF assms(1)])
    then show ?thesis using assms(2) Opened changed
      by (auto simp: interface_opened_def fault_view_def bt_remove_absent degraded_def)
  qed (use assms(2,3) in \<open>auto simp: storage_write_failed_def storage_write_succeeded_def fault_view_def
      degraded_def Let_def split: option.splits\<close>)
qed

theorem notified_iff_changed_witness:
  "\<exists>s'. fault_step (WriteFailed ''disk full'' 5) (set_listener empty_faults) = (s', True) \<and>
     fault_view s' \<noteq> fault_view (set_listener empty_faults)"
proof -
  obtain s' where run: "fault_step (WriteFailed ''disk full'' 5) (set_listener empty_faults) = (s', True)"
    by (simp add: storage_write_failed_def set_listener_def empty_faults_def)
  have "bt_ordered (interfaces (snapshot (set_listener empty_faults)))"
    by (simp add: bt_ordered_def set_listener_def empty_faults_def)
  from notified_iff_changed [OF this run] run show ?thesis by simp
qed

lemma faults_ordered_step:
  "bt_ordered (interfaces (snapshot s)) \<Longrightarrow> bt_ordered (interfaces (snapshot (fst (fault_step e s))))"
  by (cases e) (auto simp: storage_write_failed_def storage_write_succeeded_def interface_open_failed_def
      interface_opened_def set_listener_def Let_def btree.ordered_insert btree.ordered_remove split: option.splits)

interpretation device_fault_runs:
  invariant_system "\<lambda>e s. fst (fault_step e s)" "\<lambda>s. bt_ordered (interfaces (snapshot s))"
  by unfold_locales (rule faults_ordered_step)

end
