(* ===== verification/Clock.thy ===== *)
theory Clock
  imports Ledger_Props
begin

text \<open>
  Trust in the wall clock (\<^verbatim>\<open>edge-node/core/ops/src/clock.rs\<close>,
  \<^verbatim>\<open>edge-node/apps/node/src/trusted_clock.rs\<close>): the evidence that the clock can be
  trusted, the persistent floor under trusted times, and manual confirmation. The readings of the
  \<^verbatim>\<open>Clock\<close> trait (wall clock, monotonic clock, kernel synchronisation) are arguments.
\<close>

section \<open>Definitions\<close>

definition MAX_MANUAL_CONFIRMATION_DRIFT_MS :: i64 where
  "MAX_MANUAL_CONFIRMATION_DRIFT_MS = 30000"

record clock_reading =
  cr_wall :: i64
  cr_monotonic :: u64
  cr_synchronized :: bool

datatype trust_source = KernelSync | ManualLocalRoot

fun source_as_str :: "trust_source \<Rightarrow> string" where
  "source_as_str KernelSync = ''kernel_sync''"
| "source_as_str ManualLocalRoot = ''manual_local_root''"

datatype clock_evidence = Untrusted | Trusted trust_source i64

datatype ops_error =
    OpsStorage storage_error
  | OpsSqlite sqlite_error
  | OpsLedger ledger_error
  | OpsNotFound
  | OpsConflict
  | OpsForbidden
  | OpsValidation string
  | OpsCredentialHash
  | OpsRandom
  | OpsClockUntrusted
  | OpsIo string

datatype clock_trust_error = ClockUntrusted | ClockOps ops_error

record runtime_state =
  rs_evidence :: clock_evidence
  rs_last_wall_ms :: "i64 option"
  rs_consumed_manual_seq :: i64
  rs_last_checkpoint_monotonic_ms :: u64

record clock_trust =
  backward_tolerance_ms :: i64
  checkpoint_interval_ms :: u64
  ct_state :: runtime_state

text \<open>The clock's mutex-protected state beside the database.\<close>

record clocked =
  ck_trust :: clock_trust
  ck_node :: node

definition on_node :: "(node, 'e, 'a) act \<Rightarrow> (clocked, 'e, 'a) act" where
  "on_node m w = (case m (ck_node w) of (r, s) \<Rightarrow> (r, w\<lparr> ck_node := s \<rparr>))"

definition set_state :: "runtime_state \<Rightarrow> (clocked, 'e, unit) act" where
  "set_state st w = (Inr (), w\<lparr> ck_trust := (ck_trust w)\<lparr> ct_state := st \<rparr> \<rparr>)"

definition clock_load :: "ext \<Rightarrow> i64 \<Rightarrow> u64 \<Rightarrow> (node, ops_error, clock_trust) act" where
  "clock_load x tolerance interval =
     andThen (mapErr OpsSqlite (select x (\<lambda>t. manual_evidence_seq (auth_state_t t)))) (\<lambda>seq.
       ret \<lparr> backward_tolerance_ms = tolerance, checkpoint_interval_ms = interval,
         ct_state = \<lparr> rs_evidence = Untrusted, rs_last_wall_ms = None, rs_consumed_manual_seq = seq,
           rs_last_checkpoint_monotonic_ms = 0 \<rparr> \<rparr>)"

definition persisted_floor :: "ext \<Rightarrow> (node, ops_error, i64) act" where
  "persisted_floor x = mapErr OpsSqlite (select x (\<lambda>t. clock_floor_ms (auth_state_t t)))"

text \<open>The decision of \<^verbatim>\<open>refresh\<close> on the values it has read.\<close>

definition refreshed :: "i64 \<Rightarrow> clock_reading \<Rightarrow> i64 \<Rightarrow> i64 \<Rightarrow> runtime_state \<Rightarrow> runtime_state" where
  "refreshed tolerance r floor_ms seq st =
     (let now = cr_wall r;
          stepped_back = (case rs_last_wall_ms st of None \<Rightarrow> False | Some prev \<Rightarrow> now < saturating_sub prev tolerance);
          behind_floor = now < floor_ms;
          st' = (if stepped_back \<or> behind_floor then st\<lparr> rs_evidence := Untrusted \<rparr>
                 else if cr_synchronized r then st\<lparr> rs_evidence := Trusted KernelSync now \<rparr>
                 else if rs_consumed_manual_seq st < seq
                 then st\<lparr> rs_consumed_manual_seq := seq, rs_evidence := Trusted ManualLocalRoot now \<rparr>
                 else case rs_evidence st of
                     Trusted KernelSync _ \<Rightarrow> st\<lparr> rs_evidence := Untrusted \<rparr>
                   | Trusted ManualLocalRoot _ \<Rightarrow> st\<lparr> rs_evidence := Trusted ManualLocalRoot now \<rparr>
                   | Untrusted \<Rightarrow> st)
      in st'\<lparr> rs_last_wall_ms := Some now \<rparr>)"

definition refresh :: "ext \<Rightarrow> clock_reading \<Rightarrow> (clocked, ops_error, clock_evidence) act" where
  "refresh x r =
     andThen (on_node (persisted_floor x)) (\<lambda>floor_ms.
     andThen (on_node (mapErr OpsSqlite (select x (\<lambda>t. manual_evidence_seq (auth_state_t t))))) (\<lambda>seq w.
       let st = refreshed (backward_tolerance_ms (ck_trust w)) r floor_ms seq (ct_state (ck_trust w))
       in andThen (set_state st) (\<lambda>_. ret (rs_evidence st)) w))"

definition trusted_now_and_advance :: "ext \<Rightarrow> clock_reading \<Rightarrow> (clocked, clock_trust_error, i64) act" where
  "trusted_now_and_advance x r =
     andThen (mapErr ClockOps (refresh x r)) (\<lambda>ev. case ev of
       Untrusted \<Rightarrow> throw ClockUntrusted
     | Trusted src t \<Rightarrow>
         andThen (on_node (mapErr (\<lambda>e. ClockOps (OpsSqlite e)) (execute x (\<lambda>tb. ((), tb\<lparr> auth_state_t := (auth_state_t tb)
           \<lparr> clock_floor_ms := max (clock_floor_ms (auth_state_t tb)) t,
             clock_evidence_source := Some (source_as_str src), clock_evidence_at_ms := Some t \<rparr> \<rparr>))))) (\<lambda>_.
         ret t))"

definition checkpoint_if_due :: "ext \<Rightarrow> clock_reading \<Rightarrow> (clocked, clock_trust_error, bool) act" where
  "checkpoint_if_due x r w =
     (if cr_monotonic r - rs_last_checkpoint_monotonic_ms (ct_state (ck_trust w)) < checkpoint_interval_ms (ck_trust w)
      then (Inr False, w)
      else andThen (trusted_now_and_advance x r) (\<lambda>_ w'.
        andThen (set_state ((ct_state (ck_trust w'))\<lparr> rs_last_checkpoint_monotonic_ms := cr_monotonic r \<rparr>)) (\<lambda>_. ret True) w') w)"

definition confirm_time_with_clock :: "ext \<Rightarrow> clock_reading \<Rightarrow> i64 \<Rightarrow> (node, ops_error, unit) act" where
  "confirm_time_with_clock x r displayed = transaction x OpsSqlite (
     andThen (persisted_floor x) (\<lambda>floor_ms.
       if displayed < floor_ms \<or> cr_wall r < floor_ms \<or>
          (case checked_sub (cr_wall r) displayed of None \<Rightarrow> True
           | Some d \<Rightarrow> \<not> (0 \<le> d \<and> d \<le> MAX_MANUAL_CONFIRMATION_DRIFT_MS))
       then throw OpsClockUntrusted
       else andThen (mapErr OpsSqlite (execute x (\<lambda>tb. ((), tb\<lparr> auth_state_t := (auth_state_t tb)
              \<lparr> manual_evidence_seq := manual_evidence_seq (auth_state_t tb) + 1,
                clock_evidence_source := Some ''manual_local_root'', clock_evidence_at_ms := Some (cr_wall r) \<rparr> \<rparr>)))) (\<lambda>_.
            mapErr OpsLedger (record_event x ''clock_trust_confirmed'' None (json_text x (JObj
              [(''actor'', JStr ''local_cli''), (''confirmed_at_ms'', JInt (cr_wall r)),
               (''displayed_at_ms'', JInt displayed), (''floor_ms'', JInt floor_ms),
               (''source'', JStr ''manual_local_root'')]))))))"

definition manual_evidence_at :: "ext \<Rightarrow> (node, ops_error, i64 option) act" where
  "manual_evidence_at x = mapErr OpsSqlite (sql x (\<lambda>t.
     if clock_evidence_source (auth_state_t t) = Some ''manual_local_root''
     then (case clock_evidence_at_ms (auth_state_t t) of
             None \<Rightarrow> Inl FromSqlConversionFailure | Some ms \<Rightarrow> Inr (Some ms, t))
     else Inr (None, t)))"

text \<open>The receive-time clock of the collector.\<close>

record freshness_snapshot =
  fs_received_at_ms :: i64
  fs_trusted_wall_time_ms :: "i64 option"

definition freshness :: "ext \<Rightarrow> i64 \<Rightarrow> clock_reading \<Rightarrow> (clocked, string, freshness_snapshot) act" where
  "freshness x received r w = (case refresh x r w of (ev, w') \<Rightarrow>
     (Inr \<lparr> fs_received_at_ms = received, fs_trusted_wall_time_ms =
        (case ev of Inr (Trusted _ _) \<Rightarrow> Some received | _ \<Rightarrow> None) \<rparr>, w'))"

section \<open>Runs\<close>

datatype clock_op =
    CRefresh clock_reading
  | CAdvance clock_reading
  | CCheckpoint clock_reading
  | CConfirm clock_reading i64
  | CRestart i64 u64

definition restart :: "ext \<Rightarrow> i64 \<Rightarrow> u64 \<Rightarrow> clocked \<Rightarrow> clocked" where
  "restart x tolerance interval w = (case clock_load x tolerance interval (ck_node w) of
     (Inl _, s) \<Rightarrow> w\<lparr> ck_node := s \<rparr>
   | (Inr ct, s) \<Rightarrow> \<lparr> ck_trust = ct, ck_node = s \<rparr>)"

fun clock_run :: "ext \<Rightarrow> clock_op \<Rightarrow> clocked \<Rightarrow> clocked" where
  "clock_run x (CRefresh r) w = snd (refresh x r w)"
| "clock_run x (CAdvance r) w = snd (trusted_now_and_advance x r w)"
| "clock_run x (CCheckpoint r) w = snd (checkpoint_if_due x r w)"
| "clock_run x (CConfirm r displayed) w = snd (on_node (confirm_time_with_clock x r displayed) w)"
| "clock_run x (CRestart tolerance interval) w = restart x tolerance interval w"

abbreviation auth_of :: "clocked \<Rightarrow> auth_state" where
  "auth_of w \<equiv> auth_state_t (tables (ck_node w))"

definition floor_of :: "clocked \<Rightarrow> i64" where
  "floor_of w = clock_floor_ms (auth_of w)"

text \<open>The times a run hands out as trusted.\<close>

fun trusted_times :: "ext \<Rightarrow> clock_op list \<Rightarrow> clocked \<Rightarrow> i64 list" where
  "trusted_times x [] w = []"
| "trusted_times x (op # ops) w =
     (case op of CAdvance r \<Rightarrow> (case fst (trusted_now_and_advance x r w) of Inr t \<Rightarrow> [t] | Inl _ \<Rightarrow> []) | _ \<Rightarrow> []) @
     trusted_times x ops (clock_run x op w)"

section \<open>Facts\<close>

lemma select_node:
  "on_node (mapErr g (select x f)) w =
     (if sql_fault x (sql_step (ck_node w)) then Inl (g SqliteFailure) else Inr (f (tables (ck_node w))),
      w\<lparr> ck_node := (ck_node w)\<lparr> sql_step := Suc (sql_step (ck_node w)) \<rparr> \<rparr>)"
  by (simp add: on_node_def mapErr_def select_def sql_def Let_def)

text \<open>A refresh reads the database twice and leaves the tables alone.\<close>

lemma refresh_cases:
  "tables (ck_node (snd (refresh x r w))) = tables (ck_node w) \<and>
   (case fst (refresh x r w) of
      Inl _ \<Rightarrow> ck_trust (snd (refresh x r w)) = ck_trust w
    | Inr ev \<Rightarrow> (let st = refreshed (backward_tolerance_ms (ck_trust w)) r (floor_of w) (manual_evidence_seq (auth_of w)) (ct_state (ck_trust w))
        in ev = rs_evidence st \<and> ck_trust (snd (refresh x r w)) = (ck_trust w)\<lparr> ct_state := st \<rparr>))"
  by (simp add: refresh_def persisted_floor_def select_node andThen_def set_state_def floor_of_def Let_def)

lemma refreshed_trusted:
  assumes "rs_evidence (refreshed tolerance r floor_ms seq st) = Trusted src t"
  shows "t = cr_wall r \<and> floor_ms \<le> t"
  using assms by (auto simp: refreshed_def Let_def split: if_splits clock_evidence.splits trust_source.splits)

lemma refresh_floor [simp]: "auth_of (snd (refresh x r w)) = auth_of w"
  using refresh_cases [of x r w] by simp

lemma refresh_trusted:
  assumes "refresh x r w = (Inr (Trusted src t), w')"
  shows "t = cr_wall r \<and> floor_of w \<le> t"
proof (rule refreshed_trusted)
  show "rs_evidence (refreshed (backward_tolerance_ms (ck_trust w)) r (floor_of w)
      (manual_evidence_seq (auth_of w)) (ct_state (ck_trust w))) = Trusted src t"
    using refresh_cases [of x r w] assms by (simp add: Let_def)
qed

lemma advance_cases:
  "case trusted_now_and_advance x r w of
     (Inl _, w') \<Rightarrow> auth_of w' = auth_of w
   | (Inr t, w') \<Rightarrow> floor_of w \<le> t \<and> floor_of w' = t \<and> manual_evidence_seq (auth_of w') = manual_evidence_seq (auth_of w)"
proof (cases "refresh x r w")
  case (Pair ev w1)
  have same: "auth_of w1 = auth_of w" using refresh_floor [of x r w] Pair by simp
  show ?thesis
  proof (cases ev)
    case (Inl e)
    then show ?thesis using Pair same by (simp add: trusted_now_and_advance_def andThen_def mapErr_def)
  next
    case (Inr e)
    show ?thesis
    proof (cases e)
      case Untrusted
      then show ?thesis using Pair Inr same by (simp add: trusted_now_and_advance_def andThen_def mapErr_def)
    next
      case (Trusted src t)
      then have "floor_of w \<le> t" using refresh_trusted [of x r w src t w1] Pair Inr by simp
      then show ?thesis using Pair Inr Trusted same
        by (auto simp: trusted_now_and_advance_def andThen_def mapErr_def on_node_def execute_def sql_def Let_def
            floor_of_def max_def)
    qed
  qed
qed

lemma checkpoint_floor: "floor_of w \<le> floor_of (snd (checkpoint_if_due x r w))"
  using advance_cases [where x = x and r = r and w = w]
  by (auto simp: checkpoint_if_due_def andThen_def set_state_def floor_of_def split: prod.splits sum.splits)

lemma ledger_sql_auth: "auth_state_t (tables (snd (ledger_sql x f s))) = auth_state_t (tables s)"
  by (auto simp: ledger_sql_def mapErr_def sql_def Let_def split: sum.splits prod.splits)

lemma record_event_auth: "auth_state_t (tables (snd (record_event x k i d s))) = auth_state_t (tables s)"
  by (simp add: record_event_def andThen_def now_ms_def ledger_sql_auth)

lemma confirm_floor:
  "clock_floor_ms (auth_state_t (tables (snd (confirm_time_with_clock x r displayed s)))) = clock_floor_ms (auth_state_t (tables s))"
proof -
  let ?P = "\<lambda>t. clock_floor_ms (auth_state_t (tables t)) = clock_floor_ms (auth_state_t (tables s))"
  have "triple ?P (persisted_floor x) (\<lambda>_. ?P) (\<lambda>_. ?P)"
    unfolding persisted_floor_def by (intro triple_mapErr triple_select) simp_all
  moreover have "triple ?P (record_event x k i d) (\<lambda>_. ?P) (\<lambda>_. ?P)" for k i d
    using record_event_auth [of x k i d] by (auto simp: triple_def split: prod.splits sum.splits) (metis snd_conv)+
  moreover have "triple ?P (execute x (\<lambda>tb. ((), tb\<lparr> auth_state_t := (auth_state_t tb)
      \<lparr> manual_evidence_seq := n tb, clock_evidence_source := a, clock_evidence_at_ms := b \<rparr> \<rparr>))) (\<lambda>_. ?P) (\<lambda>_. ?P)" for n a b
    by (intro triple_execute) simp_all
  ultimately show ?thesis
    unfolding confirm_time_with_clock_def
    by (intro transaction_keeps [where P = ?P] triple_andThen_inv triple_If triple_throw triple_mapErr) simp_all
qed

lemma run_floor: "floor_of w \<le> floor_of (clock_run x op w)"
proof (cases op)
  case (CAdvance r)
  then show ?thesis using advance_cases [where x = x and r = r and w = w] by (auto simp: floor_of_def split: prod.splits sum.splits)
next
  case (CConfirm r d)
  then show ?thesis using confirm_floor [of x r d "ck_node w"] by (simp add: on_node_def floor_of_def case_prod_beta)
next
  case (CRestart tol int)
  then show ?thesis
    by (auto simp: restart_def clock_load_def andThen_def mapErr_def select_def sql_def floor_of_def Let_def)
qed (simp_all add: checkpoint_floor, simp add: floor_of_def)

section \<open>Properties\<close>


text \<open>No confirmation has been recorded since the clock was loaded, and no manual trust is in force.\<close>

definition unconfirmed :: "clocked \<Rightarrow> bool" where
  "unconfirmed w \<longleftrightarrow> rs_consumed_manual_seq (ct_state (ck_trust w)) = manual_evidence_seq (auth_of w) \<and>
     (\<forall>t. rs_evidence (ct_state (ck_trust w)) \<noteq> Trusted ManualLocalRoot t)"

lemma refreshed_unconfirmed:
  fixes tolerance floor_ms seq :: i64 and r :: clock_reading and st :: runtime_state
  assumes "rs_consumed_manual_seq st = seq" "\<And>t. rs_evidence st \<noteq> Trusted ManualLocalRoot t"
  defines "st' \<equiv> refreshed tolerance r floor_ms seq st"
  shows "rs_consumed_manual_seq st' = seq" "rs_evidence st' \<noteq> Trusted ManualLocalRoot t"
    "rs_evidence st' = Trusted src t \<Longrightarrow> cr_synchronized r"
  using assms by (auto simp: refreshed_def Let_def split: if_splits clock_evidence.splits trust_source.splits)

lemma refresh_unconfirmed: "unconfirmed w \<Longrightarrow> unconfirmed (snd (refresh x r w))"
  using refresh_cases [of x r w] refreshed_unconfirmed
  by (auto simp: unconfirmed_def Let_def split: sum.splits)

lemma advance_unconfirmed:
  assumes "unconfirmed w"
  shows "unconfirmed (snd (trusted_now_and_advance x r w))"
proof (cases "refresh x r w")
  case (Pair ev w1)
  then have "unconfirmed w1" using refresh_unconfirmed [OF assms, of x r] by simp
  then show ?thesis using Pair
    by (auto simp: trusted_now_and_advance_def andThen_def mapErr_def on_node_def execute_def sql_def Let_def unconfirmed_def
        split: sum.splits clock_evidence.splits)
qed

lemma checkpoint_unconfirmed: "unconfirmed w \<Longrightarrow> unconfirmed (snd (checkpoint_if_due x r w))"
  using advance_unconfirmed [of w x r]
  by (auto simp: checkpoint_if_due_def andThen_def set_state_def unconfirmed_def split: prod.splits sum.splits)

fun confirms :: "clock_op \<Rightarrow> bool" where
  "confirms (CConfirm _ _) = True"
| "confirms _ = False"

lemma restart_unconfirmed: "unconfirmed w \<Longrightarrow> unconfirmed (restart x tolerance interval w)"
  by (auto simp: restart_def clock_load_def andThen_def mapErr_def select_def sql_def unconfirmed_def Let_def)

lemma run_unconfirmed: "unconfirmed w \<Longrightarrow> \<not> confirms op \<Longrightarrow> unconfirmed (clock_run x op w)"
  by (cases op) (simp_all add: refresh_unconfirmed advance_unconfirmed checkpoint_unconfirmed restart_unconfirmed)

lemma runs_unconfirmed: "unconfirmed w \<Longrightarrow> list_all (\<lambda>op. \<not> confirms op) ops \<Longrightarrow> unconfirmed (fold (clock_run x) ops w)"
  by (induction ops arbitrary: w) (auto intro: run_unconfirmed)

text \<open>C29: Trust in the wall clock needs evidence from this start of the node: as long as no operator has
  confirmed the time since the clock was loaded, a refresh calls the clock trusted only when the
  kernel reports it synchronised at that moment, and then with the current wall time, which is not
  below the persisted floor. A confirmation from before the start does not count.\<close>

theorem trust_needs_evidence:
  fixes x :: ext and ops :: "clock_op list"
  assumes "clock_load x tolerance interval s = (Inr ct, s1)" "list_all (\<lambda>op. \<not> confirms op) ops"
  defines "w \<equiv> fold (clock_run x) ops \<lparr> ck_trust = ct, ck_node = s1 \<rparr>"
  assumes "refresh x r w = (Inr (Trusted src t), w')"
  shows "src = KernelSync \<and> cr_synchronized r \<and> t = cr_wall r \<and> floor_of w \<le> t"
proof -
  have "unconfirmed \<lparr> ck_trust = ct, ck_node = s1 \<rparr>"
    using assms(1) by (auto simp: clock_load_def andThen_eq_Inr select_Inr unconfirmed_def)
  then have un: "unconfirmed w" unfolding w_def using assms(2) by (rule runs_unconfirmed)
  let ?st = "refreshed (backward_tolerance_ms (ck_trust w)) r (floor_of w) (manual_evidence_seq (auth_of w)) (ct_state (ck_trust w))"
  have ev: "rs_evidence ?st = Trusted src t" using refresh_cases [of x r w] assms(4) by (simp add: Let_def)
  have "src \<noteq> ManualLocalRoot" "cr_synchronized r"
    using refreshed_unconfirmed(2,3) [where st = "ct_state (ck_trust w)" and r = r] un ev unfolding unconfirmed_def by metis+
  then show ?thesis using refreshed_trusted [OF ev] by (cases src) simp_all
qed

definition demo_clock_reading :: "i64 \<Rightarrow> bool \<Rightarrow> clock_reading" where
  "demo_clock_reading ms sync = \<lparr> cr_wall = ms, cr_monotonic = 0, cr_synchronized = sync \<rparr>"

theorem trust_needs_evidence_witness:
  "\<exists>src t w'. refresh demo_ext (demo_clock_reading 500 True) (fold (clock_run demo_ext) [CRefresh (demo_clock_reading 400 False)]
      \<lparr> ck_trust = snd (0::nat, projr (fst (clock_load demo_ext 10 60 demo_ledger_node))),
        ck_node = snd (clock_load demo_ext 10 60 demo_ledger_node) \<rparr>) = (Inr (Trusted src t), w') \<and> src = KernelSync \<and> t = 500"
proof -
  obtain ct s1 where load: "clock_load demo_ext 10 60 demo_ledger_node = (Inr ct, s1)"
    by (auto simp: clock_load_def andThen_def mapErr_def select_def sql_def demo_ext_def Let_def)
  let ?w = "fold (clock_run demo_ext) [CRefresh (demo_clock_reading 400 False)] \<lparr> ck_trust = ct, ck_node = s1 \<rparr>"
  have "fst (refresh demo_ext (demo_clock_reading 500 True) (fold (clock_run demo_ext) [CRefresh (demo_clock_reading 400 False)]
      \<lparr> ck_trust = snd (0::nat, projr (fst (clock_load demo_ext 10 60 demo_ledger_node))),
        ck_node = snd (clock_load demo_ext 10 60 demo_ledger_node) \<rparr>)) = Inr (Trusted KernelSync 500)" by code_simp
  then obtain w' where run: "refresh demo_ext (demo_clock_reading 500 True) ?w = (Inr (Trusted KernelSync 500), w')"
    by (cases "refresh demo_ext (demo_clock_reading 500 True) ?w") (simp add: load)
  have "list_all (\<lambda>op. \<not> confirms op) [CRefresh (demo_clock_reading 400 False)]" by simp
  from trust_needs_evidence [OF load this run] run show ?thesis by (simp add: load)
qed

end
