(* ===== verification/Output_Mqtt.thy ===== *)
theory Output_Mqtt
  imports Engine_Series Faults Clock
begin

text \<open>
  The MQTT output adapter (\<^verbatim>\<open>edge-node/apps/node/src/output_mqtt.rs\<close>): the session that drains
  the observation outbox to the broker and publishes the device status. Every arm of its
  \<^verbatim>\<open>select!\<close> loop is a function on the session.

  The MQTT client library is external. What it has been asked to publish and has not yet written
  to the connection is the list \<open>se_client\<close> of the session; whether it accepts a publish is an
  argument of the functions that ask for one.
\<close>

section \<open>Configuration\<close>

datatype mqtt_trust_mode = SystemRoots | BundleOnly

record mqtt_output_config =
  mo_host :: string
  mo_port :: u16
  mo_password_file :: string
  mo_trust_mode :: mqtt_trust_mode
  mo_ca_file :: "string option"
  mo_allow_insecure :: bool

text \<open>\<open>trim_end_matches(['\r', '\n'])\<close>.\<close>

definition trim_line_end :: "string \<Rightarrow> string" where
  "trim_line_end s = rev (dropWhile (\<lambda>c. c = CHR 0x0D \<or> c = CHR 0x0A) (rev s))"

text \<open>\<open>read_file\<close> is the file system: the contents of a path, or the text of the error.\<close>

definition read_password :: "(string \<Rightarrow> string + string) \<Rightarrow> mqtt_output_config \<Rightarrow> string + string" where
  "read_password read_file c = (case read_file (mo_password_file c) of
     Inl e \<Rightarrow> Inl (''failed to read MQTT password file '' @ mo_password_file c @ '': '' @ e)
   | Inr contents \<Rightarrow> (let password = trim_line_end contents in
       if password = [] then Inl ''MQTT password file is empty'' else Inr password))"

definition read_ca :: "(string \<Rightarrow> string + string) \<Rightarrow> mqtt_output_config \<Rightarrow> string + string option" where
  "read_ca read_file c = (case (mo_trust_mode c, mo_ca_file c) of
     (SystemRoots, None) \<Rightarrow> Inr None
   | (BundleOnly, Some path) \<Rightarrow> (case read_file path of
         Inl e \<Rightarrow> Inl (''failed to read MQTT CA file '' @ path @ '': '' @ e)
       | Inr bytes \<Rightarrow> Inr (Some bytes))
   | _ \<Rightarrow> Inl ''invalid resolved MQTT trust configuration'')"

record output_mqtt =
  om_connection :: mqtt_output_config
  om_edge_node_id :: edge_node_id
  om_heartbeat_interval :: nat
  om_password :: string
  om_ca :: "string option"

definition prepare :: "(string \<Rightarrow> string + string) \<Rightarrow> mqtt_output_config \<Rightarrow> edge_node_id \<Rightarrow> nat \<Rightarrow> string + output_mqtt" where
  "prepare read_file c node heartbeat = (case read_password read_file c of Inl e \<Rightarrow> Inl e | Inr password \<Rightarrow>
     (case read_ca read_file c of Inl e \<Rightarrow> Inl e | Inr ca \<Rightarrow>
       Inr \<lparr> om_connection = c, om_edge_node_id = node, om_heartbeat_interval = heartbeat, om_password = password, om_ca = ca \<rparr>))"

datatype transport = Tcp | Tls string | TlsDefault

record last_will =
  lw_topic :: string
  lw_payload :: string
  lw_retain :: bool

record mqtt_options =
  mq_client_id :: string
  mq_host :: string
  mq_port :: u16
  mq_keep_alive_secs :: nat
  mq_clean_session :: bool
  mq_credentials :: "string \<times> string"
  mq_last_will :: last_will
  mq_transport :: transport

definition KEEP_ALIVE_SECS :: nat where "KEEP_ALIVE_SECS = 30"

definition mqtt_options_of :: "output_mqtt \<Rightarrow> mqtt_options" where
  "mqtt_options_of a = \<lparr>
     mq_client_id = ''iotkit-edge-node-'' @ edge_node_id_str (om_edge_node_id a),
     mq_host = mo_host (om_connection a), mq_port = mo_port (om_connection a),
     mq_keep_alive_secs = KEEP_ALIVE_SECS, mq_clean_session = True,
     mq_credentials = (edge_node_id_str (om_edge_node_id a), om_password a),
     mq_last_will = \<lparr> lw_topic = status_topic (om_edge_node_id a), lw_payload = WILL_PAYLOAD, lw_retain = True \<rparr>,
     mq_transport = (if mo_allow_insecure (om_connection a) then Tcp
       else case om_ca a of Some ca \<Rightarrow> Tls ca | None \<Rightarrow> TlsDefault) \<rparr>"

section \<open>The session\<close>

datatype mqtt_publication = PStatus | POutbox i64

record pending_publish =
  pe_publication :: mqtt_publication
  pe_pkid :: "u16 option"

text \<open>A publish at QoS 1, with the publication it is meant for.\<close>

record request =
  rq_publication :: mqtt_publication
  rq_topic :: string
  rq_retain :: bool
  rq_payload :: string

record session =
  se_status_topic :: string
  se_connected :: bool
  se_pending :: "pending_publish list"
  se_inflight :: "i64 option"
  se_db :: node
  se_clock :: clock_trust
  se_faults :: device_faults
  se_client :: "request list"

text \<open>The clock readings taken for one status.\<close>

record now_reading =
  nw_clock :: clock_reading
  nw_wall :: i64
  nw_uptime :: i64

definition publish_mqtt :: "bool \<Rightarrow> mqtt_publication \<Rightarrow> string \<Rightarrow> bool \<Rightarrow> string \<Rightarrow> session \<Rightarrow> session" where
  "publish_mqtt accepted p topic retain payload s =
     (if accepted
      then s\<lparr> se_client := se_client s @ [\<lparr> rq_publication = p, rq_topic = topic, rq_retain = retain, rq_payload = payload \<rparr>],
              se_pending := se_pending s @ [\<lparr> pe_publication = p, pe_pkid = None \<rparr>] \<rparr>
      else case p of POutbox _ \<Rightarrow> s\<lparr> se_inflight := None \<rparr> | PStatus \<Rightarrow> s)"

definition session_now :: "ext \<Rightarrow> now_reading \<Rightarrow> session \<Rightarrow> input_time \<times> session" where
  "session_now x r s =
     (case refresh x (nw_clock r) \<lparr> ck_trust = se_clock s, ck_node = se_db s \<rparr> of (ev, w) \<Rightarrow>
        (input_time_now (nw_uptime r) (case ev of Inr (Trusted _ _) \<Rightarrow> Some (nw_wall r) | _ \<Rightarrow> None),
         s\<lparr> se_clock := ck_trust w, se_db := ck_node w \<rparr>))"

definition status_now :: "status_value \<Rightarrow> device_fault_snapshot \<Rightarrow> input_time \<Rightarrow> status" where
  "status_now value snap now = \<lparr> su_at = now,
     su_value = (case value of Offline \<Rightarrow> Offline | _ \<Rightarrow> if degraded snap then Degraded else Online),
     su_faults = snapshot_faults snap now \<rparr>"

definition publish_status :: "ext \<Rightarrow> now_reading \<Rightarrow> bool \<Rightarrow> status_value \<Rightarrow> session \<Rightarrow> session" where
  "publish_status x r accepted value s =
     (let (now, s') = session_now x r s
      in publish_mqtt accepted PStatus (se_status_topic s') True
           (status_payload x (status_now value (snapshot (se_faults s')) now)) s')"

definition publish_next_outbox_row :: "ext \<Rightarrow> bool \<Rightarrow> session \<Rightarrow> session" where
  "publish_next_outbox_row x accepted s =
     (if se_inflight s \<noteq> None then s
      else case oldest x (se_db s) of
        (Inr (Some row), n) \<Rightarrow> publish_mqtt accepted (POutbox (outbox_seq row)) (or_topic row) (or_retain row) (or_payload row)
            (s\<lparr> se_db := n, se_inflight := Some (outbox_seq row) \<rparr>)
      | (Inr None, n) \<Rightarrow> s\<lparr> se_db := n \<rparr>
      | (Inl _, n) \<Rightarrow> s\<lparr> se_db := n \<rparr>)"

fun assign_pkid :: "u16 \<Rightarrow> pending_publish list \<Rightarrow> pending_publish list" where
  "assign_pkid k [] = []"
| "assign_pkid k (p # ps) = (if pe_pkid p = None then p\<lparr> pe_pkid := Some k \<rparr> # ps else p # assign_pkid k ps)"

definition note_packet_written :: "u16 \<Rightarrow> session \<Rightarrow> session" where
  "note_packet_written k s = s\<lparr> se_pending := assign_pkid k (se_pending s) \<rparr>"

fun remove_pkid :: "u16 \<Rightarrow> pending_publish list \<Rightarrow> (pending_publish \<times> pending_publish list) option" where
  "remove_pkid k [] = None"
| "remove_pkid k (p # ps) = (if pe_pkid p = Some k then Some (p, ps)
     else case remove_pkid k ps of None \<Rightarrow> None | Some (q, qs) \<Rightarrow> Some (q, p # qs))"

definition note_puback :: "ext \<Rightarrow> bool \<Rightarrow> u16 \<Rightarrow> session \<Rightarrow> session" where
  "note_puback x accepted k s = (case remove_pkid k (se_pending s) of
     None \<Rightarrow> s
   | Some (p, rest) \<Rightarrow> (let s1 = s\<lparr> se_pending := rest \<rparr> in
       case pe_publication p of
         PStatus \<Rightarrow> s1
       | POutbox n \<Rightarrow>
           (let s2 = s1\<lparr> se_db := snd (outbox_delete x n (se_db s1)) \<rparr>;
                s3 = (if se_inflight s2 = Some n then s2\<lparr> se_inflight := None \<rparr> else s2)
            in publish_next_outbox_row x accepted s3)))"

section \<open>The arms of the loop\<close>

definition on_connack :: "ext \<Rightarrow> now_reading \<Rightarrow> bool \<Rightarrow> bool \<Rightarrow> session \<Rightarrow> session" where
  "on_connack x r status_accepted row_accepted s =
     publish_next_outbox_row x row_accepted (publish_status x r status_accepted Online
       (s\<lparr> se_connected := True, se_pending := [], se_inflight := None \<rparr>))"

definition on_error :: "session \<Rightarrow> session" where
  "on_error s = s\<lparr> se_connected := False, se_pending := [], se_inflight := None \<rparr>"

definition on_commit :: "ext \<Rightarrow> bool \<Rightarrow> session \<Rightarrow> session" where
  "on_commit x accepted s = (if se_connected s \<and> se_inflight s = None then publish_next_outbox_row x accepted s else s)"

definition on_heartbeat :: "ext \<Rightarrow> now_reading \<Rightarrow> bool \<Rightarrow> session \<Rightarrow> session" where
  "on_heartbeat x r accepted s = (if se_connected s then publish_status x r accepted Online s else s)"

definition initial_session :: "output_mqtt \<Rightarrow> node \<Rightarrow> clock_trust \<Rightarrow> device_faults \<Rightarrow> session" where
  "initial_session a n ct f = \<lparr> se_status_topic = status_topic (om_edge_node_id a), se_connected = False,
     se_pending = [], se_inflight = None, se_db = n, se_clock = ct, se_faults = set_listener f, se_client = [] \<rparr>"

section \<open>Shutdown\<close>

text \<open>
  The graceful end: \<open>shutdown_start\<close> requests the \<^verbatim>\<open>offline\<close> status, then the events of the
  client are handled until every status is acknowledged (\<^verbatim>\<open>true\<close>), the connection fails or the
  timeout ends the list of events (\<^verbatim>\<open>false\<close>).
\<close>

definition shutdown_start :: "ext \<Rightarrow> now_reading \<Rightarrow> bool \<Rightarrow> session \<Rightarrow> session" where
  "shutdown_start x r accepted s = publish_status x r accepted Offline (s\<lparr> se_pending := [] \<rparr>)"

datatype client_event = Written u16 | PubAck u16 | OtherEvent | ConnectionError

fun await_offline :: "ext \<Rightarrow> bool \<Rightarrow> client_event list \<Rightarrow> session \<Rightarrow> bool \<times> session" where
  "await_offline x accepted [] s = (False, s)"
| "await_offline x accepted (Written k # es) s = await_offline x accepted es (note_packet_written k s)"
| "await_offline x accepted (PubAck k # es) s = (let s' = note_puback x accepted k s in
     if list_all (\<lambda>p. pe_publication p \<noteq> PStatus) (se_pending s') then (True, s') else await_offline x accepted es s')"
| "await_offline x accepted (OtherEvent # es) s = await_offline x accepted es s"
| "await_offline x accepted (ConnectionError # es) s = (False, s)"

definition shutdown_mqtt :: "ext \<Rightarrow> now_reading \<Rightarrow> bool \<Rightarrow> client_event list \<Rightarrow> session \<Rightarrow> bool \<times> session" where
  "shutdown_mqtt x r accepted es s =
     (if \<not> se_connected s then (False, s) else await_offline x accepted es (shutdown_start x r accepted s))"

end
