(* ===== verification/Mqtt_Delivery.thy ===== *)
theory Mqtt_Delivery
  imports Output_Mqtt
begin

text \<open>
  The node, the MQTT client and the broker together: engine transactions fill the outbox, the
  adapter's session drains it, and the environment writes packets, acknowledges them and breaks
  the connection. The client library is taken to behave as documented: it writes accepted publishes
  in order under packet ids that are not in use, reports an acknowledgement only for a packet it
  has written on this connection, and with a clean session forgets both its queue and its
  unacknowledged packets when the connection ends.
\<close>

section \<open>The system\<close>

definition request_of :: "outbox_row \<Rightarrow> request" where
  "request_of row = \<lparr> rq_publication = POutbox (outbox_seq row), rq_topic = or_topic row, rq_retain = or_retain row,
     rq_payload = or_payload row \<rparr>"

text \<open>\<open>sy_delivered\<close> and \<open>sy_enqueued\<close> record what the broker acknowledged and what the outbox ever held.\<close>

record mqtt_system =
  sy_session :: session
  sy_wire :: "(u16 \<times> request) list"
  sy_delivered :: "request list"
  sy_enqueued :: "outbox_row set"

inductive mqtt_step :: "ext \<Rightarrow> edge_node_id \<Rightarrow> mqtt_system \<Rightarrow> mqtt_system \<Rightarrow> bool" for x node where
  connack: "\<not> se_connected (sy_session w) \<Longrightarrow>
    mqtt_step x node w (w\<lparr> sy_session := on_connack x r a b ((sy_session w)\<lparr> se_client := [] \<rparr>), sy_wire := [] \<rparr>)"
| error: "mqtt_step x node w (w\<lparr> sy_session := on_error ((sy_session w)\<lparr> se_client := [] \<rparr>), sy_wire := [] \<rparr>)"
| written: "se_client (sy_session w) = q # rest \<Longrightarrow> k \<notin> fst ` set (sy_wire w) \<Longrightarrow>
    mqtt_step x node w (w\<lparr> sy_session := note_packet_written k ((sy_session w)\<lparr> se_client := rest \<rparr>),
      sy_wire := sy_wire w @ [(k, q)] \<rparr>)"
| ack: "sy_wire w = us @ (k, q) # vs \<Longrightarrow>
    mqtt_step x node w (w\<lparr> sy_session := note_puback x a k (sy_session w), sy_wire := us @ vs,
      sy_delivered := sy_delivered w @ [q] \<rparr>)"
| commit: "mqtt_step x node w (w\<lparr> sy_session := on_commit x a (sy_session w) \<rparr>)"
| heartbeat: "mqtt_step x node w (w\<lparr> sy_session := on_heartbeat x r a (sy_session w) \<rparr>)"
| engine: "n = exec x node op (se_db (sy_session w)) \<Longrightarrow>
    mqtt_step x node w (w\<lparr> sy_session := (sy_session w)\<lparr> se_db := n \<rparr>,
      sy_enqueued := sy_enqueued w \<union> set (observation_outbox_t (tables n)) \<rparr>)"
| fault: "mqtt_step x node w (w\<lparr> sy_session := (sy_session w)\<lparr> se_faults := fst (fault_step e (se_faults (sy_session w))) \<rparr> \<rparr>)"

definition system_start :: "session \<Rightarrow> mqtt_system" where
  "system_start s = \<lparr> sy_session = s, sy_wire = [], sy_delivered = [],
     sy_enqueued = set (observation_outbox_t (tables (se_db s))) \<rparr>"

section \<open>Invariant\<close>

definition waiting :: "(u16 \<times> request) list \<Rightarrow> request list \<Rightarrow> pending_publish list" where
  "waiting wire client =
     map (\<lambda>(k, q). \<lparr> pe_publication = rq_publication q, pe_pkid = Some k \<rparr>) wire @
     map (\<lambda>q. \<lparr> pe_publication = rq_publication q, pe_pkid = None \<rparr>) client"

definition observations :: "request list \<Rightarrow> request list" where
  "observations qs = filter (\<lambda>q. rq_publication q \<noteq> PStatus) qs"

text \<open>At most one observation is with the client, namely the oldest row of the outbox.\<close>

definition in_flight :: "tables \<Rightarrow> i64 option \<Rightarrow> request list \<Rightarrow> bool" where
  "in_flight t f obs \<longleftrightarrow> (case f of None \<Rightarrow> obs = []
     | Some n \<Rightarrow> \<exists>row. oldest_row t = Some row \<and> outbox_seq row = n \<and> obs = [request_of row])"

definition session_inv :: "session \<Rightarrow> (u16 \<times> request) list \<Rightarrow> bool" where
  "session_inv s wire \<longleftrightarrow> se_pending s = waiting wire (se_client s) \<and> distinct (map fst wire) \<and>
     outbox_ok (tables (se_db s)) \<and> 
     in_flight (tables (se_db s)) (se_inflight s) (observations (map snd wire @ se_client s))"

lemma observations_simps [simp]:
  "observations [] = []" "observations (p @ q) = observations p @ observations q"
  "observations (r # q) = (if rq_publication r = PStatus then observations q else r # observations q)"
  by (simp_all add: observations_def)

lemma waiting_simps:
  "waiting [] [] = []"
  "waiting wire (client @ [q]) = waiting wire client @ [\<lparr> pe_publication = rq_publication q, pe_pkid = None \<rparr>]"
  by (simp_all add: waiting_def)

lemma request_of_publication [simp]: "rq_publication (request_of row) = POutbox (outbox_seq row)"
  by (simp add: request_of_def)

lemma session_inv_other:
  assumes "session_inv s wire" "tables n = tables (se_db s)"
  shows "session_inv (s\<lparr> se_clock := c, se_db := n \<rparr>) wire"
  using assms by (simp add: session_inv_def)

text \<open>A status changes neither the outbox nor what is in flight.\<close>

lemma session_now_tables: "tables (se_db (snd (session_now x r s))) = tables (se_db s)"
  using refresh_cases [of x "nw_clock r" "\<lparr> ck_trust = se_clock s, ck_node = se_db s \<rparr>", THEN conjunct1]
  by (auto simp: session_now_def split: prod.splits)

lemma session_now_session: "\<exists>c n. snd (session_now x r s) = s\<lparr> se_clock := c, se_db := n \<rparr>"
  by (auto simp: session_now_def split: prod.splits)

lemma publish_status_inv:
  assumes "session_inv s wire"
  shows "session_inv (publish_status x r a v s) wire \<and> tables (se_db (publish_status x r a v s)) = tables (se_db s)"
proof -
  obtain c n where now: "snd (session_now x r s) = s\<lparr> se_clock := c, se_db := n \<rparr>" "tables n = tables (se_db s)"
    using session_now_session [of x r s] session_now_tables [of x r s] by auto
  have inv: "session_inv (s\<lparr> se_clock := c, se_db := n \<rparr>) wire" by (rule session_inv_other [OF assms now(2)])
  have "publish_status x r a v s = publish_mqtt a PStatus (se_status_topic s) True
      (status_payload x (status_now v (snapshot (se_faults s)) (fst (session_now x r s)))) (s\<lparr> se_clock := c, se_db := n \<rparr>)"
    using now(1) by (cases "session_now x r s") (simp add: publish_status_def)
  then show ?thesis using inv now(2)
    by (auto simp: publish_mqtt_def session_inv_def waiting_simps)
qed

lemma oldest_cases:
  "oldest x n = (if sql_fault x (sql_step n) then Inl SqliteFailure else Inr (oldest_row (tables n)),
     n\<lparr> sql_step := Suc (sql_step n) \<rparr>)"
  by (simp add: oldest_def select_def sql_def Let_def)

lemma publish_next_inv:
  assumes "session_inv s wire"
  shows "session_inv (publish_next_outbox_row x a s) wire \<and>
    tables (se_db (publish_next_outbox_row x a s)) = tables (se_db s)"
proof (cases "se_inflight s \<noteq> None \<or> sql_fault x (sql_step (se_db s)) \<or> oldest_row (tables (se_db s)) = None")
  case True
  then show ?thesis using assms
    by (auto simp: publish_next_outbox_row_def oldest_cases session_inv_def in_flight_def)
next
  case False
  then obtain row where row: "oldest_row (tables (se_db s)) = Some row" "se_inflight s = None" by auto
  then show ?thesis using assms False
    by (auto simp: publish_next_outbox_row_def oldest_cases publish_mqtt_def session_inv_def in_flight_def waiting_simps
        request_of_def)
qed

lemma assign_pkid_waiting:
  "assign_pkid k (waiting wire (q # rest)) = waiting (wire @ [(k, q)]) rest"
  by (induction wire) (auto simp: waiting_def)

lemma write_inv:
  assumes "session_inv s wire" "se_client s = q # rest" "k \<notin> fst ` set wire"
  shows "session_inv (note_packet_written k (s\<lparr> se_client := rest \<rparr>)) (wire @ [(k, q)])"
  using assms by (simp add: session_inv_def note_packet_written_def assign_pkid_waiting)

lemma remove_pkid_waiting:
  assumes "distinct (map fst (us @ (k, q) # vs))"
  shows "remove_pkid k (waiting (us @ (k, q) # vs) client) =
    Some (\<lparr> pe_publication = rq_publication q, pe_pkid = Some k \<rparr>, waiting (us @ vs) client)"
  using assms by (induction us) (auto simp: waiting_def)

lemma outbox_delete_tables:
  "tables (snd (outbox_delete x n s)) = (if sql_fault x (sql_step s) then tables s else delete_row n (tables s))"
  by (simp add: outbox_delete_def execute_def sql_def Let_def)

text \<open>The acknowledgement of a status.\<close>

lemma ack_status:
  assumes "session_inv s (us @ (k, q) # vs)" "rq_publication q = PStatus"
  shows "session_inv (note_puback x a k s) (us @ vs) \<and> tables (se_db (note_puback x a k s)) = tables (se_db s)"
  using assms remove_pkid_waiting [of us k q vs "se_client s"]
  by (auto simp: session_inv_def note_puback_def)

text \<open>The acknowledgement of an observation deletes exactly the oldest row of the outbox, or fails to.\<close>

lemma ack_observation:
  assumes "session_inv s (us @ (k, q) # vs)" "rq_publication q = POutbox n"
  shows "\<exists>row. oldest_row (tables (se_db s)) = Some row \<and> q = request_of row \<and>
    session_inv (note_puback x a k s) (us @ vs) \<and>
    tables (se_db (note_puback x a k s)) =
      (if sql_fault x (sql_step (se_db s)) then tables (se_db s) else delete_row (outbox_seq row) (tables (se_db s)))"
proof -
  let ?qs = "map snd (us @ (k, q) # vs) @ se_client s"
  have inv: "se_pending s = waiting (us @ (k, q) # vs) (se_client s)" "distinct (map fst (us @ (k, q) # vs))"
      "outbox_ok (tables (se_db s))" "in_flight (tables (se_db s)) (se_inflight s) (observations ?qs)"
    using assms(1) by (simp_all add: session_inv_def)
  have "q \<in> set (observations ?qs)" using assms(2) by (simp add: observations_def)
  then obtain m row where row: "se_inflight s = Some m" "oldest_row (tables (se_db s)) = Some row" "outbox_seq row = m"
      "observations ?qs = [request_of row]"
    using inv(4) by (auto simp: in_flight_def split: option.splits)
  have q: "q = request_of row" using \<open>q \<in> set (observations ?qs)\<close> unfolding row(4) by simp
  then have n: "n = outbox_seq row" using assms(2) by simp
  have rest: "observations (map snd (us @ vs) @ se_client s) = []"
    using row(4) assms(2) by (auto simp: append_eq_Cons_conv)
  define s3 where "s3 = s\<lparr> se_pending := waiting (us @ vs) (se_client s), se_db := snd (outbox_delete x n (se_db s)), se_inflight := None \<rparr>"
  have ack: "note_puback x a k s = publish_next_outbox_row x a s3"
    using remove_pkid_waiting [OF inv(2), of "se_client s"] inv(1) assms(2) row(1,3) n
    by (simp add: note_puback_def s3_def Let_def)
  have t3: "tables (se_db s3) = (if sql_fault x (sql_step (se_db s)) then tables (se_db s) else delete_row n (tables (se_db s)))"
    by (simp add: s3_def outbox_delete_tables)
  then have "session_inv s3 (us @ vs)"
    using inv(2,3) rest outbox_queue.ok_drop [OF inv(3), of n] by (auto simp: session_inv_def in_flight_def s3_def)
  then show ?thesis using publish_next_inv [of s3 "us @ vs" x a] t3 row(2) q n ack by auto
qed

section \<open>The system keeps every observation\<close>

fun publication_seq :: "mqtt_publication \<Rightarrow> i64" where
  "publication_seq PStatus = 0"
| "publication_seq (POutbox n) = n"

abbreviation outbox_rows :: "mqtt_system \<Rightarrow> outbox_row list" where
  "outbox_rows w \<equiv> observation_outbox_t (tables (se_db (sy_session w)))"

definition delivered_seqs :: "request list \<Rightarrow> i64 list" where
  "delivered_seqs qs = map (publication_seq \<circ> rq_publication) (observations qs)"

lemma delivered_seqs_snoc:
  "delivered_seqs (qs @ [q]) = delivered_seqs qs @ (if rq_publication q = PStatus then [] else [publication_seq (rq_publication q)])"
  by (simp add: delivered_seqs_def)

text \<open>What the broker has acknowledged, against the outbox and against what the outbox ever held.\<close>

definition history_inv :: "tables \<Rightarrow> request list \<Rightarrow> outbox_row set \<Rightarrow> bool" where
  "history_inv t delivered enqueued \<longleftrightarrow>
     set (observation_outbox_t t) \<subseteq> enqueued \<and>
     (\<forall>row\<in>enqueued. row \<in> set (observation_outbox_t t) \<or> request_of row \<in> set delivered) \<and>
     set (observations delivered) \<subseteq> request_of ` enqueued \<and>
     sorted (delivered_seqs delivered) \<and>
     (\<forall>n\<in>set (delivered_seqs delivered). n \<le> outbox_autoinc t \<and> (\<forall>row\<in>set (observation_outbox_t t). n \<le> outbox_seq row))"

definition delivery_inv :: "mqtt_system \<Rightarrow> bool" where
  "delivery_inv w \<longleftrightarrow> session_inv (sy_session w) (sy_wire w) \<and>
     history_inv (tables (se_db (sy_session w))) (sy_delivered w) (sy_enqueued w)"

lemma history_start: "history_inv t [] (set (observation_outbox_t t))"
  by (simp add: history_inv_def delivered_seqs_def)

lemma history_status: "rq_publication q = PStatus \<Longrightarrow> history_inv t d e \<Longrightarrow> history_inv t (d @ [q]) e"
  by (auto simp: history_inv_def delivered_seqs_snoc)

text \<open>Acknowledging the oldest row, before and after its deletion.\<close>

lemma history_ack:
  assumes "history_inv t d e" "outbox_ok t" "oldest_row t = Some row"
  shows "history_inv t (d @ [request_of row]) e"
proof -
  have row: "row \<in> set (observation_outbox_t t)" "\<And>q. q \<in> set (observation_outbox_t t) \<Longrightarrow> outbox_seq row \<le> outbox_seq q"
      "outbox_seq row \<le> outbox_autoinc t"
    using outbox_queue.first_in_rows outbox_queue.first_is_least outbox_queue.bounded assms(2,3) by blast+
  show ?thesis using assms(1) row by (auto simp: history_inv_def delivered_seqs_snoc sorted_append)
qed

lemma history_drop:
  assumes "history_inv t d e" "outbox_ok t" "row \<in> set (observation_outbox_t t)" "request_of row \<in> set d"
  shows "history_inv (delete_row (outbox_seq row) t) d e"
proof -
  have "q = row" if "q \<in> set (observation_outbox_t t)" "outbox_seq q = outbox_seq row" for q
    using outbox_queue.seq_unique [OF assms(2)] assms(3) that by blast
  then show ?thesis using assms(1,4) by (auto simp: history_inv_def delete_row_def)
qed

lemma history_grow:
  assumes "history_inv t d e" "observation_outbox_t t' = observation_outbox_t t @ new"
    "outbox_autoinc t \<le> outbox_autoinc t'" "\<forall>r\<in>set new. outbox_autoinc t < outbox_seq r"
  shows "history_inv t' d (e \<union> set (observation_outbox_t t'))"
proof -
  have "n \<le> outbox_autoinc t' \<and> (\<forall>row\<in>set (observation_outbox_t t'). n \<le> outbox_seq row)" if "n \<in> set (delivered_seqs d)" for n
  proof -
    have n: "n \<le> outbox_autoinc t" "\<forall>row\<in>set (observation_outbox_t t). n \<le> outbox_seq row"
      using assms(1) that by (simp_all add: history_inv_def)
    then show ?thesis using assms(2-4) by (auto dest: bspec)
  qed
  then show ?thesis using assms(1,2) unfolding history_inv_def by auto
qed

lemma session_inv_reset:
  "outbox_ok (tables (se_db s)) \<Longrightarrow>
   session_inv (s\<lparr> se_client := [], se_connected := c, se_pending := [], se_inflight := None \<rparr>) []"
  by (simp add: session_inv_def waiting_simps in_flight_def)

lemma oldest_grow:
  assumes "outbox_ok t" "outbox_ok t'" "observation_outbox_t t' = observation_outbox_t t @ new" "oldest_row t = Some row"
  shows "oldest_row t' = Some row"
  using assms by (auto simp: outbox_queue.first_row split: list.splits)

lemma in_flight_grow:
  "in_flight t f obs \<Longrightarrow> outbox_ok t \<Longrightarrow> outbox_ok t' \<Longrightarrow> observation_outbox_t t' = observation_outbox_t t @ new \<Longrightarrow>
   in_flight t' f obs"
  using oldest_grow [of t t' new] by (cases f) (auto simp: in_flight_def)

lemma connack_inv:
  assumes "outbox_ok (tables (se_db s))"
  shows "session_inv (on_connack x r a b (s\<lparr> se_client := [] \<rparr>)) [] \<and>
    tables (se_db (on_connack x r a b (s\<lparr> se_client := [] \<rparr>))) = tables (se_db s)"
proof -
  let ?s = "publish_status x r a Online (s\<lparr> se_client := [], se_connected := True, se_pending := [], se_inflight := None \<rparr>)"
  have "session_inv ?s [] \<and> tables (se_db ?s) = tables (se_db s)"
    using publish_status_inv [OF session_inv_reset [OF assms], of x r a Online True] by simp
  then show ?thesis using publish_next_inv [of ?s "[]" x b] by (simp add: on_connack_def)
qed

lemma ack_inv:
  assumes "session_inv s (us @ (k, q) # vs)" "history_inv (tables (se_db s)) d e"
  shows "session_inv (note_puback x a k s) (us @ vs) \<and> history_inv (tables (se_db (note_puback x a k s))) (d @ [q]) e"
proof (cases "rq_publication q")
  case PStatus
  then show ?thesis using ack_status [OF assms(1) PStatus, of x a] history_status [OF PStatus assms(2)] by simp
next
  case (POutbox n)
  obtain row where row: "oldest_row (tables (se_db s)) = Some row" "q = request_of row"
      "session_inv (note_puback x a k s) (us @ vs)"
      "tables (se_db (note_puback x a k s)) =
        (if sql_fault x (sql_step (se_db s)) then tables (se_db s) else delete_row (outbox_seq row) (tables (se_db s)))"
    using ack_observation [OF assms(1) POutbox] by blast
  have ok: "outbox_ok (tables (se_db s))" using assms(1) by (simp add: session_inv_def)
  have h: "history_inv (tables (se_db s)) (d @ [q]) e" using history_ack [OF assms(2) ok row(1)] row(2) by simp
  then have "history_inv (delete_row (outbox_seq row) (tables (se_db s))) (d @ [q]) e"
    using history_drop [OF h ok outbox_queue.first_in_rows [OF ok row(1)]] row(2) by simp
  then show ?thesis using row(3,4) h by auto
qed

lemma engine_inv:
  assumes "session_inv s wire" "history_inv (tables (se_db s)) d e" "n = exec x node op (se_db s)"
  shows "session_inv (s\<lparr> se_db := n \<rparr>) wire \<and> history_inv (tables n) d (e \<union> set (observation_outbox_t (tables n)))"
proof -
  have ok: "outbox_ok (tables (se_db s))" using assms(1) by (simp add: session_inv_def)
  obtain new where new: "outbox_ok (tables n)" "outbox_autoinc (tables (se_db s)) \<le> outbox_autoinc (tables n)"
      "observation_outbox_t (tables n) = observation_outbox_t (tables (se_db s)) @ new"
      "\<forall>r\<in>set new. outbox_autoinc (tables (se_db s)) < outbox_seq r"
    using exec_outbox [OF ok] assms(3) by blast
  show ?thesis using assms(1) new(1) in_flight_grow [OF _ ok new(1,3)] history_grow [OF assms(2) new(3,2,4)]
    by (simp add: session_inv_def)
qed

lemma heartbeat_inv:
  assumes "session_inv s wire"
  shows "session_inv (on_heartbeat x r a s) wire \<and> tables (se_db (on_heartbeat x r a s)) = tables (se_db s)"
  using assms publish_status_inv by (simp add: on_heartbeat_def)

lemma commit_inv:
  assumes "session_inv s wire"
  shows "session_inv (on_commit x a s) wire \<and> tables (se_db (on_commit x a s)) = tables (se_db s)"
  using assms publish_next_inv by (simp add: on_commit_def)

lemma mqtt_step_inv: "mqtt_step x node w w' \<Longrightarrow> delivery_inv w \<Longrightarrow> delivery_inv w'"
proof (induction rule: mqtt_step.induct)
  case (connack w r a b)
  then show ?case using connack_inv [of "sy_session w" x r a b] by (simp add: delivery_inv_def session_inv_def [of "sy_session w"])
next
  case (error w)
  then show ?case using session_inv_reset [of "sy_session w" False]
    by (simp add: delivery_inv_def on_error_def session_inv_def [of "sy_session w"])
next
  case (written w q rest k)
  then show ?case using write_inv [of "sy_session w" "sy_wire w" q rest k]
    by (simp add: delivery_inv_def note_packet_written_def)
next
  case (ack w us k q vs a)
  then show ?case using ack_inv [of "sy_session w" us k q vs "sy_delivered w" "sy_enqueued w" x a] by (simp add: delivery_inv_def)
next
  case (commit w a)
  then show ?case using commit_inv [of "sy_session w" "sy_wire w" x a] by (simp add: delivery_inv_def)
next
  case (heartbeat w r a)
  then show ?case using heartbeat_inv [of "sy_session w" "sy_wire w" x r a] by (simp add: delivery_inv_def)
next
  case (engine n op w)
  then show ?case using engine_inv [of "sy_session w" "sy_wire w" "sy_delivered w" "sy_enqueued w" n x node op] by (simp add: delivery_inv_def)
next
  case (fault w e)
  then show ?case by (simp add: delivery_inv_def session_inv_def)
qed

definition reaches :: "ext \<Rightarrow> edge_node_id \<Rightarrow> mqtt_system \<Rightarrow> mqtt_system \<Rightarrow> bool" where
  "reaches x node = (mqtt_step x node)\<^sup>*\<^sup>*"

lemma reaches_inv: "reaches x node w w' \<Longrightarrow> delivery_inv w \<Longrightarrow> delivery_inv w'"
  unfolding reaches_def by (induction rule: rtranclp_induct) (auto intro: mqtt_step_inv)

section \<open>The outbox can always be drained\<close>

lemma session_now_frame:
  "se_connected (snd (session_now x r s)) = se_connected s" "se_client (snd (session_now x r s)) = se_client s"
  "se_inflight (snd (session_now x r s)) = se_inflight s" "se_pending (snd (session_now x r s)) = se_pending s"
  using session_now_session [of x r s] by auto

lemma publish_status_client:
  "\<exists>q. rq_publication q = PStatus \<and> se_client (publish_status x r True v s) = se_client s @ [q]"
  by (auto simp: publish_status_def publish_mqtt_def session_now_frame split: prod.splits)
    (metis session_now_frame(2) snd_conv)

lemma publish_status_inflight: "se_inflight (publish_status x r a v s) = se_inflight s"
  using session_now_frame [of x r s] by (auto simp: publish_status_def publish_mqtt_def split: prod.splits)

text \<open>After a connection is made the session has asked for the status and then the oldest row, in this order.\<close>

lemma connack_client:
  assumes "\<And>n. \<not> sql_fault x n" "oldest_row (tables (se_db s)) = Some row" "outbox_ok (tables (se_db s))"
  shows "\<exists>q. rq_publication q = PStatus \<and> se_client (on_connack x r True True (s\<lparr> se_client := [] \<rparr>)) = [q, request_of row]"
proof -
  define s0 where "s0 = s\<lparr> se_client := [], se_connected := True, se_pending := [], se_inflight := None \<rparr>"
  define s1 where "s1 = publish_status x r True Online s0"
  obtain q where q: "rq_publication q = PStatus" "se_client s1 = [q]"
    using publish_status_client [of x r Online s0] by (auto simp: s0_def s1_def)
  have t: "tables (se_db s1) = tables (se_db s)"
    using publish_status_inv [OF session_inv_reset [OF assms(3)], of x r True Online True] by (simp add: s1_def s0_def)
  have f: "se_inflight s1 = None" by (simp add: s1_def publish_status_inflight s0_def)
  have "se_client (publish_next_outbox_row x True s1) = [q, request_of row]"
    using q t f assms(1,2) by (simp add: publish_next_outbox_row_def oldest_cases publish_mqtt_def request_of_def)
  then show ?thesis using q(1) by (auto simp: on_connack_def s1_def s0_def)
qed

text \<open>A fresh connection on which the status and the oldest row are written and the row acknowledged.\<close>

lemma deliver_one:
  assumes "\<And>n. \<not> sql_fault x n" "delivery_inv w" "outbox_rows w = row # rows"
  shows "\<exists>w'. reaches x node w w' \<and> outbox_rows w' = rows"
proof -
  let ?s = "sy_session w" and ?r = "undefined :: now_reading"
  have ok: "outbox_ok (tables (se_db ?s))" using assms(2) by (simp add: delivery_inv_def session_inv_def)
  have old: "oldest_row (tables (se_db ?s)) = Some row" using assms(3) by (simp add: outbox_queue.first_row [OF ok])
  define w1 where "w1 = w\<lparr> sy_session := on_error (?s\<lparr> se_client := [] \<rparr>), sy_wire := [] \<rparr>"
  define w2 where "w2 = w1\<lparr> sy_session := on_connack x ?r True True ((sy_session w1)\<lparr> se_client := [] \<rparr>), sy_wire := [] \<rparr>"
  have step1: "mqtt_step x node w w1" unfolding w1_def by (rule mqtt_step.error)
  have step2: "mqtt_step x node w1 w2" unfolding w2_def by (rule mqtt_step.connack) (simp add: w1_def on_error_def)
  have t1: "tables (se_db (sy_session w1)) = tables (se_db ?s)" by (simp add: w1_def on_error_def)
  obtain q where q: "rq_publication q = PStatus" "se_client (sy_session w2) = [q, request_of row]"
    using connack_client [of x "sy_session w1" row ?r, OF assms(1)] ok old by (auto simp: w2_def t1)
  have t2: "tables (se_db (sy_session w2)) = tables (se_db ?s)"
    using connack_inv [of "sy_session w1" x ?r True True] ok t1 by (simp add: w2_def)
  define w3 where "w3 = w2\<lparr> sy_session := note_packet_written 1 ((sy_session w2)\<lparr> se_client := [request_of row] \<rparr>),
    sy_wire := sy_wire w2 @ [(1, q)] \<rparr>"
  define w4 where "w4 = w3\<lparr> sy_session := note_packet_written 2 ((sy_session w3)\<lparr> se_client := [] \<rparr>),
    sy_wire := sy_wire w3 @ [(2, request_of row)] \<rparr>"
  have step3: "mqtt_step x node w2 w3" unfolding w3_def by (rule mqtt_step.written [OF q(2)]) (simp add: w2_def)
  have step4: "mqtt_step x node w3 w4" unfolding w4_def
    by (rule mqtt_step.written) (simp_all add: w3_def w2_def note_packet_written_def)
  have wire: "sy_wire w4 = [(1, q)] @ (2, request_of row) # []" by (simp add: w4_def w3_def w2_def)
  have t4: "tables (se_db (sy_session w4)) = tables (se_db ?s)" by (simp add: w4_def w3_def note_packet_written_def t2)
  define w5 where "w5 = w4\<lparr> sy_session := note_puback x True 2 (sy_session w4), sy_wire := [(1, q)] @ [],
    sy_delivered := sy_delivered w4 @ [request_of row] \<rparr>"
  have step5: "mqtt_step x node w4 w5" unfolding w5_def by (rule mqtt_step.ack [OF wire])
  have run: "reaches x node w w4" unfolding reaches_def
    using step1 step2 step3 step4 by (meson rtranclp.rtrancl_into_rtrancl rtranclp.rtrancl_refl)
  have "session_inv (sy_session w4) ([(1, q)] @ (2, request_of row) # [])"
    using reaches_inv [OF run assms(2)] wire by (simp add: delivery_inv_def)
  then have "tables (se_db (note_puback x True 2 (sy_session w4))) = delete_row (outbox_seq row) (tables (se_db ?s))"
    using ack_observation [of "sy_session w4" "[(1, q)]" 2 "request_of row" "[]" "outbox_seq row" x True] assms(1) t4 old
    by auto
  then have "outbox_rows w5 = rows"
    using outbox_queue.drop_first [OF ok old] assms(3) by (simp add: w5_def)
  moreover have "reaches x node w w5"
    using run step5 unfolding reaches_def by (rule rtranclp.rtrancl_into_rtrancl)
  ultimately show ?thesis by blast
qed

lemma drain:
  assumes "\<And>n. \<not> sql_fault x n" "delivery_inv w"
  shows "\<exists>w'. reaches x node w w' \<and> outbox_rows w' = []"
  using assms(2)
proof (induction "outbox_rows w" arbitrary: w)
  case Nil
  then show ?case by (auto simp: reaches_def)
next
  case (Cons row rows)
  then obtain w1 where w1: "reaches x node w w1" "outbox_rows w1 = rows"
    using deliver_one [of x w row rows node, OF assms(1)] by metis
  then obtain w2 where "reaches x node w1 w2" "outbox_rows w2 = []"
    using Cons.hyps(1) [of w1] reaches_inv [OF w1(1) Cons.prems] by auto
  then show ?case using w1(1) unfolding reaches_def by (meson rtranclp_trans)
qed

section \<open>Properties\<close>

lemma start_inv:
  "outbox_ok (tables n) \<Longrightarrow> delivery_inv (system_start (initial_session a n ct f))"
  by (simp add: delivery_inv_def system_start_def initial_session_def history_start session_inv_def waiting_simps in_flight_def)

lemma in_flight_one: "in_flight t f obs \<Longrightarrow> length obs \<le> 1"
  by (auto simp: in_flight_def split: option.splits)

lemma in_flight_oldest: "in_flight t f obs \<Longrightarrow> \<forall>q\<in>set obs. \<exists>row. oldest_row t = Some row \<and> q = request_of row"
  by (auto simp: in_flight_def split: option.splits)

text \<open>A node with one row in its outbox, and its first connection.\<close>

definition demo_output :: output_mqtt where
  "demo_output = \<lparr> om_connection = \<lparr> mo_host = ''broker'', mo_port = 1883, mo_password_file = ''pw'', mo_trust_mode = SystemRoots,
       mo_ca_file = None, mo_allow_insecure = True \<rparr>,
     om_edge_node_id = EdgeNodeId ''node'', om_heartbeat_interval = 60000, om_password = ''secret'', om_ca = None \<rparr>"

definition demo_row :: outbox_row where
  "demo_row = outbox_row_of (PipelineId ''count'') ''t'' ''{}'' True (demo_time 0) 1"

definition demo_outbox_node :: node where
  "demo_outbox_node = demo_node\<lparr> tables := add_row (outbox_row_of (PipelineId ''count'') ''t'' ''{}'' True (demo_time 0)) empty_tables \<rparr>"

definition demo_clock_trust :: clock_trust where
  "demo_clock_trust = \<lparr> backward_tolerance_ms = 10, checkpoint_interval_ms = 60,
     ct_state = \<lparr> rs_evidence = Untrusted, rs_last_wall_ms = None, rs_consumed_manual_seq = 0, rs_last_checkpoint_monotonic_ms = 0 \<rparr> \<rparr>"

definition demo_now :: now_reading where
  "demo_now = \<lparr> nw_clock = demo_clock_reading 400 False, nw_wall = 400, nw_uptime = 400 \<rparr>"

definition demo_session :: session where
  "demo_session = initial_session demo_output demo_outbox_node demo_clock_trust empty_faults"

definition demo_connected :: mqtt_system where
  "demo_connected = (system_start demo_session)\<lparr>
     sy_session := on_connack demo_ext demo_now True True ((sy_session (system_start demo_session))\<lparr> se_client := [] \<rparr>), sy_wire := [] \<rparr>"

lemma demo_outbox_ok: "outbox_ok (tables demo_outbox_node)"
  by (simp add: demo_outbox_node_def outbox_ok_def add_row_def empty_tables_def outbox_row_of_def)

lemma demo_reaches:
  "reaches demo_ext (EdgeNodeId ''node'')
     (system_start (initial_session demo_output demo_outbox_node demo_clock_trust empty_faults)) demo_connected"
  unfolding reaches_def demo_connected_def demo_session_def
  by (intro r_into_rtranclp mqtt_step.connack) (simp add: system_start_def initial_session_def)

text \<open>C30: No observation is lost or invented between the engine and the broker. Whatever the order of
  engine transactions, connections, failures, acknowledgements and failing SQL statements, every row the
  outbox ever held is still in the outbox or was acknowledged by the broker with its exact topic, payload
  and retain flag, and every acknowledged publish is a status or such a row.\<close>

theorem observations_kept:
  assumes "outbox_ok (tables n)"
    and "reaches x node (system_start (initial_session a n ct f)) w"
  shows "(\<forall>row\<in>sy_enqueued w. row \<in> set (observation_outbox_t (tables (se_db (sy_session w)))) \<or> request_of row \<in> set (sy_delivered w)) \<and>
    (\<forall>q\<in>set (sy_delivered w). rq_publication q = PStatus \<or> q \<in> request_of ` sy_enqueued w)"
  using reaches_inv [OF assms(2) start_inv [OF assms(1)]]
  by (auto simp: delivery_inv_def history_inv_def observations_def)

theorem observations_kept_witness:
  "demo_row \<in> set (observation_outbox_t (tables (se_db (sy_session demo_connected)))) \<or>
   request_of demo_row \<in> set (sy_delivered demo_connected)"
proof -
  have "demo_row \<in> sy_enqueued demo_connected"
    by (simp add: demo_connected_def system_start_def demo_session_def initial_session_def demo_outbox_node_def add_row_def
        demo_row_def empty_tables_def)
  then show ?thesis using observations_kept [OF demo_outbox_ok demo_reaches] by blast
qed



text \<open>C32: The outbox can always be emptied: from every reachable state, however the session was interrupted,
  there is a run of connections and acknowledgements after which no row waits, as long as SQL statements
  succeed. No bookkeeping of the session ever blocks the queue for good.\<close>

theorem outbox_drains:
  assumes "outbox_ok (tables n)" and "\<And>m. \<not> sql_fault x m"
    and "reaches x node (system_start (initial_session a n ct f)) w"
  shows "\<exists>w'. reaches x node w w' \<and> observation_outbox_t (tables (se_db (sy_session w'))) = []"
  using drain [OF assms(2) reaches_inv [OF assms(3) start_inv [OF assms(1)]]] by blast

theorem outbox_drains_witness:
  "\<exists>w'. reaches demo_ext (EdgeNodeId ''node'') demo_connected w' \<and> observation_outbox_t (tables (se_db (sy_session w'))) = []"
  by (rule outbox_drains [OF demo_outbox_ok _ demo_reaches]) (simp add: demo_ext_def)

text \<open>C33: Shutdown takes the first acknowledgement for the one of the offline status. It forgets what is
  pending before it requests the offline status, so when an observation still waits in the client's queue,
  the packet written first is this observation, and its acknowledgement alone ends the shutdown as
  confirmed, although the offline status is still behind it in the queue.\<close>

theorem shutdown_first_packet:
  assumes "se_connected s" "se_client s = q # rest"
  shows "fst (shutdown_mqtt x r True [Written k, PubAck k] s) \<and>
    (\<exists>offline. rq_publication offline = PStatus \<and> se_client (shutdown_start x r True s) = q # rest @ [offline])"
proof -
  have "se_pending (shutdown_start x r True s) = [\<lparr> pe_publication = PStatus, pe_pkid = None \<rparr>]"
    using session_now_frame(4) [of x r "s\<lparr> se_pending := [] \<rparr>"]
    by (auto simp: shutdown_start_def publish_status_def publish_mqtt_def split: prod.splits)
  then have "fst (shutdown_mqtt x r True [Written k, PubAck k] s)"
    using assms(1) by (simp add: shutdown_mqtt_def note_packet_written_def note_puback_def Let_def)
  then show ?thesis
    using publish_status_client [of x r Offline "s\<lparr> se_pending := [] \<rparr>"] assms(2) by (simp add: shutdown_start_def)
qed

theorem shutdown_first_packet_witness:
  "fst (shutdown_mqtt demo_ext demo_now True [Written 7, PubAck 7]
     (demo_session\<lparr> se_connected := True, se_client := [request_of (outbox_row_of (PipelineId ''count'') ''t'' ''{}'' True (demo_time 0) 1)] \<rparr>))"
  by (rule shutdown_first_packet [where rest = "[]", THEN conjunct1]) simp_all

end
