(* ===== verification/Timeseries.thy ===== *)
theory Timeseries
  imports Ledger
begin

text \<open>
  The readings store (\<^verbatim>\<open>edge-node/core/timeseries/src/lib.rs\<close> and \<^verbatim>\<open>query.rs\<close>): the
  bounded deduplication window, stored readings with their event time, and the bounded staging of
  readings of hardware that no device is registered for. The limits are types of their own whose
  values only the checked constructors make.
\<close>

section \<open>Errors and limits\<close>

datatype timeseries_error =
    InvalidReading string
  | Limit string
  | TStorage storage_error

definition ts_sql :: "ext \<Rightarrow> (tables \<Rightarrow> sqlite_error + 'a \<times> tables) \<Rightarrow> (node, timeseries_error, 'a) act" where
  "ts_sql x f = mapErr (\<lambda>e. TStorage (StSqlite e)) (sql x f)"

definition ts_select :: "ext \<Rightarrow> (tables \<Rightarrow> 'a) \<Rightarrow> (node, timeseries_error, 'a) act" where
  "ts_select x f = ts_sql x (\<lambda>t. Inr (f t, t))"

record dedup_bounds =
  db_global_rows :: i64
  db_principal_rows :: i64
  db_max_age_ms :: i64

definition dedup_bounds_ok :: "dedup_bounds \<Rightarrow> bool" where
  "dedup_bounds_ok b \<longleftrightarrow> \<not> (db_global_rows b \<le> 0 \<or> db_principal_rows b \<le> 0 \<or>
     db_principal_rows b > db_global_rows b \<or> db_max_age_ms b \<le> 0)"

typedef dedup_limits = "{b. dedup_bounds_ok b}" morphisms dedup_of DedupLimits
  by (rule exI [of _ "\<lparr> db_global_rows = 1, db_principal_rows = 1, db_max_age_ms = 1 \<rparr>"]) (simp add: dedup_bounds_ok_def)

setup_lifting type_definition_dedup_limits

definition dedup_limits_new :: "i64 \<Rightarrow> i64 \<Rightarrow> i64 \<Rightarrow> timeseries_error + dedup_limits" where
  "dedup_limits_new g p a =
     (let b = \<lparr> db_global_rows = g, db_principal_rows = p, db_max_age_ms = a \<rparr> in
      if \<not> dedup_bounds_ok b then Inl (Limit ''dedup limits must be finite, positive, and ordered'')
      else Inr (DedupLimits b))"

lift_definition default_dedup_limits :: dedup_limits
  is "\<lparr> db_global_rows = 100000, db_principal_rows = 10000, db_max_age_ms = 72 * 60 * 60 * 1000 \<rparr>"
  by (simp add: dedup_bounds_ok_def)

record staging_bounds =
  sb_global_rows :: i64
  sb_principal_rows :: i64
  sb_global_bytes :: i64
  sb_principal_bytes :: i64
  sb_max_age_ms :: i64
  sb_reserve_rows :: i64
  sb_reserve_bytes :: i64

definition staging_bounds_ok :: "staging_bounds \<Rightarrow> bool" where
  "staging_bounds_ok b \<longleftrightarrow> \<not> (sb_global_rows b \<le> 0 \<or> sb_principal_rows b \<le> 0 \<or>
     sb_principal_rows b > sb_global_rows b \<or> sb_global_bytes b \<le> 0 \<or> sb_principal_bytes b \<le> 0 \<or>
     sb_principal_bytes b > sb_global_bytes b \<or> sb_max_age_ms b \<le> 0 \<or> sb_reserve_rows b \<le> 0 \<or>
     sb_reserve_rows b \<ge> sb_principal_rows b \<or> sb_reserve_bytes b \<le> 0 \<or> sb_reserve_bytes b \<ge> sb_principal_bytes b)"

typedef staging_limits = "{b. staging_bounds_ok b}" morphisms staging_of StagingLimits
  by (rule exI [of _ "\<lparr> sb_global_rows = 2, sb_principal_rows = 2, sb_global_bytes = 2, sb_principal_bytes = 2,
      sb_max_age_ms = 1, sb_reserve_rows = 1, sb_reserve_bytes = 1 \<rparr>"]) (simp add: staging_bounds_ok_def)

setup_lifting type_definition_staging_limits

definition staging_limits_new :: "i64 \<Rightarrow> i64 \<Rightarrow> i64 \<Rightarrow> i64 \<Rightarrow> i64 \<Rightarrow> i64 \<Rightarrow> i64 \<Rightarrow> timeseries_error + staging_limits" where
  "staging_limits_new gr pr gb pb a rr rb =
     (let b = \<lparr> sb_global_rows = gr, sb_principal_rows = pr, sb_global_bytes = gb, sb_principal_bytes = pb,
        sb_max_age_ms = a, sb_reserve_rows = rr, sb_reserve_bytes = rb \<rparr> in
      if \<not> staging_bounds_ok b
      then Inl (Limit ''staging limits and maximum-envelope reserve must be finite, positive, and ordered'')
      else Inr (StagingLimits b))"

lift_definition default_staging_limits :: staging_limits
  is "\<lparr> sb_global_rows = 10000, sb_principal_rows = 1000, sb_global_bytes = 64 * 1024 * 1024,
     sb_principal_bytes = 8 * 1024 * 1024, sb_max_age_ms = 30 * 24 * 60 * 60 * 1000, sb_reserve_rows = 256,
     sb_reserve_bytes = 64 * 1024 \<rparr>"
  by (simp add: staging_bounds_ok_def)

section \<open>The deduplication window\<close>

abbreviation dedup_rows :: "tables \<Rightarrow> dedup_entry list" where
  "dedup_rows t \<equiv> ingest_dedup_t (timeseries_t t)"

definition set_dedup :: "dedup_entry list \<Rightarrow> tables \<Rightarrow> tables" where
  "set_dedup rows t = t\<lparr> timeseries_t := (timeseries_t t)\<lparr> ingest_dedup_t := rows \<rparr> \<rparr>"

text \<open>The table has an implicit \<^verbatim>\<open>rowid\<close>: one more than the largest in use.\<close>

definition next_rowid :: "dedup_entry list \<Rightarrow> i64" where
  "next_rowid rows = fold (\<lambda>r m. max m (dd_rowid r)) rows 0 + 1"

definition claim_key :: "string \<Rightarrow> string \<Rightarrow> dedup_entry \<Rightarrow> bool" where
  "claim_key sender eid r \<longleftrightarrow> dd_sender_id r = sender \<and> dd_envelope_id r = eid"

text \<open>
  \<^verbatim>\<open>DELETE ... WHERE rowid=(SELECT rowid ... ORDER BY received_at, rowid LIMIT 1)\<close>.
\<close>

definition delete_oldest :: "(dedup_entry \<Rightarrow> bool) \<Rightarrow> dedup_entry list \<Rightarrow> dedup_entry list" where
  "delete_oldest P rows = (case sort_key (\<lambda>r. (dd_received_at r, dd_rowid r)) (filter P rows) of
     [] \<Rightarrow> rows
   | r # _ \<Rightarrow> filter (\<lambda>q. dd_rowid q \<noteq> dd_rowid r) rows)"

definition insert_claim :: "string \<Rightarrow> string \<Rightarrow> i64 \<Rightarrow> tables \<Rightarrow> sqlite_error + unit \<times> tables" where
  "insert_claim sender eid now t =
     (if list_ex (claim_key sender eid) (dedup_rows t) then Inl ConstraintPrimaryKey
      else Inr ((), set_dedup (dedup_rows t @ [\<lparr> dd_rowid = next_rowid (dedup_rows t), dd_sender_id = sender,
         dd_envelope_id = eid, dd_received_at = now \<rparr>]) t))"

lemma ts_sql_cases:
  "ts_sql x f s = (if sql_fault x (sql_step s) then (Inl (TStorage (StSqlite SqliteFailure)), s\<lparr> sql_step := Suc (sql_step s) \<rparr>)
     else case f (tables s) of Inl e \<Rightarrow> (Inl (TStorage (StSqlite e)), s\<lparr> sql_step := Suc (sql_step s) \<rparr>)
       | Inr (a, t) \<Rightarrow> (Inr a, s\<lparr> sql_step := Suc (sql_step s), tables := t \<rparr>))"
  by (auto simp: ts_sql_def sql_def mapErr_def Let_def split: sum.splits prod.splits)

lemma ts_sql_Inr:
  "ts_sql x f s = (Inr a, s') \<longleftrightarrow> \<not> sql_fault x (sql_step s) \<and>
     (\<exists>t. f (tables s) = Inr (a, t) \<and> s' = s\<lparr> sql_step := Suc (sql_step s), tables := t \<rparr>)"
  by (auto simp: ts_sql_cases split: sum.splits)

lemma ts_select_Inr:
  "ts_select x f s = (Inr a, s') \<longleftrightarrow> \<not> sql_fault x (sql_step s) \<and> a = f (tables s) \<and> s' = s\<lparr> sql_step := Suc (sql_step s) \<rparr>"
  by (auto simp: ts_select_def ts_sql_Inr)

lemma delete_oldest_shorter:
  assumes "\<exists>r\<in>set rows. P r"
  shows "length (delete_oldest P rows) < length rows"
proof -
  let ?s = "sort_key (\<lambda>r. (dd_received_at r, dd_rowid r)) (filter P rows)"
  have "set ?s \<noteq> {}" using assms by auto
  then obtain r rs where s: "?s = r # rs" by (cases ?s) auto
  then have "r \<in> set rows" using set_sort [of "\<lambda>r. (dd_received_at r, dd_rowid r)" "filter P rows"] by auto
  then have "length (filter (\<lambda>q. dd_rowid q \<noteq> dd_rowid r) rows) < length rows"
    by (intro length_filter_less [where x = r]) simp_all
  then show ?thesis by (simp add: delete_oldest_def s)
qed

lemma dedup_of_pos: "0 < db_principal_rows (dedup_of lm)" "0 < db_global_rows (dedup_of lm)" "0 < db_max_age_ms (dedup_of lm)"
    "db_principal_rows (dedup_of lm) \<le> db_global_rows (dedup_of lm)"
  using dedup_of [of lm] by (auto simp: dedup_bounds_ok_def)

text \<open>The eviction loop: it deletes the oldest claim of the sender, or of all, until one more fits.\<close>

function evict_claims :: "ext \<Rightarrow> string \<Rightarrow> dedup_limits \<Rightarrow> node \<Rightarrow> (timeseries_error + unit) \<times> node" where
  "evict_claims x sender lm s =
     (case ts_select x (\<lambda>t. int (length (filter (\<lambda>r. dd_sender_id r = sender) (dedup_rows t)))) s of
        (Inl e, s1) \<Rightarrow> (Inl e, s1)
      | (Inr principal_count, s1) \<Rightarrow>
     (case ts_select x (\<lambda>t. int (length (dedup_rows t))) s1 of
        (Inl e, s2) \<Rightarrow> (Inl e, s2)
      | (Inr global_count, s2) \<Rightarrow>
        if principal_count < db_principal_rows (dedup_of lm) \<and> global_count < db_global_rows (dedup_of lm) then (Inr (), s2)
        else (case ts_sql x (\<lambda>t. Inr ((), set_dedup (delete_oldest
                 (if db_principal_rows (dedup_of lm) \<le> principal_count then (\<lambda>r. dd_sender_id r = sender) else (\<lambda>_. True))
                 (dedup_rows t)) t)) s2 of
            (Inl e, s3) \<Rightarrow> (Inl e, s3)
          | (Inr _, s3) \<Rightarrow> evict_claims x sender lm s3)))"
  by pat_completeness auto

lemma evict_shorter:
  "db_principal_rows (dedup_of lm) \<le> int (length (filter (\<lambda>r. dd_sender_id r = sender) rows)) \<Longrightarrow>
     length (delete_oldest (\<lambda>r. dd_sender_id r = sender) rows) < length rows"
  "db_global_rows (dedup_of lm) \<le> int (length rows) \<Longrightarrow> length (delete_oldest (\<lambda>_. True) rows) < length rows"
proof -
  show "length (delete_oldest (\<lambda>r. dd_sender_id r = sender) rows) < length rows"
    if "db_principal_rows (dedup_of lm) \<le> int (length (filter (\<lambda>r. dd_sender_id r = sender) rows))"
  proof -
    have "filter (\<lambda>r. dd_sender_id r = sender) rows \<noteq> []" using that dedup_of_pos(1) [of lm] by auto
    then show ?thesis by (intro delete_oldest_shorter) (auto simp: filter_empty_conv)
  qed
  show "length (delete_oldest (\<lambda>_. True) rows) < length rows" if "db_global_rows (dedup_of lm) \<le> int (length rows)"
    using that dedup_of_pos(2) [of lm] by (intro delete_oldest_shorter) (cases rows; auto)
qed

termination evict_claims
  by (relation "measure (\<lambda>(x, sender, lm, s). length (dedup_rows (tables s)))")
    (auto simp: ts_select_Inr ts_sql_Inr set_dedup_def not_less eq_commute [of "(Inr _, _)"] evict_shorter)

declare evict_claims.simps [simp del]

definition try_claim_envelope_bounded_at ::
    "ext \<Rightarrow> string \<Rightarrow> string \<Rightarrow> i64 \<Rightarrow> dedup_limits \<Rightarrow> (node, timeseries_error, bool) act" where
  "try_claim_envelope_bounded_at x sender eid now lm =
     (let cutoff = saturating_sub now (db_max_age_ms (dedup_of lm)) in
      andThen (ts_select x (\<lambda>t. list_ex (\<lambda>r. claim_key sender eid r \<and> cutoff \<le> dd_received_at r) (dedup_rows t))) (\<lambda>exists.
      if exists then ret False
      else andThen (ts_sql x (\<lambda>t. Inr
             (length (filter (\<lambda>r. claim_key sender eid r \<and> dd_received_at r < now) (dedup_rows t)),
              set_dedup (map (\<lambda>r. if claim_key sender eid r \<and> dd_received_at r < now then r\<lparr> dd_received_at := now \<rparr> else r)
                (dedup_rows t)) t))) (\<lambda>refreshed.
        if refreshed = 1 then ret True
        else andThen (evict_claims x sender lm) (\<lambda>_.
             andThen (ts_sql x (insert_claim sender eid now)) (\<lambda>_. ret True)))))"

definition try_claim_envelope :: "ext \<Rightarrow> string \<Rightarrow> string \<Rightarrow> (node, timeseries_error, bool) act" where
  "try_claim_envelope x sender eid = andThen (now_ms x) (\<lambda>now.
     try_claim_envelope_bounded_at x sender eid now default_dedup_limits)"

record dedup_health =
  dh_rows :: u64
  dh_max_principal_rows :: u64
  dh_oldest_age_ms :: u64

definition min_of :: "('a \<Rightarrow> i64) \<Rightarrow> 'a list \<Rightarrow> i64 option" where
  "min_of f rows = (case map f rows of [] \<Rightarrow> None | v # vs \<Rightarrow> Some (fold min vs v))"

definition dedup_health_of :: "ext \<Rightarrow> dedup_limits \<Rightarrow> (node, timeseries_error, dedup_health) act" where
  "dedup_health_of x lm =
     andThen (ts_select x (\<lambda>t. (length (dedup_rows t), min_of dd_received_at (dedup_rows t)))) (\<lambda>(rows, oldest).
     andThen (ts_select x (\<lambda>t. fold max (map (\<lambda>p. length (filter (\<lambda>r. dd_sender_id r = p) (dedup_rows t)))
        (remdups (map dd_sender_id (dedup_rows t)))) 0)) (\<lambda>max_principal.
     andThen (now_ms x) (\<lambda>now.
     ret \<lparr> dh_rows = rows, dh_max_principal_rows = max_principal,
       dh_oldest_age_ms = (case oldest of None \<Rightarrow> 0
         | Some v \<Rightarrow> nat (max (min (saturating_sub now v) (db_max_age_ms (dedup_of lm))) 0)) \<rparr>)))"

definition purge_dedup_before :: "ext \<Rightarrow> i64 \<Rightarrow> (node, timeseries_error, u64) act" where
  "purge_dedup_before x cutoff = ts_sql x (\<lambda>t. Inr
     (length (filter (\<lambda>r. dd_received_at r < cutoff) (dedup_rows t)),
      set_dedup (filter (\<lambda>r. \<not> dd_received_at r < cutoff) (dedup_rows t)) t))"

section \<open>Maintenance health of the window\<close>

abbreviation maintenance :: "tables \<Rightarrow> dedup_maintenance" where
  "maintenance t \<equiv> dedup_maintenance_t (timeseries_t t)"

definition set_maintenance :: "dedup_maintenance \<Rightarrow> tables \<Rightarrow> tables" where
  "set_maintenance m t = t\<lparr> timeseries_t := (timeseries_t t)\<lparr> dedup_maintenance_t := m \<rparr> \<rparr>"

definition dedup_maintenance_health :: "ext \<Rightarrow> (node, timeseries_error, dedup_maintenance) act" where
  "dedup_maintenance_health x = ts_select x maintenance"

definition mark_dedup_purge_failed :: "ext \<Rightarrow> i64 \<Rightarrow> (node, timeseries_error, bool) act" where
  "mark_dedup_purge_failed x now =
     andThen (ts_select x (\<lambda>t. dm_degraded (maintenance t))) (\<lambda>was_degraded.
     andThen (ts_sql x (\<lambda>t. let m = maintenance t in Inr ((), set_maintenance (m\<lparr> dm_degraded := True,
        dm_episode_started_at := (if \<not> dm_degraded m then Some now else dm_episode_started_at m),
        dm_last_failure_at := Some now \<rparr>) t))) (\<lambda>_. ret (\<not> was_degraded)))"

definition mark_dedup_purge_recovered :: "ext \<Rightarrow> i64 \<Rightarrow> (node, timeseries_error, bool) act" where
  "mark_dedup_purge_recovered x now =
     andThen (ts_select x (\<lambda>t. dm_degraded (maintenance t))) (\<lambda>was_degraded.
     andThen (ts_sql x (\<lambda>t. Inr ((), set_maintenance ((maintenance t)\<lparr> dm_degraded := False,
        dm_episode_started_at := None, dm_last_success_at := Some now \<rparr>) t))) (\<lambda>_. ret was_degraded))"

section \<open>Readings\<close>

record new_reading =
  nr_series_id :: i64
  nr_received_at_ms :: i64
  nr_device_time_ms :: "i64 option"
  nr_time_source :: string
  nr_values :: "f64 list"
  nr_rssi :: "int option"
  nr_battery_pct :: "nat option"
  nr_quarantined :: bool

definition FUTURE_TOLERANCE_MS :: i64 where "FUTURE_TOLERANCE_MS = 300000"

fun non_finite_text :: "f64 \<Rightarrow> string" where
  "non_finite_text NaN = ''NaN''"
| "non_finite_text (Inf pos) = (if pos then ''inf'' else ''-inf'')"
| "non_finite_text (Fin _) = []"

definition derive_event_time :: "i64 \<Rightarrow> i64 option \<Rightarrow> string \<Rightarrow> i64 \<times> string" where
  "derive_event_time received device src =
     (let label = (if src = ''device_ntp'' \<or> src = ''device_rtc'' then Some ''device''
        else if src = ''edge_node_adjusted'' then Some ''edge_node_adjusted'' else None)
      in case label of None \<Rightarrow> (received, ''received_at'')
      | Some l \<Rightarrow> (case device of
          Some dt \<Rightarrow> if dt \<le> received + FUTURE_TOLERANCE_MS then (dt, l) else (received, ''received_at'')
        | None \<Rightarrow> (received, ''received_at'')))"

definition insert_reading_row :: "reading_entry \<Rightarrow> tables \<Rightarrow> sqlite_error + i64 \<times> tables" where
  "insert_reading_row r t =
     (let ts = timeseries_t t; n = readings_autoinc ts + 1 in
      if rd_series_id r \<notin> se_series_id ` set (series_t (ledger_t t)) then Inl ConstraintForeignKey
      else Inr (n, t\<lparr> timeseries_t := ts\<lparr> readings_autoinc := n, readings_t := readings_t ts @ [r\<lparr> rd_seq := n \<rparr>] \<rparr> \<rparr>))"

definition insert_reading_v3 :: "ext \<Rightarrow> new_reading \<Rightarrow> (node, timeseries_error, i64) act" where
  "insert_reading_v3 x r = (case find_row (\<lambda>v. \<not> is_finite v) (nr_values r) of
     Some v \<Rightarrow> throw (InvalidReading (''non-finite value '' @ non_finite_text v))
   | None \<Rightarrow>
       (case derive_event_time (nr_received_at_ms r) (nr_device_time_ms r) (nr_time_source r) of (et, ets) \<Rightarrow>
        ts_sql x (insert_reading_row \<lparr> rd_seq = 0, rd_series_id = nr_series_id r, rd_received_at = nr_received_at_ms r,
          rd_device_time = nr_device_time_ms r, rd_time_source = nr_time_source r, rd_time_quality = ''unsynced'',
          rd_event_time = et, rd_event_time_source = ets, rd_values_json = json_text x (JArr (map JNum (nr_values r))),
          rd_rssi = nr_rssi r, rd_battery_pct = nr_battery_pct r, rd_quarantined = nr_quarantined r \<rparr>)))"

section \<open>Staging\<close>

text \<open>Without the table every statement on it fails.\<close>

definition staged_sql ::
    "ext \<Rightarrow> (staged_entry list \<Rightarrow> 'a \<times> staged_entry list) \<Rightarrow> (node, timeseries_error, 'a) act" where
  "staged_sql x f = ts_sql x (\<lambda>t. case staged_readings_t (ledger_t t) of
     None \<Rightarrow> Inl SqliteFailure
   | Some rows \<Rightarrow> (case f rows of (a, rows') \<Rightarrow>
       Inr (a, t\<lparr> ledger_t := (ledger_t t)\<lparr> staged_readings_t := Some rows' \<rparr> \<rparr>)))"

definition staged_select :: "ext \<Rightarrow> (staged_entry list \<Rightarrow> 'a) \<Rightarrow> (node, timeseries_error, 'a) act" where
  "staged_select x f = staged_sql x (\<lambda>rows. (f rows, rows))"

definition insert_staged :: "ext \<Rightarrow> staged_entry \<Rightarrow> (node, timeseries_error, unit) act" where
  "insert_staged x r = ts_sql x (\<lambda>t. case staged_readings_t (ledger_t t) of
     None \<Rightarrow> Inl SqliteFailure
   | Some rows \<Rightarrow> (let n = staged_autoinc (ledger_t t) + 1 in
       if st_payload_bytes r < 0 then Inl ConstraintCheck
       else Inr ((), t\<lparr> ledger_t := (ledger_t t)\<lparr> staged_autoinc := n,
         staged_readings_t := Some (rows @ [r\<lparr> st_id := n \<rparr>]) \<rparr> \<rparr>)))"

definition STAGED_READINGS_CAP_PER_HW :: nat where "STAGED_READINGS_CAP_PER_HW = 1000"

definition insert_staged_reading :: "ext \<Rightarrow> string \<Rightarrow> i64 \<Rightarrow> string \<Rightarrow> (node, timeseries_error, unit) act" where
  "insert_staged_reading x hw received payload =
     andThen (insert_staged x \<lparr> st_id = 0, st_hardware_id = hw, st_received_at = received, st_payload_json = payload,
        st_principal_id = ''legacy:unknown'', st_payload_bytes = 0, st_pinned = False \<rparr>) (\<lambda>_.
     staged_sql x (\<lambda>rows.
       let kept = map st_id (take STAGED_READINGS_CAP_PER_HW (sort_key (\<lambda>r. - st_id r) (filter (\<lambda>r. st_hardware_id r = hw) rows)))
       in ((), filter (\<lambda>r. \<not> (st_hardware_id r = hw \<and> st_id r \<notin> set kept)) rows)))"

record staging_admission =
  sa_expired_subjects :: u64
  sa_evicted_subjects :: u64

record staged_sighting =
  sx_hardware_id :: string
  sx_payload_json :: string

record staging_health =
  sh_rows :: u64
  sh_bytes :: u64
  sh_pinned_rows :: u64
  sh_pinned_bytes :: u64
  sh_principals :: u64

definition bytes_of :: "staged_entry list \<Rightarrow> i64" where
  "bytes_of rows = sum_list (map st_payload_bytes rows)"

definition health_of :: "staged_entry list \<Rightarrow> staging_health" where
  "health_of rows = \<lparr> sh_rows = length rows, sh_bytes = nat (max (bytes_of rows) 0),
     sh_pinned_rows = length (filter st_pinned rows), sh_pinned_bytes = nat (max (bytes_of (filter st_pinned rows)) 0),
     sh_principals = length (remdups (map st_principal_id rows)) \<rparr>"

definition staging_health_of :: "ext \<Rightarrow> staging_limits \<Rightarrow> (node, timeseries_error, staging_health) act" where
  "staging_health_of x _ = staged_select x health_of"

definition subject_of :: "staged_entry \<Rightarrow> string \<times> string" where
  "subject_of r = (st_principal_id r, st_hardware_id r)"

text \<open>The pin check of new rows of pinned subjects and of the pin of a subject.\<close>

definition exceeds_pin_reserve :: "staging_limits \<Rightarrow> staging_health \<Rightarrow> i64 \<times> i64 \<Rightarrow> i64 \<Rightarrow> i64 \<Rightarrow> bool" where
  "exceeds_pin_reserve lm h pins rows bytes \<longleftrightarrow>
     (let b = staging_of lm in
      sb_global_rows b - sb_reserve_rows b < saturating_add (u64_as_i64 (sh_pinned_rows h)) rows \<or>
      sb_principal_rows b - sb_reserve_rows b < saturating_add (fst pins) rows \<or>
      sb_global_bytes b - sb_reserve_bytes b < saturating_add (u64_as_i64 (sh_pinned_bytes h)) bytes \<or>
      sb_principal_bytes b - sb_reserve_bytes b < saturating_add (snd pins) bytes)"

definition principal_pins :: "ext \<Rightarrow> string \<Rightarrow> (node, timeseries_error, i64 \<times> i64) act" where
  "principal_pins x pid = staged_select x (\<lambda>rows.
     let mine = filter (\<lambda>r. st_principal_id r = pid \<and> st_pinned r) rows in (int (length mine), bytes_of mine))"

definition validate_inherited_pin_capacity ::
    "ext \<Rightarrow> string \<Rightarrow> i64 \<Rightarrow> i64 \<Rightarrow> staging_limits \<Rightarrow> (node, timeseries_error, unit) act" where
  "validate_inherited_pin_capacity x pid rows bytes lm =
     (if rows = 0 then ret ()
      else andThen (staging_health_of x lm) (\<lambda>health. andThen (principal_pins x pid) (\<lambda>pins.
        if exceeds_pin_reserve lm health pins rows bytes
        then throw (Limit ''pinned subject growth would consume maximum-envelope evictable reserve'') else ret ())))"

text \<open>The subjects none of whose rows is pinned, the one with the oldest row first.\<close>

definition staged_subjects :: "staged_entry list \<Rightarrow> (string \<times> string) list" where
  "staged_subjects rows = remdups (map subject_of rows)"

definition rows_of :: "(string \<times> string) \<Rightarrow> staged_entry list \<Rightarrow> staged_entry list" where
  "rows_of sub rows = filter (\<lambda>r. subject_of r = sub) rows"

definition unpinned_subjects :: "staged_entry list \<Rightarrow> (string \<times> string) list" where
  "unpinned_subjects rows = filter (\<lambda>sub. \<not> list_ex st_pinned (rows_of sub rows)) (staged_subjects rows)"

definition subject_age :: "staged_entry list \<Rightarrow> (string \<times> string) \<Rightarrow> i64 \<times> i64" where
  "subject_age rows sub = (the (min_of st_received_at (rows_of sub rows)), the (min_of st_id (rows_of sub rows)))"

definition oldest_evictable_staging_subject ::
    "ext \<Rightarrow> string option \<Rightarrow> (string \<times> string) list \<Rightarrow> (node, timeseries_error, (string \<times> string) option) act" where
  "oldest_evictable_staging_subject x pid protected =
     andThen (staged_select x (\<lambda>rows. sort_key (subject_age rows)
        (filter (\<lambda>sub. pid = None \<or> pid = Some (fst sub)) (unpinned_subjects rows)))) (\<lambda>candidates.
     ret (find_row (\<lambda>sub. sub \<notin> set protected) candidates))"

definition delete_sighting_if_unstaged :: "ext \<Rightarrow> string \<times> string \<Rightarrow> (node, timeseries_error, unit) act" where
  "delete_sighting_if_unstaged x sub = (case sub of (pid, hw) \<Rightarrow>
     if pid = ''legacy:unknown'' then ret ()
     else ts_sql x (\<lambda>t. case staged_readings_t (ledger_t t) of
        None \<Rightarrow> Inl SqliteFailure
      | Some rows \<Rightarrow> Inr ((), t\<lparr> ledger_t := (ledger_t t)\<lparr> sightings_t := filter (\<lambda>g. \<not> (sg_hardware_id g = hw \<and>
          sg_source g = pid \<and> hw \<notin> st_hardware_id ` set rows)) (sightings_t (ledger_t t)) \<rparr> \<rparr>)))"

text \<open>The size of a batch: rows and bytes of every payload, with the checked conversions.\<close>

definition payload_sizes :: "staged_sighting list \<Rightarrow> timeseries_error + i64 list" where
  "payload_sizes sightings = collect_rows (\<lambda>g. case i64_try_from_u64 (length (sx_payload_json g)) of
     None \<Rightarrow> Inl (Limit ''staging payload size is not representable'') | Some b \<Rightarrow> Inr b) sightings"

definition checked_add :: "i64 \<Rightarrow> i64 \<Rightarrow> i64 option" where
  "checked_add a b = (if in_i64 (a + b) then Some (a + b) else None)"

fun checked_total :: "i64 \<Rightarrow> i64 list \<Rightarrow> timeseries_error + i64" where
  "checked_total acc [] = Inr acc"
| "checked_total acc (b # bs) = (case checked_add acc b of
     None \<Rightarrow> Inl (Limit ''staging envelope byte cost overflowed'') | Some n \<Rightarrow> checked_total n bs)"

definition batch_size :: "staged_sighting list \<Rightarrow> timeseries_error + i64 \<times> i64 list \<times> i64" where
  "batch_size sightings = (case i64_try_from_u64 (length sightings) of
     None \<Rightarrow> Inl (Limit ''staging row count is not representable'')
   | Some rows \<Rightarrow> (case payload_sizes sightings of Inl e \<Rightarrow> Inl e | Inr sizes \<Rightarrow>
       (case checked_total 0 sizes of Inl e \<Rightarrow> Inl e | Inr bytes \<Rightarrow> Inr (rows, sizes, bytes))))"

text \<open>
  The first loop: whether the subject of each sighting is pinned, and the rows and bytes that the
  pinned ones will add.
\<close>

fun inherited_pins ::
    "ext \<Rightarrow> string \<Rightarrow> (staged_sighting \<times> i64) list \<Rightarrow> i64 \<Rightarrow> i64 \<Rightarrow> (node, timeseries_error, bool list \<times> i64 \<times> i64) act" where
  "inherited_pins x pid [] rows bytes = ret ([], rows, bytes)"
| "inherited_pins x pid ((g, b) # gs) rows bytes =
     andThen (staged_select x (\<lambda>es. list_ex st_pinned (rows_of (pid, sx_hardware_id g) es))) (\<lambda>pinned.
       if pinned
       then (case (checked_add rows 1, checked_add bytes b) of
           (None, _) \<Rightarrow> throw (Limit ''staging inherited pin row cost overflowed'')
         | (_, None) \<Rightarrow> throw (Limit ''staging inherited pin byte cost overflowed'')
         | (Some rows', Some bytes') \<Rightarrow> andThen (inherited_pins x pid gs rows' bytes') (\<lambda>(ps, t). ret (True # ps, t)))
       else andThen (inherited_pins x pid gs rows bytes) (\<lambda>(ps, t). ret (False # ps, t)))"

text \<open>Expiry: the unpinned subjects with a row before the cutoff, and the deletion of those rows.\<close>

definition expired_subjects :: "i64 \<Rightarrow> staged_entry list \<Rightarrow> (string \<times> string) list" where
  "expired_subjects cutoff rows = filter (\<lambda>sub. fst (subject_age rows sub) < cutoff) (unpinned_subjects rows)"

definition delete_expired :: "i64 \<Rightarrow> staged_entry list \<Rightarrow> staged_entry list" where
  "delete_expired cutoff rows = filter (\<lambda>r. \<not> (st_received_at r < cutoff \<and> \<not> list_ex st_pinned (rows_of (subject_of r) rows))) rows"

definition principal_usage :: "ext \<Rightarrow> string \<Rightarrow> (node, timeseries_error, i64 \<times> i64) act" where
  "principal_usage x pid = staged_select x (\<lambda>rows.
     let mine = filter (\<lambda>r. st_principal_id r = pid) rows in (int (length mine), bytes_of mine))"

definition i64_of_health :: "string \<Rightarrow> u64 \<Rightarrow> (node, timeseries_error, i64) act" where
  "i64_of_health what n = (case i64_try_from_u64 n of
     None \<Rightarrow> throw (Limit (''staging global '' @ what @ '' count overflowed'')) | Some v \<Rightarrow> ret v)"

text \<open>One round of the eviction loop up to its test: whether the principal or the node is over its limits.\<close>

definition staging_pressure ::
    "ext \<Rightarrow> string \<Rightarrow> i64 \<Rightarrow> i64 \<Rightarrow> staging_limits \<Rightarrow> (node, timeseries_error, bool \<times> bool) act" where
  "staging_pressure x pid rows bytes lm =
     (let b = staging_of lm in
      andThen (staging_health_of x lm) (\<lambda>global.
      andThen (principal_usage x pid) (\<lambda>(principal_rows, principal_bytes).
      andThen (i64_of_health ''row'' (sh_rows global)) (\<lambda>global_rows.
      andThen (i64_of_health ''byte'' (sh_bytes global)) (\<lambda>global_bytes.
      ret (sb_principal_rows b < saturating_add principal_rows rows \<or> sb_principal_bytes b < saturating_add principal_bytes bytes,
           sb_global_rows b < saturating_add global_rows rows \<or> sb_global_bytes b < saturating_add global_bytes bytes))))))"

text \<open>The victim of a round; without one the batch is refused.\<close>

definition staging_victim ::
    "ext \<Rightarrow> string \<Rightarrow> (string \<times> string) list \<Rightarrow> bool \<Rightarrow> (node, timeseries_error, string \<times> string) act" where
  "staging_victim x pid protected principal_over =
     andThen (oldest_evictable_staging_subject x (if principal_over then Some pid else None) protected) (\<lambda>victim.
     case victim of
       None \<Rightarrow> throw (Limit ''staging capacity is protected by pin reserve'')
     | Some sub \<Rightarrow> andThen (staged_sql x (\<lambda>es. ((), filter (\<lambda>r. subject_of r \<noteq> sub) es))) (\<lambda>_. ret sub))"

definition staged_of :: "node \<Rightarrow> staged_entry list" where
  "staged_of s = (case staged_readings_t (ledger_t (tables s)) of None \<Rightarrow> [] | Some rows \<Rightarrow> rows)"

lemma staged_sql_Inr:
  "staged_sql x f s = (Inr a, s') \<longleftrightarrow> \<not> sql_fault x (sql_step s) \<and>
     (\<exists>rows rows'. staged_readings_t (ledger_t (tables s)) = Some rows \<and> f rows = (a, rows') \<and>
       s' = s\<lparr> sql_step := Suc (sql_step s),
         tables := (tables s)\<lparr> ledger_t := (ledger_t (tables s))\<lparr> staged_readings_t := Some rows' \<rparr> \<rparr> \<rparr>)"
  by (auto simp: staged_sql_def ts_sql_Inr split: option.splits prod.splits)

lemma staged_select_Inr:
  "staged_select x f s = (Inr a, s') \<longleftrightarrow> \<not> sql_fault x (sql_step s) \<and>
     (\<exists>rows. staged_readings_t (ledger_t (tables s)) = Some rows \<and> a = f rows \<and> s' = s\<lparr> sql_step := Suc (sql_step s) \<rparr>)"
proof -
  have "t\<lparr> ledger_t := (ledger_t t)\<lparr> staged_readings_t := Some rows \<rparr> \<rparr> = t" if "staged_readings_t (ledger_t t) = Some rows" for t :: tables and rows
    using that by (metis (no_types, lifting) ledger.surjective ledger.update_convs(9) tables.surjective tables.update_convs(6))
  then show ?thesis by (auto simp: staged_select_def staged_sql_Inr)
qed

lemma candidates_in_use:
  assumes "find_row P (sort_key f (filter Q (unpinned_subjects rows))) = Some sub"
  shows "sub \<in> subject_of ` set rows" "P sub" "Q sub" "\<not> list_ex st_pinned (rows_of sub rows)"
  using assms by (auto simp: unpinned_subjects_def staged_subjects_def dest!: find_row_Some)

lemma staging_victim_Inr:
  assumes "staging_victim x pid protected over s = (Inr sub, s')"
  shows "staged_of s' = filter (\<lambda>r. subject_of r \<noteq> sub) (staged_of s)" "sub \<in> subject_of ` set (staged_of s)"
    "sub \<notin> set protected" "over \<Longrightarrow> fst sub = pid" "\<not> list_ex st_pinned (rows_of sub (staged_of s))"
proof -
  show g1: "staged_of s' = filter (\<lambda>r. subject_of r \<noteq> sub) (staged_of s)"
    using assms by (auto simp: staging_victim_def oldest_evictable_staging_subject_def andThen_eq_Inr staged_select_Inr
        staged_sql_Inr staged_of_def ret_def throw_def split: option.splits)
  obtain rows where rows: "staged_readings_t (ledger_t (tables s)) = Some rows"
      "find_row (\<lambda>sub. sub \<notin> set protected) (sort_key (subject_age rows)
        (filter (\<lambda>sub. (if over then Some pid else None) = None \<or> (if over then Some pid else None) = Some (fst sub)) (unpinned_subjects rows))) = Some sub"
    using assms by (auto simp: staging_victim_def oldest_evictable_staging_subject_def andThen_eq_Inr staged_select_Inr
        staged_sql_Inr ret_def throw_def simp del: if_split_asm split: option.splits)
  note c = candidates_in_use [OF rows(2)]
  show "sub \<in> subject_of ` set (staged_of s)" "sub \<notin> set protected" "\<not> list_ex st_pinned (rows_of sub (staged_of s))"
    using c(1,2,4) rows(1) by (simp_all add: staged_of_def)
  show "over \<Longrightarrow> fst sub = pid" using c(3) by simp
qed

lemma staging_pressure_state:
  "staging_pressure x pid rows bytes lm s = (Inr r, s') \<Longrightarrow> tables s' = tables s"
  by (auto simp: staging_pressure_def staging_health_of_def principal_usage_def i64_of_health_def andThen_eq_Inr
      staged_select_Inr ret_def throw_def Let_def split: option.splits)

text \<open>The eviction loop, returning the subjects removed so far and in this loop.\<close>

function evict_staged ::
    "ext \<Rightarrow> string \<Rightarrow> i64 \<Rightarrow> i64 \<Rightarrow> staging_limits \<Rightarrow> (string \<times> string) list \<Rightarrow> (string \<times> string) list \<Rightarrow> node \<Rightarrow>
     (timeseries_error + (string \<times> string) list) \<times> node" where
  "evict_staged x pid rows bytes lm protected removed s =
     (case staging_pressure x pid rows bytes lm s of
        (Inl e, s1) \<Rightarrow> (Inl e, s1)
      | (Inr (principal_over, global_over), s1) \<Rightarrow>
        if \<not> principal_over \<and> \<not> global_over then (Inr removed, s1)
        else (case staging_victim x pid protected principal_over s1 of
            (Inl e, s2) \<Rightarrow> (Inl e, s2)
          | (Inr victim, s2) \<Rightarrow> evict_staged x pid rows bytes lm protected (removed @ [victim]) s2))"
  by pat_completeness auto

lemma victim_shorter:
  assumes "staging_victim x pid protected over s = (Inr sub, s')"
  shows "length (staged_of s') < length (staged_of s)"
proof -
  obtain r where "r \<in> set (staged_of s)" "subject_of r = sub" using staging_victim_Inr(2) [OF assms] by auto
  then show ?thesis unfolding staging_victim_Inr(1) [OF assms] by (intro length_filter_less [where x = r]) simp_all
qed

termination evict_staged
  by (relation "measure (\<lambda>(x, pid, rows, bytes, lm, protected, removed, s). length (staged_of s))")
    (auto simp: staged_of_def dest!: sym [of "(Inr _, _)"] victim_shorter staging_pressure_state)

declare evict_staged.simps [simp del]

definition insert_sightings ::
    "ext \<Rightarrow> string \<Rightarrow> i64 \<Rightarrow> ((staged_sighting \<times> i64) \<times> bool) list \<Rightarrow> (node, timeseries_error, unit list) act" where
  "insert_sightings x pid received gs = forA gs (\<lambda>((g, b), pinned).
     insert_staged x \<lparr> st_id = 0, st_hardware_id = sx_hardware_id g, st_received_at = received,
       st_payload_json = sx_payload_json g, st_principal_id = pid, st_payload_bytes = b, st_pinned = pinned \<rparr>)"

definition stage_sightings_at ::
    "ext \<Rightarrow> string \<Rightarrow> i64 \<Rightarrow> staged_sighting list \<Rightarrow> staging_limits \<Rightarrow> (node, timeseries_error, staging_admission) act" where
  "stage_sightings_at x pid received sightings lm =
     andThen (liftR (batch_size sightings)) (\<lambda>(staged_rows, payload_bytes, staged_bytes).
     let b = staging_of lm in
     if sb_reserve_rows b < staged_rows \<or> sb_reserve_bytes b < staged_bytes \<or>
        sb_principal_rows b < staged_rows \<or> sb_principal_bytes b < staged_bytes
     then throw (Limit ''staging envelope exceeds maximum-envelope reserve'')
     else if sightings = [] then ret \<lparr> sa_expired_subjects = 0, sa_evicted_subjects = 0 \<rparr>
     else
       let protected = map (\<lambda>g. (pid, sx_hardware_id g)) sightings;
           cutoff = saturating_sub received (sb_max_age_ms b)
       in
       andThen (inherited_pins x pid (zip sightings payload_bytes) 0 0) (\<lambda>(subject_pins, pin_rows, pin_bytes).
       andThen (validate_inherited_pin_capacity x pid pin_rows pin_bytes lm) (\<lambda>_.
       andThen (staged_select x (expired_subjects cutoff)) (\<lambda>expired.
       andThen (staged_sql x (\<lambda>es. ((), delete_expired cutoff es))) (\<lambda>_.
       andThen (evict_staged x pid staged_rows staged_bytes lm protected expired) (\<lambda>removed.
       andThen (insert_sightings x pid received (zip (zip sightings payload_bytes) subject_pins)) (\<lambda>_.
       andThen (forA removed (delete_sighting_if_unstaged x)) (\<lambda>_.
       ret \<lparr> sa_expired_subjects = length expired, sa_evicted_subjects = length removed - length expired \<rparr>))))))))"

definition stage_sighting_at ::
    "ext \<Rightarrow> string \<Rightarrow> string \<Rightarrow> i64 \<Rightarrow> string \<Rightarrow> staging_limits \<Rightarrow> (node, timeseries_error, staging_admission) act" where
  "stage_sighting_at x pid hw received payload lm =
     stage_sightings_at x pid received [\<lparr> sx_hardware_id = hw, sx_payload_json = payload \<rparr>] lm"

definition validate_sighting_pin ::
    "ext \<Rightarrow> string \<Rightarrow> string \<Rightarrow> bool \<Rightarrow> staging_limits \<Rightarrow> (node, timeseries_error, unit) act" where
  "validate_sighting_pin x pid hw pinned lm =
     andThen (staged_select x (\<lambda>es. let mine = rows_of (pid, hw) es in
        (int (length mine), bytes_of mine, list_ex st_pinned mine))) (\<lambda>(rows, bytes, currently_pinned).
     if rows = 0 then throw (Limit ''staging subject does not exist'')
     else if pinned \<and> \<not> currently_pinned
     then andThen (staging_health_of x lm) (\<lambda>health. andThen (principal_pins x pid) (\<lambda>pins.
        if exceeds_pin_reserve lm health pins rows bytes
        then throw (Limit ''pin would consume maximum-envelope evictable reserve'') else ret ()))
     else ret ())"

definition set_sighting_pin ::
    "ext \<Rightarrow> string \<Rightarrow> string \<Rightarrow> bool \<Rightarrow> staging_limits \<Rightarrow> (node, timeseries_error, unit) act" where
  "set_sighting_pin x pid hw pinned lm =
     andThen (validate_sighting_pin x pid hw pinned lm) (\<lambda>_.
     staged_sql x (\<lambda>es. ((), map (\<lambda>r. if subject_of r = (pid, hw) then r\<lparr> st_pinned := pinned \<rparr> else r) es)))"

definition staging_subject_exists :: "ext \<Rightarrow> string \<Rightarrow> string \<Rightarrow> (node, timeseries_error, bool) act" where
  "staging_subject_exists x pid hw = staged_select x (list_ex (\<lambda>r. subject_of r = (pid, hw)))"

section \<open>Queries\<close>

record reading_row =
  rr_entry :: reading_entry
  rr_values :: "f64 list"

text \<open>\<^verbatim>\<open>serde_json::from_str\<close> of the values column: an array of numbers.\<close>

fun number_of :: "json \<Rightarrow> sqlite_error + f64" where
  "number_of (JNum v) = Inr v"
| "number_of (JInt n) = Inr (round_f64 (of_int n))"
| "number_of _ = Inl FromSqlConversionFailure"

definition row_to_reading :: "ext \<Rightarrow> reading_entry \<Rightarrow> sqlite_error + reading_row" where
  "row_to_reading x r = (case json_parse x (rd_values_json r) of
     Some (JArr js) \<Rightarrow> (case collect_rows number_of js of
         Inl e \<Rightarrow> Inl e | Inr vs \<Rightarrow> Inr \<lparr> rr_entry = r, rr_values = vs \<rparr>)
   | _ \<Rightarrow> Inl FromSqlConversionFailure)"

definition query_readings_v3 ::
    "ext \<Rightarrow> i64 \<Rightarrow> i64 \<Rightarrow> i64 \<Rightarrow> nat \<Rightarrow> bool \<Rightarrow> (node, timeseries_error, reading_row list) act" where
  "query_readings_v3 x series from_ms to_ms limit include_quarantined = ts_sql x (\<lambda>t.
     case collect_rows (row_to_reading x) (take limit (sort_key (\<lambda>r. (rd_event_time r, rd_seq r))
       (filter (\<lambda>r. rd_series_id r = series \<and> from_ms \<le> rd_event_time r \<and> rd_event_time r < to_ms \<and>
          (include_quarantined \<or> \<not> rd_quarantined r)) (readings_t (timeseries_t t))))) of
       Inl e \<Rightarrow> Inl e | Inr rows \<Rightarrow> Inr (rows, t))"

definition latest_by_series :: "ext \<Rightarrow> i64 \<Rightarrow> (node, timeseries_error, reading_row option) act" where
  "latest_by_series x series = ts_sql x (\<lambda>t.
     case first_row (row_to_reading x) (case sort_key (\<lambda>r. (- rd_event_time r, - rd_seq r))
       (filter (\<lambda>r. rd_series_id r = series) (readings_t (timeseries_t t))) of [] \<Rightarrow> None | r # _ \<Rightarrow> Some r) of
       Inl e \<Rightarrow> Inl e | Inr row \<Rightarrow> Inr (row, t))"

definition list_staged_for_hardware :: "ext \<Rightarrow> string \<Rightarrow> nat \<Rightarrow> (node, timeseries_error, (i64 \<times> string) list) act" where
  "list_staged_for_hardware x hw limit = staged_select x (\<lambda>es. map (\<lambda>r. (st_received_at r, st_payload_json r))
     (take limit (sort_key (\<lambda>r. - st_id r) (filter (\<lambda>r. st_hardware_id r = hw) es))))"

definition mark_readings_quarantined :: "ext \<Rightarrow> i64 list \<Rightarrow> i64 \<Rightarrow> i64 \<Rightarrow> (node, timeseries_error, u64) act" where
  "mark_readings_quarantined x series from_ms to_ms =
     (if series = [] then ret 0
      else ts_sql x (\<lambda>t. let hit = (\<lambda>r. rd_series_id r \<in> set series \<and> from_ms \<le> rd_received_at r \<and> rd_received_at r \<le> to_ms) in
        Inr (length (filter hit (readings_t (timeseries_t t))),
          t\<lparr> timeseries_t := (timeseries_t t)\<lparr> readings_t := map (\<lambda>r. if hit r then r\<lparr> rd_quarantined := True \<rparr> else r)
            (readings_t (timeseries_t t)) \<rparr> \<rparr>)))"

definition csv_field :: "string \<Rightarrow> string" where
  "csv_field s = (if list_ex (\<lambda>c. c \<in> {CHR '','', CHR 0x22, CHR 0x0A, CHR 0x0D}) s
     then [CHR 0x22] @ concat (map (\<lambda>c. if c = CHR 0x22 then [c, c] else [c]) s) @ [CHR 0x22] else s)"

end
