(* ===== verification/Publish.thy ===== *)
theory Publish
  imports Timeseries
begin

text \<open>
  The publication log, the delivery target and the Edge activation
  (\<^verbatim>\<open>edge-node/core/publish/src/store.rs\<close>, \<^verbatim>\<open>activation.rs\<close> and the migrations 0010 and
  0020). The derived JSON decoders of the activation messages are parameters: functions from the text
  to the message or the decoder's error text. A ledger error is carried as it is instead of as its text.
\<close>

section \<open>Errors and rows\<close>

datatype publish_error =
    PSqlite sqlite_error
  | PLedger ledger_error
  | PInvalid string

record publication_row =
  or_pub_seq :: i64
  or_epoch :: string
  or_kind :: string
  or_subtype :: "string option"
  or_reading_seq :: "i64 option"
  or_annotation_json :: "string option"

record target_row =
  tr_target_id :: string
  tr_endpoint_url :: string
  tr_credential_token :: string
  tr_archive_responsible :: bool
  tr_schema_version :: i64
  tr_cursor_epoch :: "string option"
  tr_cursor_pub_seq :: i64

record recovery_outbox_rebuild =
  rr_replayed_records :: i64
  rr_last_new_publication_seq :: i64

abbreviation log_rows :: "tables \<Rightarrow> publication_entry list" where
  "log_rows t \<equiv> publication_log_t (publish_t t)"

abbreviation target_rows :: "tables \<Rightarrow> target_entry list" where
  "target_rows t \<equiv> target_registry_t (publish_t t)"

abbreviation activation_of :: "tables \<Rightarrow> activation_entry" where
  "activation_of t \<equiv> activation_t (publish_t t)"

definition pub_sql :: "ext \<Rightarrow> (publication_store \<Rightarrow> sqlite_error + 'a \<times> publication_store) \<Rightarrow> (node, publish_error, 'a) act" where
  "pub_sql x f = mapErr PSqlite (sql x (\<lambda>t. case f (publish_t t) of
     Inl e \<Rightarrow> Inl e | Inr (a, p) \<Rightarrow> Inr (a, t\<lparr> publish_t := p \<rparr>)))"

definition pub_select :: "ext \<Rightarrow> (tables \<Rightarrow> 'a) \<Rightarrow> (node, publish_error, 'a) act" where
  "pub_select x f = mapErr PSqlite (select x f)"

text \<open>
  \<^verbatim>\<open>INSERT INTO publication_log\<close>: the next AUTOINCREMENT key, and the partial unique index on the
  epoch and the subtype of the annotations, in which two NULL subtypes are distinct.
\<close>

definition same_annotation :: "publication_entry \<Rightarrow> publication_entry \<Rightarrow> bool" where
  "same_annotation r q \<longleftrightarrow> pb_kind r = ''annotation'' \<and> pb_kind q = ''annotation'' \<and> pb_epoch r = pb_epoch q \<and>
     pb_subtype r \<noteq> None \<and> pb_subtype r = pb_subtype q"

definition insert_publication :: "publication_entry \<Rightarrow> publication_store \<Rightarrow> sqlite_error + i64 \<times> publication_store" where
  "insert_publication r p =
     (let n = publication_autoinc p + 1 in
      if list_ex (same_annotation r) (publication_log_t p) then Inl ConstraintUnique
      else Inr (n, p\<lparr> publication_autoinc := n, publication_log_t := publication_log_t p @ [r\<lparr> pb_pub_seq := n \<rparr>] \<rparr>))"

definition delete_publications :: "(publication_entry \<Rightarrow> bool) \<Rightarrow> publication_store \<Rightarrow> sqlite_error + u64 \<times> publication_store" where
  "delete_publications hit p = Inr (length (filter hit (publication_log_t p)),
     p\<lparr> publication_log_t := filter (\<lambda>r. \<not> hit r) (publication_log_t p) \<rparr>)"

section \<open>The activation state\<close>

text \<open>
  The schema's CHECK admits the three texts only; the text of another state is quoted here without
  escaping.
\<close>

datatype activation_state = Standalone | DiscoveryOnly | ActiveEdge

definition activation_from_db :: "string \<Rightarrow> publish_error + activation_state" where
  "activation_from_db v = (if v = ''standalone'' then Inr Standalone
     else if v = ''discovery_only'' then Inr DiscoveryOnly
     else if v = ''active'' then Inr ActiveEdge
     else Inl (PInvalid (''unknown Edge Node activation state '' @ [CHR 0x22] @ v @ [CHR 0x22])))"

definition activation_state_of :: "ext \<Rightarrow> (node, publish_error, activation_state) act" where
  "activation_state_of x = andThen (pub_select x (\<lambda>t. ac_state (activation_of t))) (\<lambda>v. liftR (activation_from_db v))"

definition publication_admitted :: "ext \<Rightarrow> (node, publish_error, bool) act" where
  "publication_admitted x = andThen (activation_state_of x) (\<lambda>st. ret (st \<noteq> DiscoveryOnly))"

definition require_publication_admitted :: "ext \<Rightarrow> (node, publish_error, unit) act" where
  "require_publication_admitted x = andThen (publication_admitted x) (\<lambda>admitted.
     if \<not> admitted then throw (PInvalid ''Edge Node activation has not admitted publication'') else ret ())"

section \<open>Enqueueing\<close>

definition new_publication :: "string \<Rightarrow> string \<Rightarrow> string option \<Rightarrow> i64 option \<Rightarrow> string option \<Rightarrow> i64 \<Rightarrow> publication_entry" where
  "new_publication ep kind sub seq payload now = \<lparr> pb_pub_seq = 0, pb_epoch = ep, pb_kind = kind, pb_subtype = sub,
     pb_reading_seq = seq, pb_annotation_json = payload, pb_created_at = now \<rparr>"

definition enqueue_measurement :: "ext \<Rightarrow> string \<Rightarrow> i64 \<Rightarrow> i64 \<Rightarrow> (node, publish_error, i64) act" where
  "enqueue_measurement x ep reading_seq now = andThen (require_publication_admitted x) (\<lambda>_.
     pub_sql x (insert_publication (new_publication ep ''measurement'' None (Some reading_seq) None now)))"

definition is_constraint :: "sqlite_error \<Rightarrow> bool" where
  "is_constraint e \<longleftrightarrow> e \<in> {ConstraintPrimaryKey, ConstraintForeignKey, ConstraintUnique, ConstraintCheck}"

definition enqueue_annotation :: "ext \<Rightarrow> string \<Rightarrow> string \<Rightarrow> string \<Rightarrow> i64 \<Rightarrow> (node, publish_error, i64 option) act" where
  "enqueue_annotation x ep subtype payload now = andThen (require_publication_admitted x) (\<lambda>_ s.
     case pub_sql x (insert_publication (new_publication ep ''annotation'' (Some subtype) None (Some payload) now)) s of
       (Inr n, s') \<Rightarrow> (Inr (Some n), s')
     | (Inl (PSqlite e), s') \<Rightarrow> if is_constraint e then (Inr None, s') else (Inl (PSqlite e), s')
     | (Inl e, s') \<Rightarrow> (Inl e, s'))"

definition strip_prefix :: "string \<Rightarrow> string \<Rightarrow> string option" where
  "strip_prefix p s = (if take (length p) s = p then Some (drop (length p) s) else None)"

definition is_lower_hex :: "char \<Rightarrow> bool" where
  "is_lower_hex c \<longleftrightarrow> is_ascii_digit (byte c) \<or> (97 \<le> byte c \<and> byte c \<le> 102)"

definition hex_128 :: "string \<Rightarrow> bool" where
  "hex_128 r \<longleftrightarrow> length r = 32 \<and> list_all is_lower_hex r"

definition validate_commissioning_smoke_test_id :: "string \<Rightarrow> publish_error + unit" where
  "validate_commissioning_smoke_test_id i = (case strip_prefix ''smoke-'' i of
     None \<Rightarrow> Inl (PInvalid ''commissioning smoke test_id must start with smoke-'')
   | Some r \<Rightarrow> if \<not> hex_128 r then Inl (PInvalid ''commissioning smoke test_id must contain 128-bit lowercase hex'')
       else Inr ())"

definition enqueue_commissioning_smoke :: "ext \<Rightarrow> string \<Rightarrow> string \<Rightarrow> i64 \<Rightarrow> (node, publish_error, i64) act" where
  "enqueue_commissioning_smoke x ep test_id now = andThen (liftR (validate_commissioning_smoke_test_id test_id)) (\<lambda>_.
     andThen (require_publication_admitted x) (\<lambda>_.
     pub_sql x (insert_publication (new_publication ep ''commissioning_smoke'' None None
       (Some (json_text x (JObj [(''test_id'', JStr test_id)]))) now))))"

section \<open>Reading and pruning the log\<close>

definition publication_row_of :: "publication_entry \<Rightarrow> publication_row" where
  "publication_row_of r = \<lparr> or_pub_seq = pb_pub_seq r, or_epoch = pb_epoch r, or_kind = pb_kind r, or_subtype = pb_subtype r,
     or_reading_seq = pb_reading_seq r, or_annotation_json = pb_annotation_json r \<rparr>"

definition after_cursor :: "string \<Rightarrow> i64 \<Rightarrow> publication_entry \<Rightarrow> bool" where
  "after_cursor ep n r \<longleftrightarrow> pb_epoch r = ep \<and> n < pb_pub_seq r"

definition select_batch :: "ext \<Rightarrow> string \<Rightarrow> i64 \<Rightarrow> nat \<Rightarrow> (node, publish_error, publication_row list) act" where
  "select_batch x ep n limit = pub_select x (\<lambda>t. map publication_row_of
     (take limit (sort_key pb_pub_seq (filter (after_cursor ep n) (log_rows t)))))"

definition of_readings :: "i64 set \<Rightarrow> publication_entry \<Rightarrow> bool" where
  "of_readings seqs r = (case pb_reading_seq r of None \<Rightarrow> False | Some n \<Rightarrow> n \<in> seqs)"

definition prune_outbox_by_reading_seqs :: "ext \<Rightarrow> i64 list \<Rightarrow> (node, publish_error, u64) act" where
  "prune_outbox_by_reading_seqs x seqs =
     (if seqs = [] then ret 0 else pub_sql x (delete_publications (of_readings (set seqs))))"

definition quarantined_range :: "i64 list \<Rightarrow> i64 \<Rightarrow> i64 \<Rightarrow> tables \<Rightarrow> i64 list" where
  "quarantined_range ids since to t = map rd_seq (filter (\<lambda>r. rd_series_id r \<in> set ids \<and>
     since \<le> rd_received_at r \<and> rd_received_at r \<le> to \<and> rd_quarantined r) (readings_t (timeseries_t t)))"

definition prune_outbox_for_quarantined_range :: "ext \<Rightarrow> i64 list \<Rightarrow> i64 \<Rightarrow> i64 \<Rightarrow> (node, publish_error, u64) act" where
  "prune_outbox_for_quarantined_range x ids since to =
     (if ids = [] then ret 0
      else mapErr PSqlite (sql x (\<lambda>t. case delete_publications (of_readings (set (quarantined_range ids since to t))) (publish_t t) of
        Inl e \<Rightarrow> Inl e | Inr (n, p) \<Rightarrow> Inr (n, t\<lparr> publish_t := p \<rparr>))))"

definition prune_acked_outbox :: "ext \<Rightarrow> string \<Rightarrow> i64 \<Rightarrow> (node, publish_error, u64) act" where
  "prune_acked_outbox x ep n = pub_sql x (delete_publications (\<lambda>r. pb_epoch r = ep \<and> pb_pub_seq r \<le> n))"

section \<open>The target\<close>

definition target_entry_of :: "target_row \<Rightarrow> i64 \<Rightarrow> target_entry" where
  "target_entry_of r now = \<lparr> tg_target_id = tr_target_id r, tg_endpoint_url = tr_endpoint_url r,
     tg_credential_token = tr_credential_token r, tg_archive_responsible = tr_archive_responsible r,
     tg_schema_version = tr_schema_version r, tg_cursor_epoch = tr_cursor_epoch r,
     tg_cursor_pub_seq = tr_cursor_pub_seq r, tg_created_at = now \<rparr>"

definition target_from_row :: "target_entry \<Rightarrow> target_row" where
  "target_from_row g = \<lparr> tr_target_id = tg_target_id g, tr_endpoint_url = tg_endpoint_url g,
     tr_credential_token = tg_credential_token g, tr_archive_responsible = tg_archive_responsible g,
     tr_schema_version = tg_schema_version g, tr_cursor_epoch = tg_cursor_epoch g,
     tr_cursor_pub_seq = tg_cursor_pub_seq g \<rparr>"

definition insert_target :: "target_entry \<Rightarrow> publication_store \<Rightarrow> sqlite_error + unit \<times> publication_store" where
  "insert_target g p = (if tg_target_id g \<in> tg_target_id ` set (target_registry_t p) then Inl ConstraintPrimaryKey
     else Inr ((), p\<lparr> target_registry_t := target_registry_t p @ [g] \<rparr>))"

definition update_targets :: "(target_entry \<Rightarrow> bool) \<Rightarrow> (target_entry \<Rightarrow> target_entry) \<Rightarrow> publication_store \<Rightarrow>
    sqlite_error + nat \<times> publication_store" where
  "update_targets hit upd p = Inr (length (filter hit (target_registry_t p)),
     p\<lparr> target_registry_t := map (\<lambda>g. if hit g then upd g else g) (target_registry_t p) \<rparr>)"

definition target_insert :: "ext \<Rightarrow> target_row \<Rightarrow> i64 \<Rightarrow> (node, publish_error, unit) act" where
  "target_insert x r now = pub_sql x (insert_target (target_entry_of r now))"

definition first_target :: "tables \<Rightarrow> target_row option" where
  "first_target t = (case target_rows t of [] \<Rightarrow> None | g # _ \<Rightarrow> Some (target_from_row g))"

definition target_get :: "ext \<Rightarrow> (node, publish_error, target_row option) act" where
  "target_get x = pub_select x first_target"

definition target_count :: "ext \<Rightarrow> (node, publish_error, i64) act" where
  "target_count x = pub_select x (\<lambda>t. int (length (target_rows t)))"

definition target_delete :: "ext \<Rightarrow> string \<Rightarrow> (node, publish_error, unit) act" where
  "target_delete x i = pub_sql x (\<lambda>p. Inr ((), p\<lparr> target_registry_t := filter (\<lambda>g. tg_target_id g \<noteq> i) (target_registry_t p) \<rparr>))"

definition target_set_token :: "ext \<Rightarrow> string \<Rightarrow> string \<Rightarrow> (node, publish_error, unit) act" where
  "target_set_token x i tok = andThen (pub_sql x (update_targets (\<lambda>g. tg_target_id g = i)
     (\<lambda>g. g\<lparr> tg_credential_token := tok \<rparr>))) (\<lambda>_. ret ())"

definition target_set_archive_responsible :: "ext \<Rightarrow> string \<Rightarrow> bool \<Rightarrow> (node, publish_error, unit) act" where
  "target_set_archive_responsible x i on = andThen (pub_sql x (update_targets (\<lambda>g. tg_target_id g = i)
     (\<lambda>g. g\<lparr> tg_archive_responsible := on \<rparr>))) (\<lambda>_. ret ())"

definition target_advance_cursor :: "ext \<Rightarrow> string \<Rightarrow> string \<Rightarrow> i64 \<Rightarrow> (node, publish_error, unit) act" where
  "target_advance_cursor x i ep n = andThen (pub_sql x (update_targets (\<lambda>g. tg_target_id g = i)
     (\<lambda>g. g\<lparr> tg_cursor_epoch := Some ep, tg_cursor_pub_seq := n \<rparr>))) (\<lambda>_. ret ())"

definition effective_cursor :: "string \<Rightarrow> target_row \<Rightarrow> i64" where
  "effective_cursor ep r = (if tr_cursor_epoch r = Some ep then tr_cursor_pub_seq r else 0)"

definition has_unacked_pubseq_rows :: "ext \<Rightarrow> string \<Rightarrow> target_row \<Rightarrow> i64 list \<Rightarrow> (node, publish_error, bool) act" where
  "has_unacked_pubseq_rows x ep r seqs =
     (if seqs = [] then ret False
      else pub_select x (\<lambda>t. list_ex (\<lambda>q. after_cursor ep (effective_cursor ep r) q \<and> pb_kind q = ''measurement'' \<and>
        of_readings (set seqs) q) (log_rows t)))"

definition archive_target_registered :: "ext \<Rightarrow> (node, publish_error, bool) act" where
  "archive_target_registered x = pub_select x (\<lambda>t. 0 < length (filter tg_archive_responsible (target_rows t)))"

definition any_unacked_for_target :: "ext \<Rightarrow> string \<Rightarrow> target_row \<Rightarrow> (node, publish_error, bool) act" where
  "any_unacked_for_target x ep r = pub_select x (\<lambda>t. list_ex (after_cursor ep (effective_cursor ep r)) (log_rows t))"

definition outbox_backlog_count :: "ext \<Rightarrow> string \<Rightarrow> target_row \<Rightarrow> (node, publish_error, i64) act" where
  "outbox_backlog_count x ep r = pub_select x (\<lambda>t. int (length (filter (after_cursor ep (effective_cursor ep r)) (log_rows t))))"

section \<open>Recovery\<close>

definition bad_recovery_epoch :: "string \<Rightarrow> bool" where
  "bad_recovery_epoch ep \<longleftrightarrow> ep = [] \<or> CHR '':'' \<in> set ep \<or> list_ex is_control (chars ep)"

definition carried_rows :: "string \<Rightarrow> i64 \<Rightarrow> publication_entry list \<Rightarrow> publication_entry list" where
  "carried_rows ep n rows = sort_key pb_pub_seq (filter (\<lambda>r. after_cursor ep n r \<and>
     \<not> (pb_kind r = ''annotation'' \<and> pb_subtype r = Some ''epoch_start'')) rows)"

text \<open>The writes of \<^verbatim>\<open>rebuild_recovery_outbox\<close>, after its checks and the query of the rows to carry over.\<close>

definition rebuild_writes ::
    "ext \<Rightarrow> string \<Rightarrow> string \<Rightarrow> i64 \<Rightarrow> target_row \<Rightarrow> publication_entry list \<Rightarrow> (node, publish_error, recovery_outbox_rebuild) act" where
  "rebuild_writes x old new now g carried =
     andThen (pub_sql x (\<lambda>p. Inr ((), p\<lparr> publication_log_t := [] \<rparr>))) (\<lambda>_.
     andThen (pub_sql x (\<lambda>p. Inr ((), p\<lparr> publication_autoinc := 0 \<rparr>))) (\<lambda>_.
     andThen (pub_sql x (insert_publication (new_publication new ''annotation'' (Some ''epoch_start'') None
       (Some (json_text x (JObj [(''prior_epoch'', JStr old)]))) now))) (\<lambda>_.
     andThen (forA carried (\<lambda>r. pub_sql x (insert_publication (r\<lparr> pb_epoch := new \<rparr>)))) (\<lambda>_.
     andThen (pub_sql x (update_targets (\<lambda>q. tg_target_id q = tr_target_id g \<and> tg_cursor_epoch q = Some old \<and>
         tg_cursor_pub_seq q = tr_cursor_pub_seq g)
       (\<lambda>q. q\<lparr> tg_cursor_epoch := Some new, tg_cursor_pub_seq := 0 \<rparr>))) (\<lambda>changed.
     if changed \<noteq> 1 then throw (PInvalid ''recovery target cursor changed'')
     else ret \<lparr> rr_replayed_records = int (length carried),
       rr_last_new_publication_seq = int (length carried) + 1 \<rparr>)))))"

definition rebuild_recovery_outbox ::
    "ext \<Rightarrow> string \<Rightarrow> string \<Rightarrow> i64 \<Rightarrow> i64 \<Rightarrow> (node, publish_error, recovery_outbox_rebuild) act" where
  "rebuild_recovery_outbox x old new accepted now =
     (if bad_recovery_epoch old \<or> bad_recovery_epoch new \<or> old = new \<or> accepted < 0 \<or> now < 0
      then throw (PInvalid ''invalid recovery outbox boundary'')
      else andThen (pub_select x first_target) (\<lambda>target. case target of
        None \<Rightarrow> throw (PInvalid ''recovery target is missing'')
      | Some g \<Rightarrow> andThen (target_count x) (\<lambda>count.
          if count \<noteq> 1 \<or> tr_cursor_epoch g \<noteq> Some old \<or> tr_cursor_pub_seq g < 0 \<or> accepted < tr_cursor_pub_seq g
          then throw (PInvalid ''recovery target cursor does not match'')
          else andThen (pub_select x (\<lambda>t. length (filter (\<lambda>r. pb_epoch r \<noteq> old) (log_rows t)))) (\<lambda>foreign.
            if foreign \<noteq> 0 then throw (PInvalid ''recovery outbox contains another epoch'')
            else andThen (pub_select x (\<lambda>t. carried_rows old accepted (log_rows t))) (rebuild_writes x old new now g)))))"

section \<open>Activation messages\<close>

definition ACTIVATION_SCHEMA_VERSION :: nat where "ACTIVATION_SCHEMA_VERSION = 1"

record activation_request =
  rq_schema_version :: nat
  rq_activation_id :: string
  rq_edge_id :: string
  rq_edge_node_id :: string
  rq_expected_ledger_epoch :: string
  rq_grant_revision :: u64
  rq_issued_at :: i64

record activation_result =
  rs_schema_version :: nat
  rs_activation_id :: string
  rs_edge_id :: string
  rs_edge_node_id :: string
  rs_ledger_epoch :: string
  rs_status :: string
  rs_discard_through_reading_seq :: i64
  rs_first_publication_seq :: i64
  rs_applied_at :: i64

definition activation_request_json :: "activation_request \<Rightarrow> json" where
  "activation_request_json r = JObj [
     (''schema_version'', json_int (rq_schema_version r)), (''activation_id'', JStr (rq_activation_id r)),
     (''edge_id'', JStr (rq_edge_id r)), (''edge_node_id'', JStr (rq_edge_node_id r)),
     (''expected_ledger_epoch'', JStr (rq_expected_ledger_epoch r)),
     (''grant_revision'', json_int (rq_grant_revision r)), (''issued_at'', JInt (rq_issued_at r))]"

definition activation_result_json :: "activation_result \<Rightarrow> json" where
  "activation_result_json r = JObj [
     (''schema_version'', json_int (rs_schema_version r)), (''activation_id'', JStr (rs_activation_id r)),
     (''edge_id'', JStr (rs_edge_id r)), (''edge_node_id'', JStr (rs_edge_node_id r)),
     (''ledger_epoch'', JStr (rs_ledger_epoch r)), (''status'', JStr (rs_status r)),
     (''discard_through_reading_seq'', JInt (rs_discard_through_reading_seq r)),
     (''first_publication_seq'', JInt (rs_first_publication_seq r)), (''applied_at'', JInt (rs_applied_at r))]"

definition validate_prefixed_hex :: "string \<Rightarrow> string \<Rightarrow> string \<Rightarrow> publish_error + unit" where
  "validate_prefixed_hex field v p = (case strip_prefix p v of
     None \<Rightarrow> Inl (PInvalid (field @ '' must start with '' @ p))
   | Some r \<Rightarrow> if \<not> hex_128 r then Inl (PInvalid (field @ '' must contain 128-bit lowercase hexadecimal'')) else Inr ())"

definition identity_ok :: "string \<Rightarrow> bool" where
  "identity_ok v \<longleftrightarrow> \<not> (v = [] \<or> 255 < length v \<or> CHR '':'' \<in> set v \<or> list_ex is_control (chars v))"

definition validate_identity :: "string \<Rightarrow> string \<Rightarrow> publish_error + unit" where
  "validate_identity field v = (if \<not> identity_ok v then Inl (PInvalid (field @ '' is not a valid identity'')) else Inr ())"

definition validate_activation_topic_segment :: "string \<Rightarrow> string \<Rightarrow> publish_error + unit" where
  "validate_activation_topic_segment field v = (case validate_identity field v of
     Inl e \<Rightarrow> Inl e
   | Inr _ \<Rightarrow> if CHR ''/'' \<in> set v \<or> CHR ''+'' \<in> set v \<or> CHR ''#'' \<in> set v
       then Inl (PInvalid (field @ '' is not a safe MQTT topic segment'')) else Inr ())"

text \<open>The checks of a message, in order; the first that fails is the result.\<close>

fun first_error :: "('e + unit) list \<Rightarrow> 'e + unit" where
  "first_error [] = Inr ()"
| "first_error (c # cs) = (case c of Inl e \<Rightarrow> Inl e | Inr _ \<Rightarrow> first_error cs)"

definition refuse_if :: "bool \<Rightarrow> string \<Rightarrow> publish_error + unit" where
  "refuse_if b msg = (if b then Inl (PInvalid msg) else Inr ())"

definition validate_request :: "activation_request \<Rightarrow> publish_error + unit" where
  "validate_request r = first_error [
     refuse_if (rq_schema_version r \<noteq> ACTIVATION_SCHEMA_VERSION) ''activation request schema_version must be 1'',
     validate_prefixed_hex ''activation_id'' (rq_activation_id r) ''act-'',
     validate_prefixed_hex ''edge_id'' (rq_edge_id r) ''edge-'',
     validate_activation_topic_segment ''edge_node_id'' (rq_edge_node_id r),
     validate_identity ''expected_ledger_epoch'' (rq_expected_ledger_epoch r),
     refuse_if (rq_grant_revision r \<noteq> 1) ''activation grant_revision must be 1'',
     refuse_if (rq_issued_at r < 0) ''activation issued_at must be non-negative'']"

definition validate_result :: "activation_result \<Rightarrow> publish_error + unit" where
  "validate_result r = first_error [
     refuse_if (rs_schema_version r \<noteq> ACTIVATION_SCHEMA_VERSION) ''activation result schema_version must be 1'',
     validate_prefixed_hex ''activation_id'' (rs_activation_id r) ''act-'',
     validate_prefixed_hex ''edge_id'' (rs_edge_id r) ''edge-'',
     validate_activation_topic_segment ''edge_node_id'' (rs_edge_node_id r),
     validate_identity ''ledger_epoch'' (rs_ledger_epoch r),
     refuse_if (rs_status r \<noteq> ''applied'') ''activation result status must be applied'',
     refuse_if (rs_discard_through_reading_seq r < 0) ''discard boundary must be non-negative'',
     refuse_if (rs_first_publication_seq r \<noteq> 1) ''first_publication_seq must be 1'',
     refuse_if (rs_applied_at r < 0) ''activation applied_at must be non-negative'']"

type_synonym 'm decoder = "string \<Rightarrow> string + 'm"

definition decode_request :: "activation_request decoder \<Rightarrow> string \<Rightarrow> publish_error + activation_request" where
  "decode_request dec payload = (case dec payload of
     Inl e \<Rightarrow> Inl (PInvalid (''activation request JSON: '' @ e))
   | Inr r \<Rightarrow> (case validate_request r of Inl e \<Rightarrow> Inl e | Inr _ \<Rightarrow> Inr r))"

definition decode_result :: "activation_result decoder \<Rightarrow> string \<Rightarrow> publish_error + activation_result" where
  "decode_result dec payload = (case dec payload of
     Inl e \<Rightarrow> Inl (PInvalid (''activation result JSON: '' @ e))
   | Inr r \<Rightarrow> (case validate_result r of Inl e \<Rightarrow> Inl e | Inr _ \<Rightarrow> Inr r))"

definition encode_result :: "ext \<Rightarrow> activation_result \<Rightarrow> publish_error + string" where
  "encode_result x r = (case validate_result r of Inl e \<Rightarrow> Inl e | Inr _ \<Rightarrow> Inr (json_text x (activation_result_json r)))"

section \<open>Activation\<close>

definition set_activation :: "(activation_entry \<Rightarrow> bool) \<Rightarrow> (activation_entry \<Rightarrow> activation_entry) \<Rightarrow> publication_store \<Rightarrow>
    sqlite_error + unit \<times> publication_store" where
  "set_activation hit upd p = Inr ((), if hit (activation_t p) then p\<lparr> activation_t := upd (activation_t p) \<rparr> else p)"

definition publication_allocation_sequence :: "ext \<Rightarrow> (node, publish_error, i64) act" where
  "publication_allocation_sequence x = pub_select x (\<lambda>t. publication_autoinc (publish_t t))"

definition publication_allocation_high_water :: "ext \<Rightarrow> (node, publish_error, i64) act" where
  "publication_allocation_high_water x = publication_allocation_sequence x"

text \<open>The body of the transaction of \<^verbatim>\<open>install_edge_target\<close>, and the whole operation.\<close>

definition install_target_body :: "ext \<Rightarrow> target_row \<Rightarrow> i64 \<Rightarrow> (node, publish_error, unit) act" where
  "install_target_body x r now =
     andThen (activation_state_of x) (\<lambda>st.
     if st \<noteq> Standalone then throw (PInvalid ''IoTKit Edge target may only be installed on a standalone Edge Node'')
     else andThen (target_count x) (\<lambda>existing.
       andThen (pub_select x (\<lambda>t. length (log_rows t))) (\<lambda>rows.
       andThen (publication_allocation_sequence x) (\<lambda>alloc.
       if existing \<noteq> 0 \<or> rows \<noteq> 0 \<or> alloc \<noteq> 0
       then throw (PInvalid ''standalone outbox adoption is unsupported; Edge Node activation requires an unused publication stream'')
       else andThen (pub_sql x (insert_target ((target_entry_of r now)\<lparr> tg_cursor_epoch := None, tg_cursor_pub_seq := 0 \<rparr>))) (\<lambda>_.
         pub_sql x (set_activation (\<lambda>a. ac_state a = ''standalone'') (\<lambda>a. a\<lparr> ac_state := ''discovery_only'' \<rparr>)))))))"

definition install_edge_target :: "ext \<Rightarrow> target_row \<Rightarrow> i64 \<Rightarrow> (node, publish_error, unit) act" where
  "install_edge_target x r now =
     (if tr_cursor_pub_seq r \<noteq> 0 \<or> tr_cursor_epoch r \<noteq> None
      then throw (PInvalid ''new IoTKit Edge target cursor must be unused'')
      else transaction x PSqlite (install_target_body x r now))"

definition activation_applied :: "ext \<Rightarrow> activation_request \<Rightarrow> activation_result \<Rightarrow> i64 \<Rightarrow> activation_entry \<Rightarrow> activation_entry" where
  "activation_applied x r result now a = a\<lparr> ac_state := ''active'', ac_edge_id := Some (rs_edge_id result),
     ac_activation_id := Some (rs_activation_id result), ac_ledger_epoch := Some (rs_ledger_epoch result),
     ac_discard_through := Some (rs_discard_through_reading_seq result), ac_cleanup_through := 0,
     ac_request_json := Some (json_text x (activation_request_json r)),
     ac_result_json := Some (json_text x (activation_result_json result)), ac_activated_at := Some now \<rparr>"

definition max_reading_seq :: "tables \<Rightarrow> i64" where
  "max_reading_seq t = (case readings_t (timeseries_t t) of [] \<Rightarrow> 0 | r # rs \<Rightarrow> fold (\<lambda>q m. max m (rd_seq q)) rs (rd_seq r))"

definition first_activation :: "ext \<Rightarrow> activation_request \<Rightarrow> edge_node_identity \<Rightarrow> i64 \<Rightarrow> (node, publish_error, activation_result) act" where
  "first_activation x r identity now =
     andThen (target_count x) (\<lambda>targets.
     andThen (pub_select x (\<lambda>t. length (filter (\<lambda>g. tg_cursor_pub_seq g \<noteq> 0 \<or> tg_cursor_epoch g \<noteq> None) (target_rows t)))) (\<lambda>bad.
     andThen (pub_select x (\<lambda>t. length (log_rows t))) (\<lambda>rows.
     andThen (publication_allocation_sequence x) (\<lambda>alloc.
     if targets \<noteq> 1 \<or> bad \<noteq> 0 \<or> rows \<noteq> 0 \<or> alloc \<noteq> 0 then throw (PInvalid ''activation requires an unused publication stream'')
     else andThen (pub_select x max_reading_seq) (\<lambda>discard.
       let result = \<lparr> rs_schema_version = ACTIVATION_SCHEMA_VERSION, rs_activation_id = rq_activation_id r, rs_edge_id = rq_edge_id r,
         rs_edge_node_id = ei_edge_node_id identity, rs_ledger_epoch = ei_ledger_epoch identity, rs_status = ''applied'',
         rs_discard_through_reading_seq = discard, rs_first_publication_seq = 1, rs_applied_at = now \<rparr>
       in andThen (pub_sql x (set_activation (\<lambda>a. ac_state a = ''discovery_only'') (activation_applied x r result now))) (\<lambda>_.
          ret result))))))"

text \<open>The body of the transaction after the identity check, and the whole operation.\<close>

definition resume_activation ::
    "ext \<Rightarrow> activation_result decoder \<Rightarrow> activation_request \<Rightarrow> edge_node_identity \<Rightarrow> i64 \<Rightarrow> (node, publish_error, activation_result) act" where
  "resume_activation x dec r identity now =
     andThen (pub_select x activation_of) (\<lambda>stored.
     andThen (liftR (activation_from_db (ac_state stored))) (\<lambda>st. case st of
         ActiveEdge \<Rightarrow>
           if ac_request_json stored \<noteq> Some (json_text x (activation_request_json r))
           then throw (PInvalid ''Edge Node is already active under a conflicting activation'')
           else (case ac_result_json stored of
               None \<Rightarrow> throw (PInvalid ''active Edge Node has no stored activation result'')
             | Some v \<Rightarrow> liftR (decode_result dec v))
       | Standalone \<Rightarrow> throw (PInvalid ''Edge Node has no IoTKit Edge target and cannot be activated'')
       | DiscoveryOnly \<Rightarrow> first_activation x r identity now))"

definition apply_activation ::
    "ext \<Rightarrow> activation_result decoder \<Rightarrow> activation_request \<Rightarrow> i64 \<Rightarrow> (node, publish_error, activation_result) act" where
  "apply_activation x dec r now =
     andThen (liftR (validate_request r)) (\<lambda>_.
     if now < 0 then throw (PInvalid ''activation applied_at must be non-negative'')
     else transaction x PSqlite (
       andThen (mapErr PLedger (load_edge_node_identity x)) (\<lambda>identity.
       if rq_edge_node_id r \<noteq> ei_edge_node_id identity
       then throw (PInvalid ''activation request edge_node_id does not match this Edge Node'')
       else if rq_expected_ledger_epoch r \<noteq> ei_ledger_epoch identity
       then throw (PInvalid ''activation request ledger epoch does not match this Edge Node'')
       else resume_activation x dec r identity now)))"

definition set_readings :: "(reading_entry list \<Rightarrow> reading_entry list) \<Rightarrow> tables \<Rightarrow> tables" where
  "set_readings f t = t\<lparr> timeseries_t := (timeseries_t t)\<lparr> readings_t := f (readings_t (timeseries_t t)) \<rparr> \<rparr>"

definition cleanup_batch :: "i64 \<Rightarrow> i64 \<Rightarrow> nat \<Rightarrow> tables \<Rightarrow> i64 list" where
  "cleanup_batch progress boundary limit t = take limit (sort (filter (\<lambda>n. progress < n \<and> n \<le> boundary)
     (map rd_seq (readings_t (timeseries_t t)))))"

text \<open>The row is read only when the node is active; a NULL boundary cannot be converted.\<close>

definition cleanup_pre_activation_batch :: "ext \<Rightarrow> nat \<Rightarrow> (node, publish_error, u64) act" where
  "cleanup_pre_activation_batch x limit =
     (if limit = 0 then ret 0
      else transaction x PSqlite (
        andThen (mapErr PSqlite (sql x (\<lambda>t. let a = activation_of t in
          if ac_state a \<noteq> ''active'' then Inr (None, t)
          else case ac_discard_through a of None \<Rightarrow> Inl FromSqlConversionFailure
            | Some b \<Rightarrow> Inr (Some (b, ac_cleanup_through a), t)))) (\<lambda>row. case row of
          None \<Rightarrow> ret 0
        | Some (boundary, progress) \<Rightarrow>
            andThen (pub_select x (cleanup_batch progress boundary limit)) (\<lambda>batch.
            if batch = [] then
              (if progress < boundary
               then andThen (pub_sql x (set_activation (\<lambda>_. True) (\<lambda>a. a\<lparr> ac_cleanup_through := boundary \<rparr>))) (\<lambda>_. ret 0)
               else ret 0)
            else andThen (mapErr PSqlite (execute x (\<lambda>t.
                (length (filter (\<lambda>r. progress < rd_seq r \<and> rd_seq r \<le> last batch) (readings_t (timeseries_t t))),
                 set_readings (filter (\<lambda>r. \<not> (progress < rd_seq r \<and> rd_seq r \<le> last batch))) t)))) (\<lambda>changed.
              andThen (pub_sql x (set_activation (\<lambda>_. True) (\<lambda>a. a\<lparr> ac_cleanup_through := last batch \<rparr>))) (\<lambda>_.
              ret changed))))))"

section \<open>Facts\<close>

lemma pub_select_eq:
  "pub_select x f s = (Inr a, s') \<longleftrightarrow> \<not> sql_fault x (sql_step s) \<and> a = f (tables s) \<and> s' = s\<lparr> sql_step := Suc (sql_step s) \<rparr>"
  by (auto simp: pub_select_def select_Inr)

lemma pub_sql_eq:
  "pub_sql x f s = (Inr a, s') \<longleftrightarrow> \<not> sql_fault x (sql_step s) \<and> (\<exists>p. f (publish_t (tables s)) = Inr (a, p) \<and>
     s' = s\<lparr> sql_step := Suc (sql_step s), tables := (tables s)\<lparr> publish_t := p \<rparr> \<rparr>)"
  by (auto simp: pub_sql_def sql_Inr split: sum.splits)

end
