(* ===== verification/Delivery.thy ===== *)
theory Delivery
  imports Publish
begin

text \<open>
  The tasks around the publication log: the records sent to the archive target
  (\<^verbatim>\<open>edge-node/apps/node/src/record.rs\<close>), one delivery cycle and its backoff
  (\<^verbatim>\<open>publish_task.rs\<close>), the retention pass (\<^verbatim>\<open>retention.rs\<close>), the epoch annotation
  (\<^verbatim>\<open>epoch_start.rs\<close>) and the commands on the target and the undone replacement
  (\<^verbatim>\<open>edge-node/apps/nodectl/src/cmd/target.rs\<close>, \<^verbatim>\<open>replace.rs\<close>). The errors of the libraries are
  carried as values instead of as their texts. The answer of the HTTP server, the file system
  statistics, the elapsed time and two JSON decoders are arguments.
\<close>

section \<open>Errors and JSON access\<close>

datatype task_error =
    KText string
  | KNotOwned
  | KLedger ledger_error
  | KPublish publish_error
  | KSqlite sqlite_error
  | KTimeseries timeseries_error

definition json_get :: "string \<Rightarrow> json \<Rightarrow> json option" where
  "json_get k v = (case v of JObj fs \<Rightarrow> map_of fs k | _ \<Rightarrow> None)"

definition json_as_str :: "json option \<Rightarrow> string option" where
  "json_as_str v = (case v of Some (JStr s) \<Rightarrow> Some s | _ \<Rightarrow> None)"

definition parse_value :: "ext \<Rightarrow> string \<Rightarrow> (node, task_error, json) act" where
  "parse_value x s = (case json_parse x s of None \<Rightarrow> throw (KText ''invalid JSON'') | Some v \<Rightarrow> ret v)"

definition require :: "string \<Rightarrow> 'a option \<Rightarrow> (node, task_error, 'a) act" where
  "require msg v = (case v of None \<Rightarrow> throw (KText msg) | Some a \<Rightarrow> ret a)"

section \<open>Records\<close>

record task_ext =
  values_parse :: "string \<Rightarrow> string + f64 list"
  smoke_payload_parse :: "string \<Rightarrow> string + string"

definition SCHEMA_VERSION :: nat where "SCHEMA_VERSION = 1"

text \<open>The objects of \<^verbatim>\<open>serde_json::Value\<close> have their keys in order.\<close>

definition materialize_commissioning_smoke :: "task_ext \<Rightarrow> publication_row \<Rightarrow> (node, task_error, json) act" where
  "materialize_commissioning_smoke tx row =
     andThen (require ''commissioning smoke missing payload'' (or_annotation_json row)) (\<lambda>payload.
     andThen (mapErr KText (liftR (smoke_payload_parse tx payload))) (\<lambda>test_id.
     andThen (mapErr KPublish (liftR (validate_commissioning_smoke_test_id test_id))) (\<lambda>_.
     ret (JObj [(''epoch'', JStr (or_epoch row)), (''family'', JStr ''commissioning_smoke''),
       (''pub_seq'', JInt (or_pub_seq row)), (''schema_version'', json_int SCHEMA_VERSION), (''test_id'', JStr test_id)]))))"

definition reading_by_seq :: "i64 \<Rightarrow> tables \<Rightarrow> sqlite_error + reading_entry \<times> tables" where
  "reading_by_seq n t = (case find_row (\<lambda>r. rd_seq r = n) (readings_t (timeseries_t t)) of
     None \<Rightarrow> Inl QueryReturnedNoRows | Some r \<Rightarrow> Inr (r, t))"

definition series_by_id :: "i64 \<Rightarrow> tables \<Rightarrow> sqlite_error + series_entry \<times> tables" where
  "series_by_id n t = (case find_row (\<lambda>r. se_series_id r = n) (series_t (ledger_t t)) of
     None \<Rightarrow> Inl QueryReturnedNoRows | Some r \<Rightarrow> Inr (r, t))"

definition materialize_measurement :: "ext \<Rightarrow> task_ext \<Rightarrow> publication_row \<Rightarrow> (node, task_error, json) act" where
  "materialize_measurement x tx row =
     andThen (require ''measurement missing reading_seq'' (or_reading_seq row)) (\<lambda>n.
     andThen (mapErr KSqlite (sql x (reading_by_seq n))) (\<lambda>rd.
     andThen (mapErr KSqlite (sql x (series_by_id (rd_series_id rd)))) (\<lambda>sr.
     if length (se_system_id sr) \<noteq> 16 then throw (KText ''system_id blob len'')
     else andThen (mapErr KText (liftR (values_parse tx (rd_values_json rd)))) (\<lambda>vals.
     ret (JObj [(''device_time'', json_opt JInt (rd_device_time rd)), (''epoch'', JStr (or_epoch row)),
       (''event_time'', JInt (rd_event_time rd)), (''event_time_source'', JStr (rd_event_time_source rd)),
       (''family'', JStr ''measurement''), (''pub_seq'', JInt (or_pub_seq row)), (''received_at'', JInt (rd_received_at rd)),
       (''schema_version'', json_int SCHEMA_VERSION),
       (''series_key'', JStr (series_key_of x (SystemId (se_system_id sr)) (se_measurement_key sr) (se_channel_index sr) (se_variant sr))),
       (''time_quality'', JStr (rd_time_quality rd)), (''time_source'', JStr (rd_time_source rd)),
       (''values'', JArr (map JNum vals))])))))"

definition materialize_annotation :: "ext \<Rightarrow> publication_row \<Rightarrow> (node, task_error, json) act" where
  "materialize_annotation x row =
     andThen (require ''annotation missing annotation_json'' (or_annotation_json row)) (\<lambda>text.
     andThen (parse_value x text) (\<lambda>payload.
     andThen (require ''annotation missing subtype'' (or_subtype row)) (\<lambda>subtype.
     andThen (require ''annotation missing prior_epoch'' (json_as_str (json_get ''prior_epoch'' payload))) (\<lambda>prior.
     ret (JObj [(''epoch'', JStr (or_epoch row)), (''family'', JStr ''annotation''), (''prior_epoch'', JStr prior),
       (''pub_seq'', JInt (or_pub_seq row)), (''schema_version'', json_int SCHEMA_VERSION), (''subtype'', JStr subtype)])))))"

definition materialize_row :: "ext \<Rightarrow> task_ext \<Rightarrow> publication_row \<Rightarrow> (node, task_error, json) act" where
  "materialize_row x tx row =
     (if or_kind row = ''measurement'' then materialize_measurement x tx row
      else if or_kind row = ''annotation'' then materialize_annotation x row
      else if or_kind row = ''commissioning_smoke'' then materialize_commissioning_smoke tx row
      else throw (KText (''unknown outbox kind: '' @ or_kind row)))"

definition materialize_batch :: "ext \<Rightarrow> task_ext \<Rightarrow> publication_row list \<Rightarrow> (node, task_error, json list) act" where
  "materialize_batch x tx rows = forA rows (materialize_row x tx)"

section \<open>One delivery cycle\<close>

definition BATCH_LIMIT :: nat where "BATCH_LIMIT = 256"

definition BYTE_CAP :: nat where "BYTE_CAP = 1024 * 1024"

definition usize_add :: "nat \<Rightarrow> nat \<Rightarrow> nat" where
  "usize_add a b = min (a + b) (2 ^ 64 - 1)"

record prepared_batch =
  pr_records :: "json list"
  pr_cursor_start :: i64
  pr_cursor_end :: i64
  pr_endpoint_url :: string
  pr_credential_token :: string
  pr_target_id :: string
  pr_current_epoch :: string

record ack_response =
  ak_publication_id :: string
  ak_acked_pub_seq :: i64

text \<open>The loop of \<^verbatim>\<open>selected_record_count\<close> with its counters.\<close>

fun select_records :: "ext \<Rightarrow> nat \<Rightarrow> nat \<Rightarrow> json list \<Rightarrow> nat" where
  "select_records x acc selected [] = selected"
| "select_records x acc selected (r # rs) =
     (let len = length (json_text x r) in
      if 0 < selected \<and> BYTE_CAP < usize_add acc len then selected
      else select_records x (usize_add acc len) (Suc selected) rs)"

definition selected_record_count :: "ext \<Rightarrow> json list \<Rightarrow> nat" where
  "selected_record_count x rs = select_records x 0 0 rs"

definition prepare_batch :: "ext \<Rightarrow> task_ext \<Rightarrow> (node, task_error, prepared_batch option) act" where
  "prepare_batch x tx =
     andThen (mapErr KLedger (ledger_epoch x)) (\<lambda>ep.
     andThen (mapErr KPublish (target_get x)) (\<lambda>target. case target of
       None \<Rightarrow> ret None
     | Some g \<Rightarrow>
         if \<not> tr_archive_responsible g then ret None
         else if strip_prefix ''https://'' (tr_endpoint_url g) = None
         then throw (KText (''refusing to deliver to non-HTTPS endpoint: '' @ tr_endpoint_url g))
         else let cursor = effective_cursor ep g in
           andThen (mapErr KPublish (select_batch x ep cursor BATCH_LIMIT)) (\<lambda>rows.
           if rows = [] then ret None
           else andThen (materialize_batch x tx rows) (\<lambda>records.
             if records = [] then throw (KText ''materialized empty records for non-empty outbox batch'')
             else let n = selected_record_count x records in
               if n = 0 \<or> length rows < n then throw (KText ''selected batch cursor missing'')
               else ret (Some \<lparr> pr_records = take n records, pr_cursor_start = cursor + 1, pr_cursor_end = or_pub_seq (rows ! (n - 1)),
                 pr_endpoint_url = tr_endpoint_url g, pr_credential_token = tr_credential_token g,
                 pr_target_id = tr_target_id g, pr_current_epoch = ep \<rparr>)))))"

definition batch_publication_id :: "prepared_batch \<Rightarrow> string" where
  "batch_publication_id b = pr_target_id b @ '':'' @ pr_current_epoch b @ '':'' @ dec_int (pr_cursor_start b) @ '':'' @ dec_int (pr_cursor_end b)"

definition advance_cursor_after_ack ::
    "ext \<Rightarrow> string \<Rightarrow> string \<Rightarrow> i64 \<Rightarrow> string \<Rightarrow> ack_response \<Rightarrow> (node, task_error, unit) act" where
  "advance_cursor_after_ack x target_id ep cursor_end expected ack =
     (if ak_publication_id ack \<noteq> expected
      then throw (KText (''publish ack publication_id mismatch: expected '' @ expected @ '', got '' @ ak_publication_id ack))
      else if ak_acked_pub_seq ack \<noteq> cursor_end
      then throw (KText (''publish ack acked_pub_seq '' @ dec_int (ak_acked_pub_seq ack) @ '' does not match batch cursor_end '' @
        dec_int cursor_end))
      else andThen (mapErr KPublish (target_get x)) (\<lambda>target. case target of
        None \<Rightarrow> throw (KText ''publish target disappeared before cursor advance'')
      | Some g \<Rightarrow>
          if tr_target_id g \<noteq> target_id
          then throw (KText (''publish target changed before cursor advance: expected '' @ target_id @ '', got '' @ tr_target_id g))
          else if tr_cursor_epoch g = Some ep \<and> cursor_end < tr_cursor_pub_seq g then ret ()
          else mapErr KPublish (target_advance_cursor x target_id ep cursor_end)))"

text \<open>
  The end of a cycle with the answer of the server: an error of the request, of its status or of the
  decoding, or the decoded acknowledgement.
\<close>

definition finish_cycle :: "ext \<Rightarrow> prepared_batch \<Rightarrow> string + ack_response \<Rightarrow> (node, task_error, unit) act" where
  "finish_cycle x b answer = andThen (mapErr KText (liftR answer)) (\<lambda>ack.
     advance_cursor_after_ack x (pr_target_id b) (pr_current_epoch b) (pr_cursor_end b) (batch_publication_id b) ack)"

definition run_publish_cycle ::
    "ext \<Rightarrow> task_ext \<Rightarrow> (prepared_batch \<Rightarrow> string + ack_response) \<Rightarrow> (node, task_error, unit) act" where
  "run_publish_cycle x tx post = andThen (prepare_batch x tx) (\<lambda>prepared. case prepared of
     None \<Rightarrow> ret ()
   | Some b \<Rightarrow> finish_cycle x b (post b))"

text \<open>Durations in nanoseconds, up to \<^verbatim>\<open>Duration::MAX\<close>.\<close>

definition DURATION_MAX :: nat where "DURATION_MAX = (2 ^ 64 - 1) * 1000000000 + 999999999"

definition MAX_BACKOFF :: nat where "MAX_BACKOFF = 5 * 60 * 1000000000"

definition next_backoff :: "nat \<Rightarrow> nat \<Rightarrow> nat" where
  "next_backoff current interval =
     (let next = (if current = 0 then interval else min (current * 2) DURATION_MAX) in min next MAX_BACKOFF)"

definition delay_after :: "nat \<Rightarrow> nat \<Rightarrow> 'e + unit \<Rightarrow> nat" where
  "delay_after interval delay result = (case result of Inr _ \<Rightarrow> interval | Inl _ \<Rightarrow> next_backoff delay interval)"

record target_delivery_health =
  td_target_id :: string
  td_cursor_pub_seq :: i64
  td_backlog :: i64
  td_last_push_at :: "i64 option"
  td_last_error :: "task_error option"

definition read_publish_health :: "ext \<Rightarrow> (node, task_error, (string \<times> i64 \<times> i64) option) act" where
  "read_publish_health x =
     andThen (mapErr KLedger (ledger_epoch x)) (\<lambda>ep.
     andThen (mapErr KPublish (target_get x)) (\<lambda>target. case target of
       None \<Rightarrow> ret None
     | Some g \<Rightarrow> andThen (mapErr KPublish (outbox_backlog_count x ep g)) (\<lambda>backlog.
         ret (Some (tr_target_id g, tr_cursor_pub_seq g, backlog)))))"

definition refresh_publish_health ::
    "ext \<Rightarrow> i64 \<Rightarrow> task_error + unit \<Rightarrow> target_delivery_health list \<Rightarrow> node \<Rightarrow> target_delivery_health list \<times> node" where
  "refresh_publish_health x now cycle health s = (case read_publish_health x s of
     (Inl _, s') \<Rightarrow> (health, s')
   | (Inr None, s') \<Rightarrow> ([], s')
   | (Inr (Some (i, cursor, backlog)), s') \<Rightarrow>
       ([\<lparr> td_target_id = i, td_cursor_pub_seq = cursor, td_backlog = backlog,
          td_last_push_at = (case cycle of Inr _ \<Rightarrow> Some now
            | Inl _ \<Rightarrow> Option.bind (find_row (\<lambda>h. td_target_id h = i) health) td_last_push_at),
          td_last_error = (case cycle of Inr _ \<Rightarrow> None | Inl e \<Rightarrow> Some e) \<rparr>], s'))"

section \<open>The epoch annotation\<close>

definition last_epoch_renewed :: "tables \<Rightarrow> string option" where
  "last_epoch_renewed t = map_option ev_detail (find_row (\<lambda>e. ev_kind e = ''epoch_renewed'')
     (sort_key (\<lambda>e. - ev_event_id e) (ledger_events_t (ledger_t t))))"

definition maybe_enqueue_epoch_start :: "ext \<Rightarrow> (node, task_error, unit) act" where
  "maybe_enqueue_epoch_start x =
     andThen (mapErr KLedger (ledger_epoch x)) (\<lambda>ep.
     andThen (mapErr KPublish (publication_admitted x)) (\<lambda>admitted.
     if \<not> admitted then ret ()
     else andThen (mapErr KSqlite (select x last_epoch_renewed)) (\<lambda>detail. case detail of
       None \<Rightarrow> ret ()
     | Some text \<Rightarrow> andThen (parse_value x text) (\<lambda>v.
         case json_as_str (json_get ''old_epoch'' v) of
           None \<Rightarrow> ret ()
         | Some old \<Rightarrow> andThen (now_ms x) (\<lambda>now.
             andThen (mapErr KPublish (enqueue_annotation x ep ''epoch_start''
               (json_text x (JObj [(''prior_epoch'', JStr old)])) now)) (\<lambda>_. ret ()))))))"

section \<open>Retention\<close>

definition DAY_MS :: i64 where "DAY_MS = 24 * 60 * 60 * 1000"

definition DEDUP_TTL_MS :: i64 where "DEDUP_TTL_MS = 72 * 60 * 60 * 1000"

definition PURGE_BATCH :: nat where "PURGE_BATCH = 5000"

definition saturating_mul :: "i64 \<Rightarrow> i64 \<Rightarrow> i64" where
  "saturating_mul a b = clamp_i64 (a * b)"

record retention_config =
  rc_retention_days :: u64
  rc_quarantine_ttl_days :: u64
  rc_disk_high_watermark_pct :: u64

text \<open>The readings whose measurement is still to be acknowledged.\<close>

definition in_custody :: "string \<Rightarrow> i64 \<Rightarrow> publication_entry list \<Rightarrow> i64 \<Rightarrow> bool" where
  "in_custody ep n rows seq \<longleftrightarrow> list_ex (\<lambda>p. pb_kind p = ''measurement'' \<and> pb_reading_seq p = Some seq \<and> after_cursor ep n p) rows"

definition purgeable :: "i64 \<Rightarrow> string \<Rightarrow> i64 option \<Rightarrow> tables \<Rightarrow> reading_entry \<Rightarrow> bool" where
  "purgeable cutoff ep eff t r \<longleftrightarrow> rd_received_at r < cutoff \<and> (case eff of None \<Rightarrow> True
     | Some n \<Rightarrow> \<not> (\<not> rd_quarantined r \<and> in_custody ep n (log_rows t) (rd_seq r)))"

text \<open>
  The statement has a LIMIT and no ORDER BY; rows are taken in table order here. The loop goes on until
  the statement finds fewer rows than the limit.
\<close>

definition purge_candidates :: "i64 \<Rightarrow> string \<Rightarrow> i64 option \<Rightarrow> tables \<Rightarrow> i64 list" where
  "purge_candidates cutoff ep eff t = take PURGE_BATCH (map rd_seq (filter (purgeable cutoff ep eff t) (readings_t (timeseries_t t))))"

definition delete_readings :: "i64 list \<Rightarrow> tables \<Rightarrow> u64 \<times> tables" where
  "delete_readings seqs t = (length (filter (\<lambda>r. rd_seq r \<in> set seqs) (readings_t (timeseries_t t))),
     set_readings (filter (\<lambda>r. rd_seq r \<notin> set seqs)) t)"

definition purge_batch :: "ext \<Rightarrow> i64 list \<Rightarrow> (node, task_error, u64) act" where
  "purge_batch x seqs = andThen (mapErr KPublish (prune_outbox_by_reading_seqs x seqs)) (\<lambda>_.
     mapErr KSqlite (execute x (delete_readings seqs)))"

abbreviation readings_of :: "node \<Rightarrow> reading_entry list" where
  "readings_of s \<equiv> readings_t (timeseries_t (tables s))"

lemma purge_batch_Inr:
  assumes "purge_batch x seqs s = (Inr n, s')" "seqs \<noteq> []"
  shows "s' = s\<lparr> sql_step := Suc (Suc (sql_step s)), tables := set_readings (filter (\<lambda>r. rd_seq r \<notin> set seqs))
      ((tables s)\<lparr> publish_t := (publish_t (tables s))\<lparr> publication_log_t :=
         filter (\<lambda>r. \<not> of_readings (set seqs) r) (log_rows (tables s)) \<rparr> \<rparr>) \<rparr>"
    and "n = length (filter (\<lambda>r. rd_seq r \<in> set seqs) (readings_of s))"
  using assms by (auto simp: purge_batch_def prune_outbox_by_reading_seqs_def andThen_eq_Inr mapErr_eq_Inr pub_sql_eq
      execute_Inr delete_publications_def delete_readings_def set_readings_def)

function purge_loop :: "ext \<Rightarrow> i64 \<Rightarrow> string \<Rightarrow> i64 option \<Rightarrow> u64 \<Rightarrow> node \<Rightarrow> (task_error + u64) \<times> node" where
  "purge_loop x cutoff ep eff acc s =
     (case mapErr KSqlite (select x (purge_candidates cutoff ep eff)) s of
        (Inl e, s1) \<Rightarrow> (Inl e, s1)
      | (Inr seqs, s1) \<Rightarrow>
          if seqs = [] then (Inr acc, s1)
          else (case purge_batch x seqs s1 of
              (Inl e, s2) \<Rightarrow> (Inl e, s2)
            | (Inr deleted, s2) \<Rightarrow>
                if length seqs < PURGE_BATCH then (Inr (acc + deleted), s2)
                else purge_loop x cutoff ep eff (acc + deleted) s2))"
  by pat_completeness auto

lemma purge_shrinks:
  assumes "mapErr KSqlite (select x (purge_candidates cutoff ep eff)) s = (Inr seqs, s1)" "seqs \<noteq> []"
    and "purge_batch x seqs s1 = (Inr deleted, s2)"
  shows "length (readings_of s2) < length (readings_of s)"
proof -
  have s1: "s1 = s\<lparr> sql_step := Suc (sql_step s) \<rparr>" "seqs = purge_candidates cutoff ep eff (tables s)"
    using assms(1) by (auto simp: mapErr_eq_Inr select_Inr)
  have "set seqs \<subseteq> rd_seq ` set (readings_of s)"
    unfolding s1(2) purge_candidates_def by (auto dest!: in_set_takeD)
  then have "hd seqs \<in> rd_seq ` set (readings_of s)" using hd_in_set [OF assms(2)] by blast
  then obtain r where r: "r \<in> set (readings_of s)" "rd_seq r = hd seqs" by auto
  have "readings_of s2 = filter (\<lambda>r. rd_seq r \<notin> set seqs) (readings_of s)"
    using purge_batch_Inr(1) [OF assms(3,2)] s1(1) by (simp add: set_readings_def)
  then show ?thesis using r assms(2) by (simp add: length_filter_less)
qed

termination purge_loop
  by (relation "measure (\<lambda>(_, _, _, _, _, s). length (readings_of s))") (simp, simp add: purge_shrinks [OF sym _ sym])

declare purge_loop.simps [simp del]

definition purge_readings_custody_aware :: "ext \<Rightarrow> i64 \<Rightarrow> string \<Rightarrow> i64 option \<Rightarrow> (node, task_error, u64) act" where
  "purge_readings_custody_aware x cutoff ep eff =
     andThen (case eff of None \<Rightarrow> ret 0 | Some n \<Rightarrow> mapErr KPublish (prune_acked_outbox x ep n)) (\<lambda>_.
       purge_loop x cutoff ep eff 0)"

definition custody_cursor :: "string \<Rightarrow> target_row option \<Rightarrow> i64 option" where
  "custody_cursor ep target = (case target of None \<Rightarrow> None
     | Some g \<Rightarrow> if \<not> tr_archive_responsible g then None else Some (effective_cursor ep g))"

text \<open>The first transaction of a pass: what it purged of the readings and of the deduplication window.\<close>

definition retention_purge :: "ext \<Rightarrow> i64 \<Rightarrow> i64 \<Rightarrow> i64 \<Rightarrow> nat \<Rightarrow> (node, task_error, u64 \<times> u64) act" where
  "retention_purge x reading_cutoff dedup_cutoff ttl elapsed = transaction x KSqlite (
     andThen (mapErr KTimeseries (purge_dedup_before x dedup_cutoff)) (\<lambda>purged_dedup.
     andThen (mapErr KLedger (ledger_epoch x)) (\<lambda>ep.
     andThen (mapErr KPublish (target_get x)) (\<lambda>target.
     andThen (purge_readings_custody_aware x reading_cutoff ep (custody_cursor ep target)) (\<lambda>purged_readings.
     andThen (mapErr KLedger (expire_quarantined_devices x ttl)) (\<lambda>expired.
     andThen (if expired = [] then ret 0 else mapErr KLedger (bump_generation x)) (\<lambda>_.
     andThen (mapErr KLedger (record_event x ''retention_purge'' None
       (CHR ''{'' # [CHR 0x22] @ ''readings'' @ [CHR 0x22] @ '':'' @ dec_nat purged_readings @ '','' @ [CHR 0x22] @ ''dedup'' @ [CHR 0x22] @ '':'' @
        dec_nat purged_dedup @ '','' @ [CHR 0x22] @ ''expired_quarantines'' @ [CHR 0x22] @ '':'' @ dec_nat (length expired) @ '','' @
        [CHR 0x22] @ ''duration_ms'' @ [CHR 0x22] @ '':'' @ dec_nat elapsed @ ''}''))) (\<lambda>_.
     ret (purged_readings, purged_dedup)))))))))"

text \<open>A failing purge of the sightings is logged and counts zero.\<close>

definition sightings_pass :: "ext \<Rightarrow> i64 \<Rightarrow> node \<Rightarrow> u64 \<times> node" where
  "sightings_pass x now s = (case transaction x LSqlite (purge_sightings x now) s of
     (Inl _, s') \<Rightarrow> (0, s') | (Inr n, s') \<Rightarrow> (n, s'))"

record db_health =
  dh_size_bytes :: u64
  dh_disk_available_bytes :: u64
  dh_watermark_exceeded :: bool

definition u64_mul :: "nat \<Rightarrow> nat \<Rightarrow> nat" where
  "u64_mul a b = min (a * b) (2 ^ 64 - 1)"

text \<open>The sizes of the database and of its log, and the result of \<^verbatim>\<open>statvfs\<close>.\<close>

record disk_stat =
  ds_file_len :: u64
  ds_wal_len :: u64
  ds_bavail :: u64
  ds_blocks :: u64
  ds_frsize :: u64

definition observe_db_health :: "disk_stat \<Rightarrow> u64 \<Rightarrow> db_health" where
  "observe_db_health d pct =
     (let available = u64_mul (ds_bavail d) (ds_frsize d); whole = u64_mul (ds_blocks d) (ds_frsize d);
          used = (if whole = 0 then 0 else 100 - u64_mul available 100 div whole)
      in \<lparr> dh_size_bytes = ds_file_len d + ds_wal_len d, dh_disk_available_bytes = available,
           dh_watermark_exceeded = (pct \<le> used) \<rparr>)"

definition observe_watermark_latched ::
    "ext \<Rightarrow> string + disk_stat \<Rightarrow> u64 \<Rightarrow> bool \<Rightarrow> node \<Rightarrow> (task_error + db_health) \<times> bool \<times> node" where
  "observe_watermark_latched x stat pct exceeded s = (case stat of
     Inl e \<Rightarrow> (Inl (KText e), exceeded, s)
   | Inr d \<Rightarrow> (let h = observe_db_health d pct in
       if dh_watermark_exceeded h \<and> \<not> exceeded then
         (case record_event x ''disk_watermark_exceeded'' None
             (CHR ''{'' # [CHR 0x22] @ ''size_bytes'' @ [CHR 0x22] @ '':'' @ dec_nat (dh_size_bytes h) @ '','' @ [CHR 0x22] @
              ''disk_available_bytes'' @ [CHR 0x22] @ '':'' @ dec_nat (dh_disk_available_bytes h) @ '','' @ [CHR 0x22] @
              ''threshold_pct'' @ [CHR 0x22] @ '':'' @ dec_nat pct @ ''}'') s of
            (Inl e, s') \<Rightarrow> (Inl (KLedger e), exceeded, s')
          | (Inr _, s') \<Rightarrow> (Inr h, True, s'))
       else (Inr h, exceeded \<and> dh_watermark_exceeded h, s)))"

record retention_health =
  rh_days :: u64
  rh_last_purge_at :: "i64 option"
  rh_last_purged_rows :: u64

definition run_retention_once_with_latch ::
    "ext \<Rightarrow> string + disk_stat \<Rightarrow> nat \<Rightarrow> retention_config \<Rightarrow> bool \<Rightarrow> node \<Rightarrow>
     (task_error + db_health \<times> retention_health) \<times> bool \<times> node" where
  "run_retention_once_with_latch x stat elapsed c exceeded s = (case now_ms x s of
     (Inl e, s0) \<Rightarrow> (Inl e, exceeded, s0)
   | (Inr now, s0) \<Rightarrow>
       (case retention_purge x (saturating_sub now (saturating_mul (u64_as_i64 (rc_retention_days c)) DAY_MS))
           (saturating_sub now DEDUP_TTL_MS) (saturating_mul (u64_as_i64 (rc_quarantine_ttl_days c)) DAY_MS) elapsed s0 of
          (Inl e, s1) \<Rightarrow> (Inl e, exceeded, s1)
        | (Inr (purged_readings, purged_dedup), s1) \<Rightarrow>
            (case sightings_pass x now s1 of (purged_sightings, s2) \<Rightarrow>
              (case observe_watermark_latched x stat (rc_disk_high_watermark_pct c) exceeded s2 of
                 (Inl e, latch, s3) \<Rightarrow> (Inl e, latch, s3)
               | (Inr h, latch, s3) \<Rightarrow> (Inr (h, \<lparr> rh_days = rc_retention_days c, rh_last_purge_at = Some now,
                   rh_last_purged_rows = purged_readings + purged_dedup + purged_sightings \<rparr>), latch, s3)))))"

section \<open>Commands on the target\<close>

text \<open>\<^verbatim>\<open>mutate\<close>: a transaction that also counts a new generation.\<close>

definition mutate :: "ext \<Rightarrow> (node, task_error, 'a) act \<Rightarrow> (node, task_error, 'a) act" where
  "mutate x f = transaction x KSqlite (andThen f (\<lambda>v. andThen (mapErr KLedger (bump_generation x)) (\<lambda>_. ret v)))"

definition TARGET_ID :: string where "TARGET_ID = ''archive''"

text \<open>
  Registration: the owner check is an argument, and so is the probe of the endpoint between the two
  transactions.
\<close>

definition run_target_add ::
    "ext \<Rightarrow> (node, task_error, bool) act \<Rightarrow> (string \<Rightarrow> string \<Rightarrow> string + unit) \<Rightarrow> string \<Rightarrow> string \<Rightarrow> nat \<Rightarrow> (node, task_error, unit) act" where
  "run_target_add x owned smoke endpoint token version =
     andThen owned (\<lambda>is_owned.
     if \<not> is_owned then throw KNotOwned
     else if strip_prefix ''https://'' endpoint = None then throw (KText ''target endpoint must use https://'')
     else if version \<noteq> 1 then throw (KText ''target schema_version must be 1'')
     else andThen (mapErr KPublish (target_count x)) (\<lambda>n.
       if 0 < n then throw (KText ''target already registered'')
       else andThen (now_ms x) (\<lambda>now.
         andThen (mutate x (andThen (mapErr KPublish (target_insert x \<lparr> tr_target_id = TARGET_ID, tr_endpoint_url = endpoint,
             tr_credential_token = token, tr_archive_responsible = False, tr_schema_version = int version,
             tr_cursor_epoch = None, tr_cursor_pub_seq = 0 \<rparr> now)) (\<lambda>_.
           mapErr KLedger (record_event x ''target_added'' None (json_text x (JObj [(''endpoint'', JStr endpoint),
             (''schema_version'', json_int version), (''target_id'', JStr TARGET_ID)])))))) (\<lambda>_.
         andThen (mapErr KText (liftR (smoke endpoint token))) (\<lambda>_.
         mutate x (andThen (mapErr KPublish (target_set_archive_responsible x TARGET_ID True)) (\<lambda>_.
           mapErr KLedger (record_event x ''target_smoke_ok'' None TARGET_ID))))))))"

definition run_target_rotate_token ::
    "ext \<Rightarrow> (string \<Rightarrow> string \<Rightarrow> string + unit) \<Rightarrow> string \<Rightarrow> (node, task_error, unit) act" where
  "run_target_rotate_token x smoke new_token =
     andThen (mapErr KPublish (target_get x)) (\<lambda>target.
     andThen (require ''no target'' target) (\<lambda>g.
     if strip_prefix ''https://'' (tr_endpoint_url g) = None then throw (KText ''refusing to rotate token for a non-HTTPS endpoint'')
     else andThen (mutate x (mapErr KPublish (target_set_token x (tr_target_id g) new_token))) (\<lambda>_.
       case smoke (tr_endpoint_url g) new_token of
         Inr _ \<Rightarrow> ret ()
       | Inl e \<Rightarrow> andThen (mutate x (mapErr KPublish (target_set_token x (tr_target_id g) (tr_credential_token g)))) (\<lambda>_.
           throw (KText e)))))"

definition run_target_remove :: "ext \<Rightarrow> bool \<Rightarrow> (node, task_error, unit) act" where
  "run_target_remove x abandon = mutate x (
     andThen (mapErr KLedger (ledger_epoch x)) (\<lambda>ep.
     andThen (mapErr KPublish (target_get x)) (\<lambda>target.
     andThen (require ''no target'' target) (\<lambda>g.
     andThen (if abandon then ret False else mapErr KPublish (any_unacked_for_target x ep g)) (\<lambda>unacked.
     if unacked then throw (KText ''unacked custody rows remain; use --abandon-custody to force'')
     else andThen (mapErr KPublish (target_delete x (tr_target_id g))) (\<lambda>_.
       mapErr KLedger (record_event x (if abandon then ''target_removed_abandon_custody'' else ''target_removed'') None
         (json_text x (JObj [(''abandon_custody'', JBool abandon), (''target_id'', JStr (tr_target_id g))])))))))))"

section \<open>The undone replacement\<close>

record replace_event =
  re_at :: i64
  re_old_hw :: string

fun latest_replace_event :: "ext \<Rightarrow> string \<Rightarrow> event_entry list \<Rightarrow> task_error + replace_event option" where
  "latest_replace_event x hw [] = Inr None"
| "latest_replace_event x hw (e # es) = (case json_parse x (ev_detail e) of
     None \<Rightarrow> latest_replace_event x hw es
   | Some v \<Rightarrow>
       if json_as_str (json_get ''new_hw'' v) = Some hw then
         (case json_as_str (json_get ''old_hw'' v) of
            None \<Rightarrow> Inl (KText (''hardware_replaced event '' @ dec_int (ev_event_id e) @ '' is missing old_hw''))
          | Some old \<Rightarrow> Inr (Some \<lparr> re_at = ev_at e, re_old_hw = old \<rparr>))
       else latest_replace_event x hw es)"

definition latest_replace_event_for_current_hardware :: "ext \<Rightarrow> system_id \<Rightarrow> string \<Rightarrow> (node, task_error, replace_event) act" where
  "latest_replace_event_for_current_hardware x sid hw =
     andThen (mapErr KSqlite (select x (\<lambda>t. sort_key (\<lambda>e. - ev_event_id e) (filter (\<lambda>e. ev_kind e = ''hardware_replaced'' \<and>
       ev_system_id e = Some (as_bytes sid)) (ledger_events_t (ledger_t t)))))) (\<lambda>events.
     andThen (liftR (latest_replace_event x hw events)) (\<lambda>found.
     require (''no hardware_replaced event for '' @ to_text x sid @ '' with new_hw='' @ hw) found))"

text \<open>The part of the command inside its transaction, up to the number of readings it marked.\<close>

definition replace_undo_body ::
    "ext \<Rightarrow> system_id \<Rightarrow> string \<Rightarrow> i64 option \<Rightarrow> bool \<Rightarrow> (node, task_error, u64) act" where
  "replace_undo_body x sid old_hw since_arg abandon =
     andThen (mapErr KPublish (archive_target_registered x)) (\<lambda>registered.
     if registered \<and> \<not> abandon then throw (KText (''refused: replace-undo retroactively quarantines rows that may already be '' @
       ''enqueued for archive; re-run with --abandon-custody to force''))
     else andThen (mapErr KLedger (get_device x sid)) (\<lambda>dev.
       andThen (require (''non-retired device '' @ to_text x sid @ '' not found'')
         (case dev of None \<Rightarrow> None | Some d \<Rightarrow> if de_state d = Retired then None else Some d)) (\<lambda>current.
       andThen (latest_replace_event_for_current_hardware x sid (de_hardware_id current)) (\<lambda>ev.
       if re_old_hw ev \<noteq> old_hw then throw (KText (''old_hw mismatch for undo: latest hardware_replaced old_hw='' @ re_old_hw ev @
         '' but --old-hardware-id='' @ old_hw))
       else andThen (now_ms x) (\<lambda>to.
         let since = (case since_arg of None \<Rightarrow> re_at ev | Some n \<Rightarrow> n) in
         if to < since then throw (KText (''--since must not be in the future: '' @ dec_int since @ '' > '' @ dec_int to))
         else if since_arg \<noteq> None \<and> re_at ev < since then throw (KText (''--since '' @ dec_int since @
           '' is after the replace event at '' @ dec_int (re_at ev) @ ''; it would leave contaminated rows unmarked''))
         else andThen (mapErr KLedger (find_alive_by_hardware_id x old_hw)) (\<lambda>alive_dev.
           if (case alive_dev of None \<Rightarrow> False | Some d \<Rightarrow> de_system_id d \<noteq> sid) then throw (KLedger (HardwareIdInUse old_hw))
           else andThen (mapErr KLedger (ledger_sql x (update_device_rows (\<lambda>d. dv_system_id d = as_bytes sid \<and> alive d)
               (\<lambda>d. d\<lparr> dv_hardware_id := re_old_hw ev \<rparr>)))) (\<lambda>_.
             andThen (mapErr KLedger (list_series_for_device x sid)) (\<lambda>rows.
             let ids = map sr_series_id rows in
             andThen (mapErr KTimeseries (mark_readings_quarantined x ids since to)) (\<lambda>marked.
             andThen (mapErr KPublish (prune_outbox_for_quarantined_range x ids since to)) (\<lambda>_.
             andThen (mapErr KLedger (record_event x ''hardware_replace_undone'' (Some sid) (json_text x (JObj [
               (''abandon_custody'', JBool abandon), (''new_hw'', JStr (de_hardware_id current)), (''old_hw'', JStr (re_old_hw ev)),
               (''range'', JObj [(''from_received_ms'', JInt since), (''to_received_ms'', JInt to)]),
               (''rows'', json_int marked)])))) (\<lambda>_.
             ret marked)))))))))))"

definition run_replace_undo :: "ext \<Rightarrow> string \<Rightarrow> string \<Rightarrow> i64 option \<Rightarrow> bool \<Rightarrow> (node, task_error, u64) act" where
  "run_replace_undo x text old_hw since_arg abandon = andThen (mapErr KLedger (liftR (from_text x text))) (\<lambda>sid.
     mutate x (replace_undo_body x sid old_hw since_arg abandon))"

end
