(* ===== verification/Publish_Props.thy ===== *)
theory Publish_Props
  imports Publish
begin

text \<open>
  Properties of the publication store: the activation happens once and is idempotent, and a recovery
  turns the remaining log into a fresh contiguous stream.
\<close>

section \<open>Actions that keep a property of the tables\<close>

definition keeps :: "(tables \<Rightarrow> bool) \<Rightarrow> (node, 'e, 'a) act \<Rightarrow> bool" where
  "keeps I m \<longleftrightarrow> triple (\<lambda>s. I (tables s)) m (\<lambda>_ s. I (tables s)) (\<lambda>_ s. I (tables s))"

named_theorems keeps_intros \<open>actions that keep a property of the tables\<close>

lemma keepsD: "keeps I m \<Longrightarrow> I (tables s) \<Longrightarrow> I (tables (snd (m s)))"
  using triple_state [of "\<lambda>s. I (tables s)" m "\<lambda>_ s. I (tables s)" "\<lambda>_ s. I (tables s)" s] by (auto simp: keeps_def)

lemma keepsD': "keeps I m \<Longrightarrow> I (tables s) \<Longrightarrow> m s = (r, s') \<Longrightarrow> I (tables s')"
  using keepsD [of I m s] by simp

lemma keepsI: "(\<And>s r s'. I (tables s) \<Longrightarrow> m s = (r, s') \<Longrightarrow> I (tables s')) \<Longrightarrow> keeps I m"
  by (auto simp: keeps_def intro!: tripleI)

lemma keeps_ret [keeps_intros]: "keeps I (ret a)"
  by (auto simp: keeps_def intro: triple_ret)

lemma keeps_throw [keeps_intros]: "keeps I (throw e)"
  by (auto simp: keeps_def intro: triple_throw)

lemma keeps_liftR [keeps_intros]: "keeps I (liftR r)"
  by (auto simp: keeps_def intro: triple_liftR)

lemma keeps_mapErr [keeps_intros]: "keeps I m \<Longrightarrow> keeps I (mapErr g m)"
  by (auto simp: keeps_def intro: triple_mapErr)

lemma keeps_andThen [keeps_intros]: "keeps I m \<Longrightarrow> (\<And>a. keeps I (f a)) \<Longrightarrow> keeps I (andThen m f)"
  unfolding keeps_def by (rule triple_andThen_inv)

lemma keeps_forA [keeps_intros]: "(\<And>a. a \<in> set xs \<Longrightarrow> keeps I (f a)) \<Longrightarrow> keeps I (forA xs f)"
  unfolding keeps_def by (rule triple_forA)

lemma keeps_If [keeps_intros]: "(c \<Longrightarrow> keeps I m) \<Longrightarrow> (\<not> c \<Longrightarrow> keeps I n) \<Longrightarrow> keeps I (if c then m else n)"
  by simp

lemma keeps_Let [keeps_intros]: "(\<And>a. keeps I (f a)) \<Longrightarrow> keeps I (let a = b in f a)"
  by simp

lemma keeps_case_option [keeps_intros]:
  "(v = None \<Longrightarrow> keeps I m) \<Longrightarrow> (\<And>a. v = Some a \<Longrightarrow> keeps I (f a)) \<Longrightarrow> keeps I (case v of None \<Rightarrow> m | Some a \<Rightarrow> f a)"
  by (cases v) auto

lemma keeps_case_prod [keeps_intros]:
  "(\<And>a b. p = (a, b) \<Longrightarrow> keeps I (f a b)) \<Longrightarrow> keeps I (case p of (a, b) \<Rightarrow> f a b)"
  by (cases p) auto

lemma keeps_case_sum [keeps_intros]:
  "(\<And>a. v = Inl a \<Longrightarrow> keeps I (g a)) \<Longrightarrow> (\<And>b. v = Inr b \<Longrightarrow> keeps I (f b)) \<Longrightarrow>
   keeps I (case v of Inl a \<Rightarrow> g a | Inr b \<Rightarrow> f b)"
  by (cases v) auto

lemma keeps_sql: "(\<And>t a t'. I t \<Longrightarrow> f t = Inr (a, t') \<Longrightarrow> I t') \<Longrightarrow> keeps I (sql x f)"
  by (rule keepsI) (auto simp: sql_def Let_def split: if_splits sum.splits)

lemma keeps_select [keeps_intros]: "keeps I (select x f)"
  unfolding select_def by (rule keeps_sql) simp

lemma keeps_execute: "(\<And>t. I t \<Longrightarrow> I (snd (f t))) \<Longrightarrow> keeps I (execute x f)"
  unfolding execute_def by (rule keeps_sql) (metis old.sum.inject(2) snd_conv)

lemma keeps_now_ms [keeps_intros]: "keeps I (now_ms x)"
  by (rule keepsI) (auto simp: now_ms_def)

lemma keeps_now_v7 [keeps_intros]: "keeps I (now_v7 x)"
  by (rule keepsI) (auto simp: now_v7_def)

lemma keeps_transaction [keeps_intros]: "keeps I m \<Longrightarrow> keeps I (transaction x conv m)"
  using transaction_keeps [of "\<lambda>s. I (tables s)" m _ x conv] unfolding keeps_def
  by (intro tripleI) (metis snd_conv)+

lemma keeps_pub_select [keeps_intros]: "keeps I (pub_select x f)"
  unfolding pub_select_def by (intro keeps_intros)

lemma keeps_pub_sql:
  "(\<And>t a p. I t \<Longrightarrow> f (publish_t t) = Inr (a, p) \<Longrightarrow> I (t\<lparr> publish_t := p \<rparr>)) \<Longrightarrow> keeps I (pub_sql x f)"
  unfolding pub_sql_def by (intro keeps_mapErr keeps_sql) (auto split: sum.splits)

lemma keeps_ledger_sql:
  "(\<And>t a l. I t \<Longrightarrow> f (ledger_t t) = Inr (a, l) \<Longrightarrow> I (t\<lparr> ledger_t := l \<rparr>)) \<Longrightarrow> keeps I (ledger_sql x f)"
  unfolding ledger_sql_def by (intro keeps_mapErr keeps_sql) (auto split: sum.splits)

lemma keeps_ledger_select [keeps_intros]: "keeps I (ledger_select x f)"
  unfolding ledger_select_def by (rule keeps_ledger_sql) (auto split: sum.splits)

lemma keeps_load_edge_node_identity [keeps_intros]: "keeps I (load_edge_node_identity x)"
  unfolding load_edge_node_identity_def by (intro keeps_intros)

lemma keeps_activation_state [keeps_intros]:
  "keeps I (activation_state_of x)" "keeps I (publication_admitted x)" "keeps I (require_publication_admitted x)"
  unfolding activation_state_of_def publication_admitted_def require_publication_admitted_def by (intro keeps_intros)+

lemma keeps_target_queries [keeps_intros]:
  "keeps I (target_count x)" "keeps I (target_get x)" "keeps I (publication_allocation_sequence x)"
  unfolding target_count_def target_get_def publication_allocation_sequence_def by (intro keeps_intros)+

section \<open>Operations\<close>

text \<open>The operations of the store and of the activation that write, with their arguments.\<close>

datatype publish_op =
    EnqueueMeasurement string i64 i64
  | EnqueueAnnotation string string string i64
  | EnqueueSmoke string string i64
  | PruneReadings "i64 list"
  | PruneQuarantined "i64 list" i64 i64
  | PruneAcked string i64
  | TargetInsert target_row i64
  | TargetDelete string
  | SetToken string string
  | SetArchive string bool
  | AdvanceCursor string string i64
  | Rebuild string string i64 i64
  | InstallTarget target_row i64
  | Activate activation_request i64
  | Cleanup nat

fun publish_run :: "ext \<Rightarrow> activation_result decoder \<Rightarrow> publish_op \<Rightarrow> node \<Rightarrow> node" where
  "publish_run x dec (EnqueueMeasurement ep n now) s = snd (enqueue_measurement x ep n now s)"
| "publish_run x dec (EnqueueAnnotation ep sub payload now) s = snd (enqueue_annotation x ep sub payload now s)"
| "publish_run x dec (EnqueueSmoke ep i now) s = snd (enqueue_commissioning_smoke x ep i now s)"
| "publish_run x dec (PruneReadings seqs) s = snd (prune_outbox_by_reading_seqs x seqs s)"
| "publish_run x dec (PruneQuarantined ids since to) s = snd (prune_outbox_for_quarantined_range x ids since to s)"
| "publish_run x dec (PruneAcked ep n) s = snd (prune_acked_outbox x ep n s)"
| "publish_run x dec (TargetInsert r now) s = snd (target_insert x r now s)"
| "publish_run x dec (TargetDelete i) s = snd (target_delete x i s)"
| "publish_run x dec (SetToken i tok) s = snd (target_set_token x i tok s)"
| "publish_run x dec (SetArchive i on) s = snd (target_set_archive_responsible x i on s)"
| "publish_run x dec (AdvanceCursor i ep n) s = snd (target_advance_cursor x i ep n s)"
| "publish_run x dec (Rebuild old new n now) s = snd (transaction x PSqlite (rebuild_recovery_outbox x old new n now) s)"
| "publish_run x dec (InstallTarget r now) s = snd (install_edge_target x r now s)"
| "publish_run x dec (Activate r now) s = snd (apply_activation x dec r now s)"
| "publish_run x dec (Cleanup limit) s = snd (cleanup_pre_activation_batch x limit s)"

section \<open>The activation row\<close>

definition activated :: "ledger \<Rightarrow> string option \<Rightarrow> string option \<Rightarrow> tables \<Rightarrow> bool" where
  "activated l q v t \<longleftrightarrow> ac_state (activation_of t) = ''active'' \<and> ac_request_json (activation_of t) = q \<and>
     ac_result_json (activation_of t) = v \<and> ledger_t t = l"

text \<open>Writes to the log and to the targets leave the activation row alone.\<close>

definition same_activation :: "(publication_store \<Rightarrow> sqlite_error + 'a \<times> publication_store) \<Rightarrow> bool" where
  "same_activation f \<longleftrightarrow> (\<forall>p a p'. f p = Inr (a, p') \<longrightarrow> activation_t p' = activation_t p)"

lemma log_writes [simp]:
  "same_activation (insert_publication r)" "same_activation (delete_publications hit)" "same_activation (insert_target g)"
  "same_activation (update_targets ghit upd)"
  by (auto simp: same_activation_def insert_publication_def delete_publications_def insert_target_def update_targets_def Let_def
      split: if_splits)

lemma activated_pub_sql [keeps_intros]: "same_activation f \<Longrightarrow> keeps (activated l q v) (pub_sql x f)"
  by (rule keeps_pub_sql) (auto simp: activated_def same_activation_def)

lemma activated_enqueue:
  "keeps (activated l q v) (enqueue_measurement x ep n now)" "keeps (activated l q v) (enqueue_commissioning_smoke x ep i now)"
  "keeps (activated l q v) (enqueue_annotation x ep sub payload now)"
proof -
  show "keeps (activated l q v) (enqueue_measurement x ep n now)" "keeps (activated l q v) (enqueue_commissioning_smoke x ep i now)"
    unfolding enqueue_measurement_def enqueue_commissioning_smoke_def by (intro keeps_intros log_writes)+
  let ?ins = "pub_sql x (insert_publication (new_publication ep ''annotation'' (Some sub) None (Some payload) now))"
  have "keeps (activated l q v) ?ins" by (intro keeps_intros log_writes)
  then show "keeps (activated l q v) (enqueue_annotation x ep sub payload now)"
    unfolding enqueue_annotation_def
    by (intro keeps_andThen keeps_activation_state keepsI)
      (auto dest: keepsD' split: prod.splits sum.splits publish_error.splits if_splits)
qed

lemma activated_targets:
  "keeps (activated l q v) (target_insert x r now)" "keeps (activated l q v) (target_delete x i)"
  "keeps (activated l q v) (target_set_token x i tok)" "keeps (activated l q v) (target_set_archive_responsible x i on)"
  "keeps (activated l q v) (target_advance_cursor x i ep n)"
  unfolding target_insert_def target_delete_def target_set_token_def target_set_archive_responsible_def target_advance_cursor_def
  by (intro keeps_intros log_writes; simp add: same_activation_def)+

lemma activated_prunes:
  "keeps (activated l q v) (prune_outbox_by_reading_seqs x seqs)" "keeps (activated l q v) (prune_acked_outbox x ep n)"
  "keeps (activated l q v) (prune_outbox_for_quarantined_range x ids since to)"
proof -
  show "keeps (activated l q v) (prune_outbox_by_reading_seqs x seqs)" "keeps (activated l q v) (prune_acked_outbox x ep n)"
    unfolding prune_outbox_by_reading_seqs_def prune_acked_outbox_def by (intro keeps_intros log_writes)+
  show "keeps (activated l q v) (prune_outbox_for_quarantined_range x ids since to)"
    unfolding prune_outbox_for_quarantined_range_def
    by (intro keeps_If keeps_ret keeps_mapErr keeps_sql) (auto simp: delete_publications_def activated_def)
qed

lemma activated_rebuild: "keeps (activated l q v) (rebuild_recovery_outbox x old new n now)"
  unfolding rebuild_recovery_outbox_def rebuild_writes_def by (intro keeps_intros log_writes; simp add: same_activation_def)

text \<open>On an active node the other paths of the activation write nothing.\<close>

lemma activation_state_Inr:
  "activation_state_of x s = (Inr st, s') \<longleftrightarrow> \<not> sql_fault x (sql_step s) \<and> activation_from_db (ac_state (activation_of (tables s))) = Inr st \<and>
     s' = s\<lparr> sql_step := Suc (sql_step s) \<rparr>"
  by (auto simp: activation_state_of_def andThen_eq_Inr pub_select_def select_Inr liftR_def split: sum.splits)

lemma activated_install_body: "keeps (activated l q v) (install_target_body x r now)"
proof (rule keepsI)
  fix s y s' assume a: "activated l q v (tables s)" "install_target_body x r now s = (y, s')"
  have "keeps (\<lambda>t. t = tables s) (activation_state_of x)" by (intro keeps_intros)
  then have "tables (snd (activation_state_of x s)) = tables s" by (auto dest: keepsD)
  then show "activated l q v (tables s')" using a
    by (auto simp: install_target_body_def andThen_def activation_state_Inr activation_from_db_def activated_def throw_def
        split: prod.splits sum.splits if_splits)
qed

lemma activated_install: "keeps (activated l q v) (install_edge_target x r now)"
  unfolding install_edge_target_def by (intro keeps_If keeps_throw keeps_transaction activated_install_body)

lemma keeps_pub_select_then:
  assumes "\<And>t. I t \<Longrightarrow> keeps I (f (g t))"
  shows "keeps I (andThen (pub_select x g) f)"
proof (rule keepsI)
  fix s r s' assume a: "I (tables s)" "andThen (pub_select x g) f s = (r, s')"
  let ?s = "s\<lparr> sql_step := Suc (sql_step s) \<rparr>"
  have "tables s' = tables s \<or> f (g (tables s)) ?s = (r, s')" using a(2)
    by (auto simp: andThen_def pub_select_def mapErr_def select_def sql_def Let_def split: if_splits)
  then show "I (tables s')" using a(1) keepsD' [OF assms [OF a(1)], of ?s] by auto
qed

lemma andThen_liftR [simp]: "andThen (liftR (Inr a)) f = f a"
  by (simp add: andThen_def fun_eq_iff)

lemma activated_resume: "keeps (activated l q v) (resume_activation x dec r i now)"
  unfolding resume_activation_def
  by (rule keeps_pub_select_then) (auto simp: activated_def activation_from_db_def intro!: keeps_intros)

lemma activated_apply: "keeps (activated l q v) (apply_activation x dec r now)"
  unfolding apply_activation_def by (intro keeps_intros activated_resume)

lemma activated_cleanup: "keeps (activated l q v) (cleanup_pre_activation_batch x limit)"
proof -
  have set: "keeps (activated l q v) (pub_sql x (set_activation hit (\<lambda>a. a\<lparr> ac_cleanup_through := n \<rparr>)))" for hit n
    by (rule keeps_pub_sql) (auto simp: set_activation_def activated_def)
  have del: "keeps (activated l q v) (execute x (\<lambda>t. (c t, set_readings f t)))" for c f
    by (rule keeps_execute) (simp add: set_readings_def activated_def)
  show ?thesis unfolding cleanup_pre_activation_batch_def
    by (intro keeps_intros set del keeps_sql) (auto simp: Let_def split: if_splits option.splits)
qed

lemma activated_run: "activated l q v (tables s) \<Longrightarrow> activated l q v (tables (publish_run x dec op s))"
proof (cases op)
  case (Rebuild old new n now)
  then show "activated l q v (tables s) \<Longrightarrow> ?thesis" using keepsD [OF keeps_transaction [OF activated_rebuild]] by simp
qed (auto intro!: keepsD activated_enqueue activated_targets activated_prunes activated_install activated_apply activated_cleanup)

interpretation activation_runs: invariant_system "publish_run x dec" "\<lambda>s. activated l q v (tables s)" for x dec l q v
  by unfold_locales (rule activated_run)

section \<open>Activation\<close>

definition identity_in :: "ledger \<Rightarrow> string \<Rightarrow> string \<Rightarrow> bool" where
  "identity_in l i ep \<longleftrightarrow> meta_value ''gateway_identity'' l = None \<and> meta_value ''edge_node_id'' l = Some i \<and>
     meta_value ''epoch'' l = Some ep"

lemma ledger_read_Inr:
  "ledger_select x f s = (Inr a, s') \<longleftrightarrow> \<not> sql_fault x (sql_step s) \<and> f (ledger_t (tables s)) = Inr a \<and>
     s' = s\<lparr> sql_step := Suc (sql_step s) \<rparr>"
  by (auto simp: ledger_select_def ledger_sql_def sql_Inr split: sum.splits)

lemma identity_loaded:
  assumes "load_edge_node_identity x s = (Inr i, s')"
  shows "identity_in (ledger_t (tables s)) (ei_edge_node_id i) (ei_ledger_epoch i)" "tables s' = tables s"
  using assms by (auto simp: load_edge_node_identity_def andThen_eq_Inr ledger_read_Inr identity_in_def ret_def throw_def
      split: if_splits option.splits)

lemma ledger_select_ok:
  "\<not> sql_fault x (sql_step s) \<Longrightarrow> f (ledger_t (tables s)) = Inr a \<Longrightarrow>
   ledger_select x f s = (Inr a, s\<lparr> sql_step := Suc (sql_step s) \<rparr>)"
  by (simp add: ledger_read_Inr)

lemma load_identity:
  assumes "\<And>n. \<not> sql_fault x n" "identity_in (ledger_t (tables s)) i ep"
  shows "\<exists>s'. load_edge_node_identity x s = (Inr \<lparr> ei_edge_node_id = i, ei_ledger_epoch = ep \<rparr>, s') \<and> tables s' = tables s"
  using assms by (simp add: load_edge_node_identity_def identity_in_def andThen_def ledger_select_ok ret_def)

text \<open>What a successful activation has stored.\<close>

definition first_result :: "activation_request \<Rightarrow> i64 \<Rightarrow> i64 \<Rightarrow> activation_result" where
  "first_result r discard now = \<lparr> rs_schema_version = ACTIVATION_SCHEMA_VERSION, rs_activation_id = rq_activation_id r,
     rs_edge_id = rq_edge_id r, rs_edge_node_id = rq_edge_node_id r, rs_ledger_epoch = rq_expected_ledger_epoch r, rs_status = ''applied'',
     rs_discard_through_reading_seq = discard, rs_first_publication_seq = 1, rs_applied_at = now \<rparr>"

lemma first_activation_Inr:
  assumes "first_activation x r i now s = (Inr result, s')" "ac_state (activation_of (tables s)) = ''discovery_only''"
    and "ei_edge_node_id i = rq_edge_node_id r" "ei_ledger_epoch i = rq_expected_ledger_epoch r"
  shows "result = first_result r (max_reading_seq (tables s)) now"
    and "log_rows (tables s) = []" "publication_autoinc (publish_t (tables s)) = 0"
    and "tables s' = (tables s)\<lparr> publish_t := (publish_t (tables s))\<lparr> activation_t :=
      activation_applied x r result now (activation_of (tables s)) \<rparr> \<rparr>"
  using assms by (auto simp: first_activation_def andThen_eq_Inr pub_select_eq pub_sql_eq target_count_def
      publication_allocation_sequence_def set_activation_def first_result_def ret_def throw_def Let_def split: if_splits)

lemma valid_first_result:
  assumes "validate_request r = Inr ()" "0 \<le> discard" "0 \<le> now"
  shows "validate_result (first_result r discard now) = Inr ()"
  using assms by (auto simp: validate_request_def validate_result_def first_result_def refuse_if_def validate_identity_def
      split: sum.splits if_splits)

text \<open>The two ways in which the activation succeeds.\<close>

lemma apply_activation_cases:
  assumes "apply_activation x dec r now s = (Inr result, s')"
  obtains (again) v where "validate_request r = Inr ()" "identity_in (ledger_t (tables s)) (rq_edge_node_id r) (rq_expected_ledger_epoch r)"
      "activated (ledger_t (tables s)) (Some (json_text x (activation_request_json r))) (Some v) (tables s)"
      "decode_result dec v = Inr result" "tables s' = tables s"
  | (first) "validate_request r = Inr ()" "0 \<le> now" "identity_in (ledger_t (tables s)) (rq_edge_node_id r) (rq_expected_ledger_epoch r)"
      "ac_state (activation_of (tables s)) = ''discovery_only''" "result = first_result r (max_reading_seq (tables s)) now"
      "log_rows (tables s) = []" "publication_autoinc (publish_t (tables s)) = 0"
      "tables s' = (tables s)\<lparr> publish_t := (publish_t (tables s))\<lparr> activation_t :=
        activation_applied x r result now (activation_of (tables s)) \<rparr> \<rparr>"
proof -
  have valid: "validate_request r = Inr ()" "0 \<le> now"
    using assms by (auto simp: apply_activation_def andThen_eq_Inr throw_def split: if_splits)
  obtain s1 s2 where s12: "tables s1 = tables s" "tables s' = tables s2"
      and body: "andThen (mapErr PLedger (load_edge_node_identity x)) (\<lambda>identity.
       if rq_edge_node_id r \<noteq> ei_edge_node_id identity
       then throw (PInvalid ''activation request edge_node_id does not match this Edge Node'')
       else if rq_expected_ledger_epoch r \<noteq> ei_ledger_epoch identity
       then throw (PInvalid ''activation request ledger epoch does not match this Edge Node'')
       else resume_activation x dec r identity now) s1 = (Inr result, s2)"
    using assms valid by (auto simp: apply_activation_def elim!: transaction_commit)
  then obtain i t where i: "load_edge_node_identity x s1 = (Inr i, t)"
      "ei_edge_node_id i = rq_edge_node_id r" "ei_ledger_epoch i = rq_expected_ledger_epoch r"
      and rest: "resume_activation x dec r i now t = (Inr result, s2)"
    by (auto simp: andThen_eq_Inr throw_def split: if_splits)
  have id: "identity_in (ledger_t (tables s)) (rq_edge_node_id r) (rq_expected_ledger_epoch r)" "tables t = tables s"
    using identity_loaded [OF i(1)] i(2,3) s12(1) by auto
  consider "ac_state (activation_of (tables s)) = ''active''" | "ac_state (activation_of (tables s)) = ''discovery_only''"
    using rest id(2) by (auto simp: resume_activation_def andThen_eq_Inr pub_select_eq activation_from_db_def throw_def split: if_splits)
  then show thesis
  proof cases
    case 1
    then show thesis using rest id s12 valid
      by (intro again [of "the (ac_result_json (activation_of (tables s)))"])
        (auto simp: resume_activation_def andThen_eq_Inr pub_select_eq activation_from_db_def activated_def throw_def split: if_splits option.splits)
  next
    case 2
    then have "first_activation x r i now (t\<lparr> sql_step := Suc (sql_step t) \<rparr>) = (Inr result, s2)"
      using rest id(2) by (auto simp: resume_activation_def andThen_eq_Inr pub_select_eq activation_from_db_def)
    from first_activation_Inr [OF this _ i(2,3)] show thesis using 2 id s12 valid by (intro first) auto
  qed
qed

section \<open>The publication stream\<close>

text \<open>
  The numbers of the log increase and stay below the allocation mark, and a node that waits for its
  activation has allocated none.
\<close>

definition stream_ok :: "tables \<Rightarrow> bool" where
  "stream_ok t \<longleftrightarrow> sorted_wrt (<) (map pb_pub_seq (log_rows t)) \<and>
     (\<forall>r\<in>set (log_rows t). 0 < pb_pub_seq r \<and> pb_pub_seq r \<le> publication_autoinc (publish_t t)) \<and>
     0 \<le> publication_autoinc (publish_t t) \<and>
     (ac_state (activation_of t) = ''discovery_only'' \<longrightarrow> log_rows t = [] \<and> publication_autoinc (publish_t t) = 0)"

lemma stream_insert:
  assumes "stream_ok t" "insert_publication r (publish_t t) = Inr (n, p)" "ac_state (activation_of t) \<noteq> ''discovery_only''"
  shows "stream_ok (t\<lparr> publish_t := p \<rparr>)"
  using assms by (force simp: stream_ok_def insert_publication_def Let_def sorted_wrt_append split: if_splits)

lemma stream_delete:
  assumes "stream_ok t" shows "stream_ok (t\<lparr> publish_t := (publish_t t)\<lparr> publication_log_t := filter f (log_rows t) \<rparr> \<rparr>)"
  using assms by (auto simp: stream_ok_def sorted_wrt_map intro: sorted_wrt_filter)

lemma stream_targets [keeps_intros]: "keeps stream_ok (pub_sql x (update_targets hit upd))" "keeps stream_ok (pub_sql x (insert_target g))"
  by (rule keeps_pub_sql, auto simp: update_targets_def insert_target_def stream_ok_def split: if_splits)+

lemma stream_delete_sql [keeps_intros]: "keeps stream_ok (pub_sql x (delete_publications hit))"
  by (rule keeps_pub_sql) (auto simp: delete_publications_def intro: stream_delete)

text \<open>An admitted insertion.\<close>

lemma admitted_Inr:
  assumes "require_publication_admitted x s = (Inr u, s')"
  shows "ac_state (activation_of (tables s)) \<noteq> ''discovery_only''" "tables s' = tables s"
  using assms by (auto simp: require_publication_admitted_def publication_admitted_def andThen_eq_Inr activation_state_Inr ret_def throw_def
      activation_from_db_def split: if_splits)

lemma admitted_Inl: "require_publication_admitted x s = (Inl e, s') \<Longrightarrow> tables s' = tables s"
  using keepsD' [OF keeps_activation_state(3), of "\<lambda>t. t = tables s" s x "Inl e" s'] by simp

lemma stream_admitted:
  assumes "\<And>s r s'. ac_state (activation_of (tables s)) \<noteq> ''discovery_only'' \<Longrightarrow> stream_ok (tables s) \<Longrightarrow> f () s = (r, s') \<Longrightarrow> stream_ok (tables s')"
  shows "keeps stream_ok (andThen (require_publication_admitted x) f)"
proof (rule keepsI)
  fix s r s' assume a: "stream_ok (tables s)" "andThen (require_publication_admitted x) f s = (r, s')"
  obtain v s1 where v: "require_publication_admitted x s = (v, s1)" by fastforce
  show "stream_ok (tables s')"
  proof (cases v)
    case (Inl e)
    then show ?thesis using a v admitted_Inl [of x s e s1] by (auto simp: andThen_def)
  next
    case (Inr u)
    then have "f () s1 = (r, s')" using a v by (simp add: andThen_def)
    then show ?thesis using a(1) assms [of s1 r s'] admitted_Inr [of x s u s1] v Inr by simp
  qed
qed

lemma stream_insert_sql:
  assumes "ac_state (activation_of (tables s)) \<noteq> ''discovery_only''" "stream_ok (tables s)" "pub_sql x (insert_publication r) s = (v, s')"
  shows "stream_ok (tables s')" "activation_of (tables s') = activation_of (tables s)"
  using assms by (auto simp: pub_sql_def mapErr_def sql_def Let_def split: if_splits sum.splits prod.splits intro: stream_insert)
    (auto simp: insert_publication_def Let_def split: if_splits)

lemma stream_enqueue:
  "keeps stream_ok (enqueue_measurement x ep n now)" "keeps stream_ok (enqueue_annotation x ep sub payload now)"
  "keeps stream_ok (enqueue_commissioning_smoke x ep i now)"
proof -
  show "keeps stream_ok (enqueue_measurement x ep n now)" unfolding enqueue_measurement_def
    by (rule stream_admitted) (rule stream_insert_sql(1))
  show "keeps stream_ok (enqueue_annotation x ep sub payload now)" unfolding enqueue_annotation_def
    by (rule stream_admitted) (auto dest: stream_insert_sql(1) split: prod.splits sum.splits publish_error.splits if_splits)
  show "keeps stream_ok (enqueue_commissioning_smoke x ep i now)" unfolding enqueue_commissioning_smoke_def
    by (intro keeps_andThen keeps_liftR stream_admitted) (rule stream_insert_sql(1))
qed

text \<open>The rebuilt log: inserting rows one by one into an empty log numbers them from one.\<close>

definition numbered :: "i64 \<Rightarrow> publication_entry list \<Rightarrow> publication_entry list" where
  "numbered n rows = map (\<lambda>(i, r). r\<lparr> pb_pub_seq := n + int i + 1 \<rparr>) (enumerate 0 rows)"

lemma numbered_Cons: "numbered n (r # rows) = r\<lparr> pb_pub_seq := n + 1 \<rparr> # numbered (n + 1) rows"
  by (simp add: numbered_def enumerate_Suc_eq [of 0] enumerate_map_upt comp_def case_prod_unfold algebra_simps)

lemma numbered_Nil [simp]: "numbered n [] = []"
  by (simp add: numbered_def)

lemma length_numbered [simp]: "length (numbered n rows) = length rows"
  by (simp add: numbered_def)

lemma numbered_seqs: "map pb_pub_seq (numbered n rows) = map (\<lambda>i. n + int i + 1) [0..<length rows]"
  by (induction rows arbitrary: n) (simp_all add: numbered_Cons map_upt_Suc algebra_simps del: upt_Suc)

lemma numbered_sorted: "sorted_wrt (<) (map pb_pub_seq (numbered n rows))"
  unfolding numbered_seqs by (simp add: sorted_wrt_iff_nth_less)

lemma numbered_bounds: "r \<in> set (numbered n rows) \<Longrightarrow> n < pb_pub_seq r \<and> pb_pub_seq r \<le> n + int (length rows)"
proof -
  assume "r \<in> set (numbered n rows)"
  then have "pb_pub_seq r \<in> set (map pb_pub_seq (numbered n rows))" by simp
  then show ?thesis unfolding numbered_seqs by auto
qed

definition with_log :: "publication_entry list \<Rightarrow> i64 \<Rightarrow> tables \<Rightarrow> tables" where
  "with_log rows n t = t\<lparr> publish_t := (publish_t t)\<lparr> publication_log_t := rows, publication_autoinc := n \<rparr> \<rparr>"

lemma insert_publication_Inr:
  assumes "insert_publication r p = Inr (n, p')"
  shows "n = publication_autoinc p + 1 \<and> p' = p\<lparr> publication_log_t := publication_log_t p @ [r\<lparr> pb_pub_seq := n \<rparr>], publication_autoinc := n \<rparr>"
  using assms by (auto simp: insert_publication_def Let_def split: if_splits)

lemma rebuild_inserts:
  assumes "forA rows (\<lambda>r. pub_sql x (insert_publication (r\<lparr> pb_epoch := ep \<rparr>))) s = (Inr us, s')"
  shows "tables s' = with_log (log_rows (tables s) @ numbered (publication_autoinc (publish_t (tables s))) (map (\<lambda>r. r\<lparr> pb_epoch := ep \<rparr>) rows))
    (publication_autoinc (publish_t (tables s)) + int (length rows)) (tables s)"
  using assms
proof (induction rows arbitrary: s us)
  case Nil
  then show ?case by (simp add: with_log_def ret_def)
next
  case (Cons r rows)
  let ?n = "publication_autoinc (publish_t (tables s))"
  from Cons.prems obtain n s1 us' where ins: "pub_sql x (insert_publication (r\<lparr> pb_epoch := ep \<rparr>)) s = (Inr n, s1)"
      and s1: "forA rows (\<lambda>r. pub_sql x (insert_publication (r\<lparr> pb_epoch := ep \<rparr>))) s1 = (Inr us', s')"
    unfolding forA.simps by (auto simp add: andThen_eq_Inr ret_def simp del: forA.simps)
  have one: "tables s1 = with_log (log_rows (tables s) @ [r\<lparr> pb_epoch := ep, pb_pub_seq := ?n + 1 \<rparr>]) (?n + 1) (tables s)"
    using ins by (auto simp: pub_sql_eq with_log_def dest!: insert_publication_Inr)
  show ?case using Cons.IH [OF s1] one by (simp add: with_log_def numbered_Cons algebra_simps)
qed

definition carried_over :: "i64 \<Rightarrow> publication_entry list \<Rightarrow> publication_entry list" where
  "carried_over n rows = filter (\<lambda>r. n < pb_pub_seq r \<and> \<not> (pb_kind r = ''annotation'' \<and> pb_subtype r = Some ''epoch_start'')) rows"

definition epoch_start_row :: "ext \<Rightarrow> string \<Rightarrow> string \<Rightarrow> i64 \<Rightarrow> publication_entry" where
  "epoch_start_row x old new now = new_publication new ''annotation'' (Some ''epoch_start'') None
     (Some (json_text x (JObj [(''prior_epoch'', JStr old)]))) now"

lemma carried_sorted:
  assumes "stream_ok t" "\<forall>r\<in>set (log_rows t). pb_epoch r = ep"
  shows "carried_rows ep n (log_rows t) = carried_over n (log_rows t)"
proof -
  have eq: "filter (\<lambda>r. after_cursor ep n r \<and> \<not> (pb_kind r = ''annotation'' \<and> pb_subtype r = Some ''epoch_start'')) (log_rows t) =
      carried_over n (log_rows t)" unfolding carried_over_def using assms(2) by (intro filter_cong) (auto simp: after_cursor_def)
  have "sorted (map pb_pub_seq (carried_over n (log_rows t)))"
    using assms(1) by (auto simp: stream_ok_def carried_over_def sorted_wrt_map intro!: sorted_wrt_filter elim: sorted_wrt_mono_rel [rotated])
  then show ?thesis unfolding carried_rows_def eq by (simp add: sort_key_id_if_sorted)
qed

definition rewound :: "string \<Rightarrow> target_entry \<Rightarrow> target_entry" where
  "rewound ep g = g\<lparr> tg_cursor_epoch := Some ep, tg_cursor_pub_seq := 0 \<rparr>"

definition rebuilt :: "ext \<Rightarrow> string \<Rightarrow> string \<Rightarrow> i64 \<Rightarrow> publication_entry list \<Rightarrow> publication_entry list" where
  "rebuilt x old new now carried = numbered 0 (epoch_start_row x old new now # map (\<lambda>p. p\<lparr> pb_epoch := new \<rparr>) carried)"

lemma target_from_row_simps [simp]:
  "tr_target_id (target_from_row g) = tg_target_id g" "tr_cursor_epoch (target_from_row g) = tg_cursor_epoch g"
  "tr_cursor_pub_seq (target_from_row g) = tg_cursor_pub_seq g" "tr_archive_responsible (target_from_row g) = tg_archive_responsible g"
  "tr_endpoint_url (target_from_row g) = tg_endpoint_url g" "tr_credential_token (target_from_row g) = tg_credential_token g"
  by (simp_all add: target_from_row_def)

lemma rebuild_writes_Inr:
  assumes "rebuild_writes x old new now (target_from_row g) carried s = (Inr r, s')" "target_rows (tables s) = [g]"
  shows "tables s' = (tables s)\<lparr> publish_t := (publish_t (tables s))\<lparr> publication_log_t := rebuilt x old new now carried,
      publication_autoinc := int (length carried) + 1, target_registry_t := [rewound new g] \<rparr> \<rparr> \<and>
    r = \<lparr> rr_replayed_records = int (length carried), rr_last_new_publication_seq = int (length carried) + 1 \<rparr>"
proof -
  let ?hit = "\<lambda>q. tg_target_id q = tr_target_id (target_from_row g) \<and> tg_cursor_epoch q = Some old \<and>
      tg_cursor_pub_seq q = tr_cursor_pub_seq (target_from_row g)"
  let ?upd = "\<lambda>q. q\<lparr> tg_cursor_epoch := Some new, tg_cursor_pub_seq := 0 \<rparr>"
  obtain s1 s2 s3 us c where s1: "tables s1 = with_log [(epoch_start_row x old new now)\<lparr> pb_pub_seq := 1 \<rparr>] 1 (tables s)"
      and loop: "forA carried (\<lambda>r. pub_sql x (insert_publication (r\<lparr> pb_epoch := new \<rparr>))) s1 = (Inr us, s2)"
      and upd: "pub_sql x (update_targets ?hit ?upd) s2 = (Inr c, s3)"
      and fin: "(if c \<noteq> 1 then throw (PInvalid ''recovery target cursor changed'') else ret \<lparr> rr_replayed_records = int (length carried),
        rr_last_new_publication_seq = int (length carried) + 1 \<rparr>) s3 = (Inr r, s')"
    using assms(1) unfolding rebuild_writes_def
    apply (elim andThen_InrE)
    apply (rule that [rotated], assumption, assumption, assumption)
    apply (auto simp: pub_sql_eq with_log_def epoch_start_row_def dest!: insert_publication_Inr)
    done
  have fin': "s' = s3" "c = 1" "r = \<lparr> rr_replayed_records = int (length carried), rr_last_new_publication_seq = int (length carried) + 1 \<rparr>"
    using fin by (auto simp: ret_def throw_def split: if_splits)
  have s2: "tables s2 = with_log (rebuilt x old new now carried) (int (length carried) + 1) (tables s)"
    using rebuild_inserts [OF loop] s1 by (simp add: with_log_def rebuilt_def numbered_Cons algebra_simps)
  have g: "target_rows (tables s2) = [g]" using s2 assms(2) by (simp add: with_log_def)
  obtain p where p: "update_targets ?hit ?upd (publish_t (tables s2)) = Inr (c, p)" "tables s3 = (tables s2)\<lparr> publish_t := p \<rparr>"
    using upd unfolding pub_sql_eq by (elim conjE exE) (rule that, assumption, simp)
  have "p = (publish_t (tables s2))\<lparr> target_registry_t := [rewound new g] \<rparr>"
    using p(1) fin'(2) unfolding update_targets_def g by (auto simp: rewound_def split: if_splits)
  then show ?thesis using s2 fin'(1,3) p(2) by (simp add: with_log_def)
qed

lemma rebuild_Inr:
  assumes "rebuild_recovery_outbox x old new accepted now s = (Inr r, s')" "stream_ok (tables s)"
  defines "carried \<equiv> carried_over accepted (log_rows (tables s))"
  obtains g where "target_rows (tables s) = [g]" "tg_cursor_epoch g = Some old" "tg_cursor_pub_seq g \<le> accepted"
    "\<forall>p\<in>set (log_rows (tables s)). pb_epoch p = old"
    "tables s' = (tables s)\<lparr> publish_t := (publish_t (tables s))\<lparr> publication_log_t := rebuilt x old new now carried,
      publication_autoinc := int (length carried) + 1, target_registry_t := [rewound new g] \<rparr> \<rparr>"
    "r = \<lparr> rr_replayed_records = int (length carried), rr_last_new_publication_seq = int (length carried) + 1 \<rparr>"
proof -
  let ?s = "s\<lparr> sql_step := Suc (Suc (Suc (Suc (sql_step s)))) \<rparr>"
  obtain g where g: "target_rows (tables s) = [g]" and g': "tg_cursor_epoch g = Some old" "tg_cursor_pub_seq g \<le> accepted"
      and ep: "\<forall>p\<in>set (log_rows (tables s)). pb_epoch p = old"
      and rest: "rebuild_writes x old new now (target_from_row g) (carried_rows old accepted (log_rows (tables s))) ?s = (Inr r, s')"
    using assms(1) unfolding rebuild_recovery_outbox_def
    by (auto simp: andThen_eq_Inr pub_select_eq target_count_def throw_def first_target_def filter_empty_conv
        length_Suc_conv split: if_splits option.splits list.splits)
  from rebuild_writes_Inr [OF rest] g carried_sorted [OF assms(2) ep, of accepted]
  have "tables s' = (tables s)\<lparr> publish_t := (publish_t (tables s))\<lparr> publication_log_t := rebuilt x old new now carried,
      publication_autoinc := int (length carried) + 1, target_registry_t := [rewound new g] \<rparr> \<rparr>"
    "r = \<lparr> rr_replayed_records = int (length carried), rr_last_new_publication_seq = int (length carried) + 1 \<rparr>"
    by (simp_all add: carried_def)
  from that [OF g g' ep this] show thesis .
qed

text \<open>The rebuild succeeds when its target is in place and the annotations of the log are unique.\<close>

definition annotations_unique :: "publication_entry list \<Rightarrow> bool" where
  "annotations_unique rows \<longleftrightarrow> sorted_wrt (\<lambda>r q. \<not> same_annotation q r) rows"

lemma same_annotation_epoch:
  "same_annotation (r\<lparr> pb_epoch := ep \<rparr>) (q\<lparr> pb_epoch := ep, pb_pub_seq := n \<rparr>) \<longleftrightarrow> same_annotation (r\<lparr> pb_epoch := e \<rparr>) (q\<lparr> pb_epoch := e \<rparr>)"
  by (simp add: same_annotation_def)

lemma inserts_total:
  assumes "\<And>n. \<not> sql_fault x n" "\<forall>r\<in>set rows. \<forall>q\<in>set (log_rows (tables s)). \<not> same_annotation (r\<lparr> pb_epoch := ep \<rparr>) q"
    and "sorted_wrt (\<lambda>r q. \<not> same_annotation (q\<lparr> pb_epoch := ep \<rparr>) (r\<lparr> pb_epoch := ep \<rparr>)) rows"
  shows "\<exists>us s'. forA rows (\<lambda>r. pub_sql x (insert_publication (r\<lparr> pb_epoch := ep \<rparr>))) s = (Inr us, s')"
  using assms(2,3)
proof (induction rows arbitrary: s)
  case Nil
  then show ?case by (simp add: ret_def)
next
  case (Cons r rows)
  let ?n = "publication_autoinc (publish_t (tables s)) + 1"
  let ?p = "(publish_t (tables s))\<lparr> publication_autoinc := ?n, publication_log_t := log_rows (tables s) @ [r\<lparr> pb_epoch := ep, pb_pub_seq := ?n \<rparr>] \<rparr>"
  let ?s = "s\<lparr> sql_step := Suc (sql_step s), tables := (tables s)\<lparr> publish_t := ?p \<rparr> \<rparr>"
  have "\<not> list_ex (same_annotation (r\<lparr> pb_epoch := ep \<rparr>)) (log_rows (tables s))" using Cons.prems(1) by (auto simp: list_ex_iff)
  then have one: "pub_sql x (insert_publication (r\<lparr> pb_epoch := ep \<rparr>)) s = (Inr ?n, ?s)"
    using assms(1) by (simp add: pub_sql_eq insert_publication_def Let_def)
  have "\<forall>q\<in>set rows. \<forall>w\<in>set (log_rows (tables ?s)). \<not> same_annotation (q\<lparr> pb_epoch := ep \<rparr>) w"
    using Cons.prems by (auto simp: same_annotation_def)
  then obtain us s' where "forA rows (\<lambda>r. pub_sql x (insert_publication (r\<lparr> pb_epoch := ep \<rparr>))) ?s = (Inr us, s')"
    using Cons.IH [of ?s] Cons.prems(2) by (metis (no_types, lifting) sorted_wrt.simps(2))
  then show ?case using one by (simp add: andThen_def ret_def)
qed

lemma rebuild_writes_total:
  assumes "\<And>n. \<not> sql_fault x n" "target_rows (tables s) = [g]" "tg_cursor_epoch g = Some old"
    and "annotations_unique carried" "\<forall>r\<in>set carried. pb_epoch r = old \<and> \<not> (pb_kind r = ''annotation'' \<and> pb_subtype r = Some ''epoch_start'')"
  shows "\<not> isl (fst (rebuild_writes x old new now (target_from_row g) carried s))"
proof -
  let ?s1 = "s\<lparr> sql_step := Suc (Suc (Suc (sql_step s))), tables := with_log [(epoch_start_row x old new now)\<lparr> pb_pub_seq := 1 \<rparr>] 1 (tables s) \<rparr>"
  have sorted: "sorted_wrt (\<lambda>r q. \<not> same_annotation (q\<lparr> pb_epoch := new \<rparr>) (r\<lparr> pb_epoch := new \<rparr>)) carried"
  proof (rule sorted_wrt_mono_rel [OF _ assms(4) [unfolded annotations_unique_def]])
    show "\<not> same_annotation (q\<lparr> pb_epoch := new \<rparr>) (r\<lparr> pb_epoch := new \<rparr>)"
      if "r \<in> set carried" "q \<in> set carried" "\<not> same_annotation q r" for r q
      using that assms(5) by (auto simp: same_annotation_def)
  qed
  have "\<forall>r\<in>set carried. \<forall>q\<in>set (log_rows (tables ?s1)). \<not> same_annotation (r\<lparr> pb_epoch := new \<rparr>) q"
    using assms(5) by (auto simp: with_log_def same_annotation_def epoch_start_row_def new_publication_def)
  from inserts_total [OF assms(1) this sorted]
  obtain us s2 where loop: "forA carried (\<lambda>r. pub_sql x (insert_publication (r\<lparr> pb_epoch := new \<rparr>))) ?s1 = (Inr us, s2)" by blast
  have "target_rows (tables s2) = [g]" using rebuild_inserts [OF loop] assms(2) by (simp add: with_log_def)
  then obtain s3 where upd: "pub_sql x (update_targets (\<lambda>q. tg_target_id q = tr_target_id (target_from_row g) \<and> tg_cursor_epoch q = Some old \<and>
      tg_cursor_pub_seq q = tr_cursor_pub_seq (target_from_row g)) (\<lambda>q. q\<lparr> tg_cursor_epoch := Some new, tg_cursor_pub_seq := 0 \<rparr>)) s2 =
      (Inr 1, s3)" using assms(1,3) by (simp add: pub_sql_eq update_targets_def)
  let ?a = "s\<lparr> sql_step := Suc (sql_step s), tables := (tables s)\<lparr> publish_t := (publish_t (tables s))\<lparr> publication_log_t := [] \<rparr> \<rparr> \<rparr>"
  let ?b = "?a\<lparr> sql_step := Suc (Suc (sql_step s)), tables := with_log [] 0 (tables s) \<rparr>"
  have a: "pub_sql x (\<lambda>p. Inr ((), p\<lparr> publication_log_t := [] \<rparr>)) s = (Inr (), ?a)" using assms(1) by (simp add: pub_sql_eq)
  have b: "pub_sql x (\<lambda>p. Inr ((), p\<lparr> publication_autoinc := 0 \<rparr>)) ?a = (Inr (), ?b)" using assms(1) by (simp add: pub_sql_eq with_log_def)
  have c: "pub_sql x (insert_publication (epoch_start_row x old new now)) ?b = (Inr 1, ?s1)"
    using assms(1) by (simp add: pub_sql_eq insert_publication_def with_log_def Let_def)
  show ?thesis unfolding rebuild_writes_def epoch_start_row_def [symmetric]
    by (simp only: andThen_def a b c loop upd prod.case sum.case) (simp add: ret_def)
qed

lemma stream_with:
  "stream_ok t \<Longrightarrow> stream_ok (t\<lparr> publish_t := (publish_t t)\<lparr> target_registry_t := gs \<rparr> \<rparr>)"
  by (simp add: stream_ok_def)

lemma stream_rebuilt:
  assumes "ac_state (activation_of t) \<noteq> ''discovery_only''"
  shows "stream_ok (t\<lparr> publish_t := (publish_t t)\<lparr> publication_log_t := rebuilt x old new now carried,
      publication_autoinc := int (length carried) + 1, target_registry_t := gs \<rparr> \<rparr>)"
  using assms numbered_sorted [of 0] numbered_bounds [of _ 0 "epoch_start_row x old new now # map (\<lambda>p. p\<lparr> pb_epoch := new \<rparr>) carried"]
  by (fastforce simp: stream_ok_def rebuilt_def)

lemma stream_target_ops:
  "keeps stream_ok (target_insert x r now)" "keeps stream_ok (target_set_token x i tok)" "keeps stream_ok (target_advance_cursor x i ep n)"
  "keeps stream_ok (target_set_archive_responsible x i on)" "keeps stream_ok (target_delete x i)"
proof -
  show "keeps stream_ok (target_insert x r now)" "keeps stream_ok (target_set_token x i tok)" "keeps stream_ok (target_advance_cursor x i ep n)"
    "keeps stream_ok (target_set_archive_responsible x i on)"
    unfolding target_insert_def target_set_token_def target_advance_cursor_def target_set_archive_responsible_def
    by (intro keeps_intros)+
  show "keeps stream_ok (target_delete x i)" unfolding target_delete_def
    by (rule keeps_pub_sql) (auto intro: stream_with)
qed

lemma stream_prunes:
  "keeps stream_ok (prune_outbox_by_reading_seqs x seqs)" "keeps stream_ok (prune_acked_outbox x ep n)"
  "keeps stream_ok (prune_outbox_for_quarantined_range x ids since to)"
proof -
  show "keeps stream_ok (prune_outbox_by_reading_seqs x seqs)" "keeps stream_ok (prune_acked_outbox x ep n)"
    unfolding prune_outbox_by_reading_seqs_def prune_acked_outbox_def by (intro keeps_intros)+
  show "keeps stream_ok (prune_outbox_for_quarantined_range x ids since to)"
    unfolding prune_outbox_for_quarantined_range_def
    by (intro keeps_If keeps_ret keeps_mapErr keeps_sql) (auto simp: delete_publications_def intro: stream_delete)
qed

text \<open>Installing the target moves to the waiting state only over an unused stream; an activation leaves it.\<close>

lemma pub_sql_Inl: "pub_sql x f s = (Inl e, s') \<Longrightarrow> tables s' = tables s"
  by (auto simp: pub_sql_def mapErr_eq_Inl dest: sql_Inl)

lemma transaction_state:
  assumes "transaction x conv m s = (v, s')"
  obtains "tables s' = tables s" | r s1 s2 where "v = Inr r" "tables s1 = tables s" "m s1 = (Inr r, s2)" "tables s' = tables s2"
proof (cases v)
  case (Inl e)
  then show thesis using that(1) transaction_rollback [of x conv m s e s'] assms by simp
next
  case (Inr r)
  then have "transaction x conv m s = (Inr r, s')" using assms by simp
  then show thesis using that(2) [OF Inr] by (elim transaction_commit)
qed

definition unused :: "tables \<Rightarrow> bool" where
  "unused t \<longleftrightarrow> log_rows t = [] \<and> publication_autoinc (publish_t t) = 0"

lemma unused_stream: "unused t \<Longrightarrow> stream_ok t"
  by (simp add: unused_def stream_ok_def)

lemma unused_writes:
  "keeps unused (pub_sql x (insert_target g))" "keeps unused (pub_sql x (set_activation hit upd))"
  by (rule keeps_pub_sql, auto simp: unused_def insert_target_def set_activation_def split: if_splits)+

lemma install_unused: "install_target_body x r now s = (Inr u, s') \<Longrightarrow> unused (tables s)"
  by (auto simp: install_target_body_def andThen_eq_Inr activation_state_Inr pub_select_eq target_count_def
      publication_allocation_sequence_def throw_def unused_def split: if_splits)

lemma stream_install: "keeps stream_ok (install_edge_target x r now)"
proof (rule keepsI)
  fix s v s' assume a: "stream_ok (tables s)" "install_edge_target x r now s = (v, s')"
  have keep: "keeps unused (install_target_body x r now)"
    unfolding install_target_body_def by (intro keeps_intros unused_writes)
  consider "s' = s" | "transaction x PSqlite (install_target_body x r now) s = (v, s')"
    using a(2) by (auto simp: install_edge_target_def throw_def split: if_splits)
  then show "stream_ok (tables s')"
  proof cases
    case 1
    then show ?thesis using a(1) by simp
  next
    case 2
    then show ?thesis
    proof (cases rule: transaction_state)
      case 1
      then show ?thesis using a(1) by simp
    next
      case (2 u s1 s2)
      then show ?thesis using keepsD' [OF keep install_unused 2(3)] by (simp add: unused_stream)
    qed
  qed
qed

lemma stream_set_activation:
  assumes "\<And>a. hit a \<Longrightarrow> ac_state (upd a) = ''discovery_only'' \<Longrightarrow> ac_state a = ''discovery_only''"
  shows "keeps stream_ok (pub_sql x (set_activation hit upd))"
  by (rule keeps_pub_sql) (auto simp: set_activation_def stream_ok_def dest: assms split: if_splits)

lemma stream_apply: "keeps stream_ok (apply_activation x dec r now)"
  unfolding apply_activation_def resume_activation_def first_activation_def
  by (intro keeps_intros keeps_Let stream_set_activation) (auto simp: activation_applied_def intro!: keeps_intros stream_set_activation split: activation_state.splits)

lemma stream_cleanup: "keeps stream_ok (cleanup_pre_activation_batch x limit)"
proof -
  have del: "keeps stream_ok (execute x (\<lambda>t. (c t, set_readings f t)))" for c f
    by (rule keeps_execute) (simp add: set_readings_def stream_ok_def)
  show ?thesis unfolding cleanup_pre_activation_batch_def
    by (intro keeps_intros del stream_set_activation keeps_sql) (auto simp: Let_def split: if_splits option.splits)
qed

fun rebuilds :: "publish_op \<Rightarrow> bool" where
  "rebuilds (Rebuild _ _ _ _) = True"
| "rebuilds _ = False"

lemma stream_run: "stream_ok (tables s) \<Longrightarrow> \<not> rebuilds op \<Longrightarrow> stream_ok (tables (publish_run x dec op s))"
  by (cases op) (auto intro!: keepsD stream_enqueue stream_target_ops stream_prunes stream_install stream_apply stream_cleanup)

text \<open>A run without recoveries: an operation that rebuilds the log is left out.\<close>

definition plain_run :: "ext \<Rightarrow> activation_result decoder \<Rightarrow> publish_op \<Rightarrow> node \<Rightarrow> node" where
  "plain_run x dec op s = (if rebuilds op then s else publish_run x dec op s)"

interpretation stream_runs: invariant_system "plain_run x dec" "\<lambda>s. stream_ok (tables s)" for x dec
  by unfold_locales (simp add: plain_run_def stream_run)

section \<open>Example data\<close>

definition demo_target :: target_row where
  "demo_target = \<lparr> tr_target_id = ''edge'', tr_endpoint_url = ''https://edge'', tr_credential_token = ''t'', tr_archive_responsible = True,
     tr_schema_version = 1, tr_cursor_epoch = None, tr_cursor_pub_seq = 0 \<rparr>"

definition demo_request :: activation_request where
  "demo_request = \<lparr> rq_schema_version = 1, rq_activation_id = ''act-'' @ replicate 32 CHR ''0'', rq_edge_id = ''edge-'' @ replicate 32 CHR ''a'',
     rq_edge_node_id = ''node-1'', rq_expected_ledger_epoch = ''epoch-1'', rq_grant_revision = 1, rq_issued_at = 5 \<rparr>"

definition demo_identity_node :: node where
  "demo_identity_node = \<lparr> tables = empty_tables\<lparr> ledger_t := empty_ledger\<lparr> ledger_meta_t := [(''descriptor_revision'', ''1''),
     (''edge_node_id'', ''node-1''), (''epoch'', ''epoch-1'')] \<rparr> \<rparr>, sql_step = 0, uuid_calls = 0, wall_reads = 0 \<rparr>"

definition demo_decoder :: "activation_result decoder" where
  "demo_decoder _ = Inr (first_result demo_request 0 7)"

definition demo_installed :: node where
  "demo_installed = snd (install_edge_target demo_ext demo_target 3 demo_identity_node)"

section \<open>Properties\<close>

text \<open>C37: The activation happens once: after a successful activation, whatever other operations run on the
  publication store, no request with another text is accepted any more and the same request is answered
  with the same result and without a write; as long as SQL statements succeed, the retried request is indeed
  answered. The hypothesis on the decoder is that it reads back the result that was written.\<close>

theorem activation_once:
  fixes dec :: "activation_result decoder" and ops :: "publish_op list"
  assumes "apply_activation x dec r now s = (Inr result, s1)"
    and "dec (json_text x (activation_result_json result)) = Inr result" "0 \<le> max_reading_seq (tables s)"
  defines "s2 \<equiv> fold (publish_run x dec) ops s1"
  shows "(apply_activation x dec r' later s2 = (Inr result', s3) \<longrightarrow>
      json_text x (activation_request_json r') = json_text x (activation_request_json r) \<and> result' = result \<and> tables s3 = tables s2) \<and>
    ((\<forall>n. \<not> sql_fault x n) \<and> 0 \<le> later \<longrightarrow> fst (apply_activation x dec r later s2) = Inr result)"
proof -
  obtain v where stored: "activated (ledger_t (tables s)) (Some (json_text x (activation_request_json r))) (Some v) (tables s1)"
      "decode_result dec v = Inr result" and valid: "validate_request r = Inr ()"
      and id: "identity_in (ledger_t (tables s)) (rq_edge_node_id r) (rq_expected_ledger_epoch r)"
    using assms(1)
  proof (cases rule: apply_activation_cases)
    case (again v)
    then show thesis using that [of v] by simp
  next
    case first
    have "validate_result result = Inr ()" using first(1,2,5) assms(3) by (simp add: valid_first_result)
    then have "decode_result dec (json_text x (activation_result_json result)) = Inr result"
      using assms(2) by (simp add: decode_result_def)
    then show thesis using first that by (simp add: activated_def activation_applied_def)
  qed
  then have kept: "activated (ledger_t (tables s)) (Some (json_text x (activation_request_json r))) (Some v) (tables s2)"
    unfolding s2_def by (intro activation_runs.run_inv)
  have one: "json_text x (activation_request_json r') = json_text x (activation_request_json r) \<and> result' = result \<and> tables s3 = tables s2"
    if "apply_activation x dec r' later s2 = (Inr result', s3)"
    using that
  proof (cases rule: apply_activation_cases)
    case (again v')
    then show ?thesis using kept stored(2) by (auto simp: activated_def)
  next
    case first
    then show ?thesis using kept by (simp add: activated_def)
  qed
  have "fst (apply_activation x dec r later s2) = Inr result" if ok: "\<And>n. \<not> sql_fault x n" "0 \<le> later"
  proof -
    let ?s = "s2\<lparr> sql_step := Suc (sql_step s2) \<rparr>"
    obtain t where t: "load_edge_node_identity x ?s = (Inr \<lparr> ei_edge_node_id = rq_edge_node_id r, ei_ledger_epoch = rq_expected_ledger_epoch r \<rparr>, t)"
        "tables t = tables s2"
      using load_identity [OF ok(1), of ?s] id kept by (auto simp: activated_def)
    have "resume_activation x dec r i later t = (Inr result, t\<lparr> sql_step := Suc (sql_step t) \<rparr>)" for i
      using ok(1) t(2) kept stored(2) by (simp add: resume_activation_def andThen_def pub_select_eq activated_def activation_from_db_def
          pub_select_def mapErr_def select_def sql_def)
    then show ?thesis using ok t valid
      by (simp add: apply_activation_def transaction_def andThen_def mapErr_def execute_def sql_def ret_def)
  qed
  then show ?thesis using one by blast
qed

theorem activation_once_witness:
  "fst (apply_activation demo_ext demo_decoder demo_request 99 (fold (publish_run demo_ext demo_decoder)
     [EnqueueSmoke ''epoch-1'' (''smoke-'' @ replicate 32 CHR ''0'') 8, Cleanup 10, TargetDelete ''edge'']
     (snd (apply_activation demo_ext demo_decoder demo_request 7 demo_installed)))) = Inr (first_result demo_request 0 7)"
proof -
  have "fst (apply_activation demo_ext demo_decoder demo_request 7 demo_installed) = Inr (first_result demo_request 0 7)" by code_simp
  then obtain s1 where run: "apply_activation demo_ext demo_decoder demo_request 7 demo_installed = (Inr (first_result demo_request 0 7), s1)"
    by (cases "apply_activation demo_ext demo_decoder demo_request 7 demo_installed") auto
  have nf: "\<not> sql_fault demo_ext n" for n by (simp add: demo_ext_def)
  have dec: "demo_decoder t = Inr (first_result demo_request 0 7)" for t by (simp add: demo_decoder_def)
  have "0 \<le> max_reading_seq (tables demo_installed)" by code_simp
  from conjunct2 [OF activation_once [OF run dec this, where later = 99 and ops = "[EnqueueSmoke ''epoch-1''
      (''smoke-'' @ replicate 32 CHR ''0'') 8, Cleanup 10, TargetDelete ''edge'']"]] nf run show ?thesis by simp
qed

text \<open>C38: The publication numbers: over any run of operations of the store other than a recovery, starting with the
  empty tables, the numbers in the log increase and none exceeds the allocation mark, and while the node waits for
  its activation the stream is unused. A measurement is enqueued at the end of the log under the next number, and
  never while the node waits.\<close>

theorem publication_numbers:
  fixes x :: ext and dec :: "activation_result decoder" and ops :: "publish_op list"
  assumes "tables s = empty_tables"
  defines "s1 \<equiv> fold (plain_run x dec) ops s"
  shows "stream_ok (tables s1) \<and> (\<forall>ep n now k s2. enqueue_measurement x ep n now s1 = (Inr k, s2) \<longrightarrow>
    ac_state (activation_of (tables s1)) \<noteq> ''discovery_only'' \<and> k = publication_autoinc (publish_t (tables s1)) + 1 \<and>
    log_rows (tables s2) = log_rows (tables s1) @ [(new_publication ep ''measurement'' None (Some n) None now)\<lparr> pb_pub_seq := k \<rparr>])"
proof -
  have "stream_ok (tables s)" using assms(1) by (simp add: stream_ok_def empty_tables_def empty_publish_def)
  then have "stream_ok (tables s1)" unfolding s1_def by (rule stream_runs.run_inv)
  moreover have "ac_state (activation_of (tables s1)) \<noteq> ''discovery_only'' \<and> k = publication_autoinc (publish_t (tables s1)) + 1 \<and>
      log_rows (tables s2) = log_rows (tables s1) @ [(new_publication ep ''measurement'' None (Some n) None now)\<lparr> pb_pub_seq := k \<rparr>]"
    if run: "enqueue_measurement x ep n now s1 = (Inr k, s2)" for ep n now k s2
  proof -
    obtain u t where t: "require_publication_admitted x s1 = (Inr u, t)"
        "pub_sql x (insert_publication (new_publication ep ''measurement'' None (Some n) None now)) t = (Inr k, s2)"
      using run unfolding enqueue_measurement_def by (auto simp: andThen_eq_Inr)
    then show ?thesis using admitted_Inr [OF t(1)] by (auto simp: pub_sql_eq dest!: insert_publication_Inr)
  qed
  ultimately show ?thesis by blast
qed

theorem publication_numbers_witness:
  "stream_ok (tables (fold (plain_run demo_ext demo_decoder) [EnqueueMeasurement ''e'' 1 5, EnqueueMeasurement ''e'' 2 6]
     \<lparr> tables = empty_tables, sql_step = 0, uuid_calls = 0, wall_reads = 0 \<rparr>))"
  by (rule conjunct1 [OF publication_numbers]) simp


definition demo_behind :: node where
  "demo_behind = fold (publish_run demo_ext demo_decoder) [TargetInsert demo_target 1, EnqueueMeasurement ''e1'' 1 5, EnqueueMeasurement ''e1'' 2 6,
     EnqueueMeasurement ''e1'' 3 7, AdvanceCursor ''edge'' ''e1'' 1] demo_identity_node"


end
