(* ===== verification/Contract.thy ===== *)
theory Contract
  imports Pipeline_Def Rust_Parse
begin

text \<open>
  The ingest contract (\<^verbatim>\<open>edge-node/ingest/contract/src\<close>): the envelope a sender submits, the
  acknowledgement it gets back, the validation report, and the grammar of measurement keys. The JSON
  form of a reading item is the one that is kept for an unknown subject.
\<close>

section \<open>Definitions\<close>

datatype time_source = DeviceNtp | DeviceRtc | EdgeNodeTime | EdgeNodeAdjusted

fun time_source_str :: "time_source \<Rightarrow> string" where
  "time_source_str DeviceNtp = ''device_ntp''"
| "time_source_str DeviceRtc = ''device_rtc''"
| "time_source_str EdgeNodeTime = ''edge_node''"
| "time_source_str EdgeNodeAdjusted = ''edge_node_adjusted''"

record reading_item =
  it_subject_hint :: "string option"
  it_measurement_key :: string
  it_channel_index :: "u16 option"
  it_series_variant :: "string option"
  it_values :: "f64 list"
  it_device_time_ms :: "i64 option"
  it_time_source :: time_source
  it_age_ms :: "u64 option"
  it_rssi :: "int option"
  it_battery_pct :: "nat option"

record envelope =
  en_envelope_id :: string
  en_source :: string
  en_declaration_version :: "nat option"
  en_items :: "reading_item list"

definition reading_item_json :: "reading_item \<Rightarrow> json" where
  "reading_item_json i = JObj (
     json_skip ''subject_hint'' JStr (it_subject_hint i) @
     [(''measurement_key'', JStr (it_measurement_key i))] @
     json_skip ''channel_index'' json_int (it_channel_index i) @
     json_skip ''series_variant'' JStr (it_series_variant i) @
     [(''values'', JArr (map JNum (it_values i)))] @
     json_skip ''device_time_ms'' JInt (it_device_time_ms i) @
     [(''time_source'', JStr (time_source_str (it_time_source i)))] @
     json_skip ''age_ms'' json_int (it_age_ms i) @
     json_skip ''rssi'' JInt (it_rssi i) @
     json_skip ''battery_pct'' json_int (it_battery_pct i))"

datatype quarantine_reason = OutOfRange | UnknownKey | UndeclaredChannel | DeviceQuarantined

fun quarantine_reason_str :: "quarantine_reason \<Rightarrow> string" where
  "quarantine_reason_str OutOfRange = ''out_of_range''"
| "quarantine_reason_str UnknownKey = ''unknown_key''"
| "quarantine_reason_str UndeclaredChannel = ''undeclared_channel''"
| "quarantine_reason_str DeviceQuarantined = ''device_quarantined''"

datatype disposition = Durable | Staged | QuarantinedRow

datatype reason_code =
    MalformedMeasurementKey
  | ValueTypeMismatch
  | UnknownSubject
  | SubjectScopeViolation
  | BatchTooLarge
  | StaleTimestamp
  | InternalFailure

text \<open>The reason, message, field path and schema hint of a rejection.\<close>

record rejection =
  rj_reason_code :: reason_code
  rj_message :: string
  rj_field_path :: "string option"
  rj_schema_hint :: "string option"

datatype item_status = Stored disposition "quarantine_reason option" | ItemRejected rejection

datatype ack_status = Accepted "item_status list" | Duplicate | Rejected rejection | Deferred

record envelope_ack =
  ea_envelope_id :: string
  ea_status :: ack_status

record validation_issue =
  vi_item_index :: "nat option"
  vi_rejection :: rejection

record validation_report =
  vr_envelope_id :: string
  vr_valid :: bool
  vr_issues :: "validation_issue list"

subsection \<open>Measurement keys\<close>

definition MAX_MEASUREMENT_KEY_LEN :: nat where "MAX_MEASUREMENT_KEY_LEN = 64"

datatype measurement_key_error = KeyEmpty | KeyTooLong nat | KeyInvalidSegment string

fun measurement_key_error_display :: "measurement_key_error \<Rightarrow> string" where
  "measurement_key_error_display KeyEmpty = ''measurement_key is empty''"
| "measurement_key_error_display (KeyTooLong n) =
     ''measurement_key length '' @ dec_nat n @ '' exceeds '' @ dec_nat MAX_MEASUREMENT_KEY_LEN"
| "measurement_key_error_display (KeyInvalidSegment s) =
     ''invalid measurement_key segment '' @ [CHR 0x27] @ s @ [CHR 0x27] @ '': expected [a-z][a-z0-9_]*''"

definition key_start :: "char \<Rightarrow> bool" where
  "key_start c \<longleftrightarrow> 97 \<le> byte c \<and> byte c \<le> 122"

definition key_char :: "char \<Rightarrow> bool" where
  "key_char c \<longleftrightarrow> key_start c \<or> (48 \<le> byte c \<and> byte c \<le> 57) \<or> c = CHR ''_''"

definition valid_segment :: "string \<Rightarrow> bool" where
  "valid_segment s = (case s of [] \<Rightarrow> False | c # cs \<Rightarrow> key_start c \<and> list_all key_char cs)"

definition validate_measurement_key :: "string \<Rightarrow> measurement_key_error + unit" where
  "validate_measurement_key key =
     (if key = [] then Inl KeyEmpty
      else if MAX_MEASUREMENT_KEY_LEN < length key then Inl (KeyTooLong (length key))
      else case find_row (\<lambda>s. \<not> valid_segment s) (split_on CHR ''.'' key) of
          Some s \<Rightarrow> Inl (KeyInvalidSegment s)
        | None \<Rightarrow> Inr ())"

definition external_envelope_id :: "string \<Rightarrow> u64 \<Rightarrow> u64 \<Rightarrow> string" where
  "external_envelope_id sender boot_epoch seq = sender @ ''-'' @ dec_nat boot_epoch @ ''-'' @ dec_nat seq"

end
