(* ===== verification/Registry.thy ===== *)
theory Registry
  imports Contract Ledger
begin

text \<open>
  The measurement registry (\<^verbatim>\<open>edge-node/core/registry/src\<close>): the bundled catalog and its
  validation, the registry tables with aliases, and the evaluation of one reading item against them.
  The verdict of an evaluation is the type of \<^verbatim>\<open>edge-node/core/collector/src/registry_policy.rs\<close>.
  The text of a floating-point number is an argument.
\<close>

section \<open>The catalog\<close>

datatype value_type = VFloat | VInt | VBool | VRecord

fun value_type_as_db :: "value_type \<Rightarrow> string" where
  "value_type_as_db VFloat = ''float''"
| "value_type_as_db VInt = ''int''"
| "value_type_as_db VBool = ''bool''"
| "value_type_as_db VRecord = ''record''"

definition value_type_from_db :: "string \<Rightarrow> value_type" where
  "value_type_from_db s = (if s = ''int'' then VInt else if s = ''bool'' then VBool
     else if s = ''record'' then VRecord else VFloat)"

datatype channel_mode = ChSingle | ChGeneric | ChFixed

fun channel_mode_as_db :: "channel_mode \<Rightarrow> string" where
  "channel_mode_as_db ChSingle = ''single''"
| "channel_mode_as_db ChGeneric = ''generic''"
| "channel_mode_as_db ChFixed = ''fixed''"

definition channel_mode_from_db :: "string \<Rightarrow> channel_mode" where
  "channel_mode_from_db s = (if s = ''generic'' then ChGeneric else if s = ''fixed'' then ChFixed else ChSingle)"

record catalog_entry =
  ce_key :: string
  ce_unit_ucum :: "string option"
  ce_unit_display :: "string option"
  ce_value_type :: value_type
  ce_semantic_class :: string
  ce_channel_mode :: channel_mode
  ce_channel_roles :: "string list"
  ce_physical_range :: "(f64 \<times> f64) option"

record catalog =
  ca_version :: string
  ca_measurements :: "catalog_entry list"

definition quoted :: "string \<Rightarrow> string" where
  "quoted s = [CHR 0x27] @ s @ [CHR 0x27]"

text \<open>The checks of \<^verbatim>\<open>parse_catalog\<close> on one parsed measurement, the keys before it given.\<close>

definition check_catalog_entry :: "string set \<Rightarrow> catalog_entry \<Rightarrow> string + unit" where
  "check_catalog_entry seen m =
     (case validate_measurement_key (ce_key m) of
        Inl e \<Rightarrow> Inl (''key '' @ quoted (ce_key m) @ '': '' @ measurement_key_error_display e)
      | Inr _ \<Rightarrow>
        if ce_key m \<in> seen then Inl (''duplicate key '' @ quoted (ce_key m))
        else if ce_channel_mode m = ChFixed \<and> ce_channel_roles m = []
        then Inl (''key '' @ quoted (ce_key m) @ '': fixed channel_mode requires channel_roles'')
        else if ce_channel_mode m \<noteq> ChFixed \<and> ce_channel_roles m \<noteq> []
        then Inl (''key '' @ quoted (ce_key m) @ '': channel_roles only allowed for fixed mode'')
        else if (case ce_physical_range m of None \<Rightarrow> False | Some (lo, hi) \<Rightarrow> \<not> f64_lt lo hi)
        then Inl (''key '' @ quoted (ce_key m) @ '': physical_range min must be < max'')
        else if ce_value_type m = VRecord \<and> ce_physical_range m \<noteq> None
        then Inl (''key '' @ quoted (ce_key m) @ '': record type cannot carry a physical_range'')
        else Inr ())"

fun check_catalog :: "string set \<Rightarrow> catalog_entry list \<Rightarrow> string + unit" where
  "check_catalog seen [] = Inr ()"
| "check_catalog seen (m # ms) = (case check_catalog_entry seen m of
     Inl e \<Rightarrow> Inl e | Inr _ \<Rightarrow> check_catalog (insert (ce_key m) seen) ms)"

definition catalog_find :: "string \<Rightarrow> catalog \<Rightarrow> catalog_entry option" where
  "catalog_find key c = find_row (\<lambda>m. ce_key m = key) (ca_measurements c)"

text \<open>The bundled catalog \<^verbatim>\<open>standard-v1.toml\<close>.\<close>

definition range_of :: "rat \<Rightarrow> rat \<Rightarrow> (f64 \<times> f64) option" where
  "range_of lo hi = Some (round_f64 lo, round_f64 hi)"

definition measurement ::
    "string \<Rightarrow> string \<Rightarrow> string option \<Rightarrow> value_type \<Rightarrow> channel_mode \<Rightarrow> (f64 \<times> f64) option \<Rightarrow> catalog_entry" where
  "measurement key ucum display vt cm r = \<lparr> ce_key = key, ce_unit_ucum = Some ucum, ce_unit_display = display,
     ce_value_type = vt, ce_semantic_class = ''sensor'', ce_channel_mode = cm, ce_channel_roles = [],
     ce_physical_range = r \<rparr>"

definition standard_catalog :: catalog where
  "standard_catalog = \<lparr> ca_version = ''1.0.0'', ca_measurements =
    [measurement ''contact_state'' ''1'' None VBool ChGeneric None,
     (measurement ''contact_output_state'' ''1'' None VBool ChGeneric None)\<lparr> ce_semantic_class := ''actuator_state'' \<rparr>,
     measurement ''voltage_mv'' ''mV'' (Some ''mV'') VFloat ChGeneric None,
     measurement ''distance_mm'' ''mm'' (Some ''mm'') VFloat ChSingle (range_of 0 4000),
     measurement ''temperature_c'' ''Cel'' (Some [CHR 0xE2, CHR 0x84, CHR 0x83]) VFloat ChSingle (range_of (- 200) 1372),
     (measurement ''acceleration_mg'' ''m[G]'' (Some ''mG'') VFloat ChFixed (range_of (- 16000) 16000))
       \<lparr> ce_channel_roles := [''x'', ''y'', ''z''] \<rparr>,
     measurement ''differential_pressure_pa'' ''Pa'' (Some ''Pa'') VFloat ChSingle (range_of (- 500) 500),
     measurement ''illuminance_lux'' ''lx'' (Some ''lx'') VFloat ChSingle (range_of 0 88000),
     measurement ''current_ma'' ''mA'' (Some ''mA'') VFloat ChGeneric (range_of 0 25),
     (measurement ''vibration_spectrum'' [] None VRecord ChSingle None)\<lparr> ce_unit_ucum := None \<rparr>] \<rparr>"

type_synonym number_text = "f64 \<Rightarrow> string"

definition catalog_revision :: "ext \<Rightarrow> number_text \<Rightarrow> catalog_entry \<Rightarrow> string" where
  "catalog_revision x txt m = hex_lower (sha256 x (join [CHR 0x1F]
     [ce_key m, case_option [] id (ce_unit_ucum m), case_option [] id (ce_unit_display m),
      value_type_as_db (ce_value_type m), ce_semantic_class m, channel_mode_as_db (ce_channel_mode m),
      join '','' (ce_channel_roles m),
      (case ce_physical_range m of None \<Rightarrow> [] | Some (lo, hi) \<Rightarrow> txt lo @ ''..'' @ txt hi)]))"

section \<open>The registry tables\<close>

datatype registry_error =
    NamespaceCollision string
  | TargetNotFound string
  | AliasExists string
  | InvalidKey string
  | RSqlite sqlite_error
  | RLedger ledger_error

record entry_row =
  er_measurement_key :: string
  er_origin :: string
  er_catalog_version :: "string option"
  er_entry_revision :: string
  er_unit_ucum :: "string option"
  er_unit_display :: "string option"
  er_value_type :: value_type
  er_semantic_class :: string
  er_channel_mode :: channel_mode
  er_channel_roles :: "string list"
  er_physical_min :: "f64 option"
  er_physical_max :: "f64 option"
  er_local_min :: "f64 option"
  er_local_max :: "f64 option"

record custom_entry_spec =
  cs_measurement_key :: string
  cs_unit_ucum :: "string option"
  cs_unit_display :: "string option"
  cs_value_type :: value_type
  cs_semantic_class :: string
  cs_channel_mode :: channel_mode
  cs_channel_roles :: "string list"
  cs_physical_min :: "f64 option"
  cs_physical_max :: "f64 option"

datatype resolution = ResolvedEntry entry_row | ResolvedAlias entry_row string

datatype alias_kind = Rename | LocationMapping

fun alias_kind_as_db :: "alias_kind \<Rightarrow> string" where
  "alias_kind_as_db Rename = ''rename''"
| "alias_kind_as_db LocationMapping = ''location_mapping''"

definition reg_sql :: "ext \<Rightarrow> (tables \<Rightarrow> sqlite_error + 'a \<times> tables) \<Rightarrow> (node, registry_error, 'a) act" where
  "reg_sql x f = mapErr RSqlite (sql x f)"

definition reg_select :: "ext \<Rightarrow> (registry_store \<Rightarrow> 'a) \<Rightarrow> (node, registry_error, 'a) act" where
  "reg_select x f = mapErr RSqlite (select x (\<lambda>t. f (registry_t t)))"

text \<open>The inserts, with the keys of the tables and the triggers that advance the descriptor revision.\<close>

definition insert_registry_entry :: "registry_entry \<Rightarrow> tables \<Rightarrow> sqlite_error + unit \<times> tables" where
  "insert_registry_entry e t =
     (if list_ex (\<lambda>r. re_measurement_key r = re_measurement_key e) (registry_entries_t (registry_t t))
      then Inl ConstraintPrimaryKey
      else Inr ((), t\<lparr> registry_t := (registry_t t)\<lparr> registry_entries_t := registry_entries_t (registry_t t) @ [e] \<rparr>,
                       ledger_t := bump_revision (ledger_t t) \<rparr>))"

definition insert_alias :: "alias_entry \<Rightarrow> tables \<Rightarrow> sqlite_error + unit \<times> tables" where
  "insert_alias a t =
     (if list_ex (\<lambda>r. al_alias r = al_alias a) (registry_aliases_t (registry_t t)) then Inl ConstraintPrimaryKey
      else if \<not> list_ex (\<lambda>r. re_measurement_key r = al_measurement_key a) (registry_entries_t (registry_t t))
      then Inl ConstraintForeignKey
      else Inr ((), t\<lparr> registry_t := (registry_t t)\<lparr> registry_aliases_t := registry_aliases_t (registry_t t) @ [a] \<rparr>,
                       ledger_t := bump_revision (ledger_t t) \<rparr>))"

definition roles_of :: "ext \<Rightarrow> string option \<Rightarrow> string list" where
  "roles_of x j = (case j of None \<Rightarrow> [] | Some s \<Rightarrow> (case json_parse x s of
     Some (JArr js) \<Rightarrow> if list_all (\<lambda>v. case v of JStr _ \<Rightarrow> True | _ \<Rightarrow> False) js
       then map (\<lambda>v. case v of JStr r \<Rightarrow> r | _ \<Rightarrow> []) js else []
   | _ \<Rightarrow> []))"

definition roles_json :: "ext \<Rightarrow> string list \<Rightarrow> string option" where
  "roles_json x roles = (if roles = [] then None else Some (json_text x (JArr (map JStr roles))))"

definition row_to_entry :: "ext \<Rightarrow> registry_entry \<Rightarrow> entry_row" where
  "row_to_entry x r = \<lparr> er_measurement_key = re_measurement_key r, er_origin = re_origin r,
     er_catalog_version = re_catalog_version r, er_entry_revision = re_entry_revision r,
     er_unit_ucum = re_unit_ucum r, er_unit_display = re_unit_display r,
     er_value_type = value_type_from_db (re_value_type r), er_semantic_class = re_semantic_class r,
     er_channel_mode = channel_mode_from_db (re_channel_mode r),
     er_channel_roles = roles_of x (re_channel_roles_json r), er_physical_min = re_physical_min r,
     er_physical_max = re_physical_max r, er_local_min = re_local_min r, er_local_max = re_local_max r \<rparr>"

definition find_entry :: "string \<Rightarrow> registry_store \<Rightarrow> registry_entry option" where
  "find_entry key g = find_row (\<lambda>r. re_measurement_key r = key) (registry_entries_t g)"

definition find_alias :: "string \<Rightarrow> registry_store \<Rightarrow> alias_entry option" where
  "find_alias name g = find_row (\<lambda>a. al_alias a = name) (registry_aliases_t g)"

definition get_entry :: "ext \<Rightarrow> string \<Rightarrow> (node, registry_error, entry_row option) act" where
  "get_entry x key = reg_select x (\<lambda>g. map_option (row_to_entry x) (find_entry key g))"

definition alias_exists :: "ext \<Rightarrow> string \<Rightarrow> (node, registry_error, bool) act" where
  "alias_exists x name = reg_select x (\<lambda>g. find_alias name g \<noteq> None)"

definition list_entries :: "ext \<Rightarrow> (node, registry_error, entry_row list) act" where
  "list_entries x = reg_select x (\<lambda>g. map (row_to_entry x) (sort_key re_measurement_key (registry_entries_t g)))"

definition list_aliases :: "ext \<Rightarrow> (node, registry_error, (string \<times> string \<times> string) list) act" where
  "list_aliases x = reg_select x (\<lambda>g. map (\<lambda>a. (al_alias a, al_measurement_key a, al_alias_kind a))
     (sort_key al_alias (registry_aliases_t g)))"

text \<open>The row that \<^verbatim>\<open>enable_entry\<close> and \<^verbatim>\<open>define_custom_entry\<close> insert.\<close>

definition entry_of ::
    "ext \<Rightarrow> number_text \<Rightarrow> catalog_entry \<Rightarrow> string \<Rightarrow> string option \<Rightarrow> i64 \<Rightarrow> registry_entry" where
  "entry_of x txt m origin version now = \<lparr> re_measurement_key = ce_key m, re_origin = origin,
     re_catalog_version = version, re_entry_revision = catalog_revision x txt m, re_unit_ucum = ce_unit_ucum m,
     re_unit_display = ce_unit_display m, re_value_type = value_type_as_db (ce_value_type m),
     re_semantic_class = ce_semantic_class m, re_channel_mode = channel_mode_as_db (ce_channel_mode m),
     re_channel_roles_json = roles_json x (ce_channel_roles m), re_physical_min = map_option fst (ce_physical_range m),
     re_physical_max = map_option snd (ce_physical_range m), re_local_min = None, re_local_max = None,
     re_enabled_at = now \<rparr>"

definition written_entry :: "ext \<Rightarrow> string \<Rightarrow> (node, registry_error, entry_row) act" where
  "written_entry x key = andThen (get_entry x key) (\<lambda>e. case e of
     None \<Rightarrow> throw (RSqlite QueryReturnedNoRows) | Some row \<Rightarrow> ret row)"

definition enable_entry ::
    "ext \<Rightarrow> number_text \<Rightarrow> catalog_entry \<Rightarrow> string \<Rightarrow> string \<Rightarrow> (node, registry_error, entry_row) act" where
  "enable_entry x txt m version trigger =
     andThen (get_entry x (ce_key m)) (\<lambda>existing. case existing of
       Some row \<Rightarrow> ret row
     | None \<Rightarrow> andThen (alias_exists x (ce_key m)) (\<lambda>taken.
         if taken then throw (NamespaceCollision (ce_key m))
         else andThen (now_ms x) (\<lambda>now.
           andThen (reg_sql x (insert_registry_entry (entry_of x txt m ''catalog'' (Some version) now))) (\<lambda>_.
           andThen (mapErr RLedger (record_event x ''registry_entry_enabled'' None (json_text x (JObj
             [(''catalog_version'', JStr version), (''key'', JStr (ce_key m)),
              (''revision'', JStr (catalog_revision x txt m)), (''trigger'', JStr trigger)])))) (\<lambda>_.
           written_entry x (ce_key m))))))"

definition registry_key_error :: "string \<Rightarrow> registry_error + unit" where
  "registry_key_error key = (case validate_measurement_key key of
     Inl e \<Rightarrow> Inl (InvalidKey (key @ '': '' @ measurement_key_error_display e)) | Inr _ \<Rightarrow> Inr ())"

definition custom_physical_range :: "custom_entry_spec \<Rightarrow> registry_error + (f64 \<times> f64) option" where
  "custom_physical_range s =
     (case (case (cs_physical_min s, cs_physical_max s) of
        (None, None) \<Rightarrow> Inr None
      | (Some lo, Some hi) \<Rightarrow> if f64_lt lo hi then Inr (Some (lo, hi))
          else Inl (InvalidKey (cs_measurement_key s @ '': physical_min must be less than physical_max''))
      | _ \<Rightarrow> Inl (InvalidKey (cs_measurement_key s @ '': physical_min and physical_max must be supplied together''))) of
      Inl e \<Rightarrow> Inl e
    | Inr r \<Rightarrow> if cs_value_type s = VRecord \<and> r \<noteq> None
        then Inl (InvalidKey (cs_measurement_key s @ '': record type cannot carry physical range'')) else Inr r)"

definition validate_custom_entry_spec :: "custom_entry_spec \<Rightarrow> registry_error + unit" where
  "validate_custom_entry_spec s =
     (if take 7 (cs_measurement_key s) \<noteq> ''custom.'' then Inl (InvalidKey (cs_measurement_key s))
      else case registry_key_error (cs_measurement_key s) of Inl e \<Rightarrow> Inl e
      | Inr _ \<Rightarrow>
        if cs_channel_mode s = ChFixed \<and> cs_channel_roles s = []
        then Inl (InvalidKey (cs_measurement_key s @ '': fixed channel_mode requires channel_roles''))
        else if cs_channel_mode s \<noteq> ChFixed \<and> cs_channel_roles s \<noteq> []
        then Inl (InvalidKey (cs_measurement_key s @ '': channel_roles only allowed for fixed mode''))
        else (case custom_physical_range s of Inl e \<Rightarrow> Inl e | Inr _ \<Rightarrow> Inr ()))"

definition custom_catalog_entry :: "custom_entry_spec \<Rightarrow> (f64 \<times> f64) option \<Rightarrow> catalog_entry" where
  "custom_catalog_entry s r = \<lparr> ce_key = cs_measurement_key s, ce_unit_ucum = cs_unit_ucum s,
     ce_unit_display = cs_unit_display s, ce_value_type = cs_value_type s, ce_semantic_class = cs_semantic_class s,
     ce_channel_mode = cs_channel_mode s, ce_channel_roles = cs_channel_roles s, ce_physical_range = r \<rparr>"

definition define_custom_entry ::
    "ext \<Rightarrow> number_text \<Rightarrow> custom_entry_spec \<Rightarrow> (node, registry_error, entry_row) act" where
  "define_custom_entry x txt s =
     andThen (liftR (validate_custom_entry_spec s)) (\<lambda>_.
     andThen (get_entry x (cs_measurement_key s)) (\<lambda>existing.
       if existing \<noteq> None then throw (NamespaceCollision (cs_measurement_key s))
       else andThen (alias_exists x (cs_measurement_key s)) (\<lambda>taken.
         if taken then throw (NamespaceCollision (cs_measurement_key s))
         else andThen (liftR (custom_physical_range s)) (\<lambda>r. let m = custom_catalog_entry s r in
           andThen (now_ms x) (\<lambda>now.
           andThen (reg_sql x (insert_registry_entry (entry_of x txt m ''custom'' None now))) (\<lambda>_.
           andThen (mapErr RLedger (record_event x ''registry_entry_enabled'' None (json_text x (JObj
             [(''catalog_version'', JNull), (''key'', JStr (ce_key m)), (''origin'', JStr ''custom''),
              (''revision'', JStr (catalog_revision x txt m))])))) (\<lambda>_.
           written_entry x (cs_measurement_key s))))))))"

definition find_resolution :: "ext \<Rightarrow> string \<Rightarrow> (node, registry_error, resolution option) act" where
  "find_resolution x declared =
     andThen (get_entry x declared) (\<lambda>e. case e of
       Some row \<Rightarrow> ret (Some (ResolvedEntry row))
     | None \<Rightarrow> andThen (reg_select x (find_alias declared)) (\<lambda>a. case a of
         None \<Rightarrow> ret None
       | Some al \<Rightarrow> andThen (get_entry x (al_measurement_key al)) (\<lambda>c. case c of
           None \<Rightarrow> throw (TargetNotFound (al_measurement_key al))
         | Some canonical \<Rightarrow> ret (Some (ResolvedAlias canonical (al_alias_kind al))))))"

definition channel_ok :: "entry_row \<Rightarrow> i32 \<Rightarrow> bool" where
  "channel_ok e c = (case er_channel_mode e of
     ChSingle \<Rightarrow> c = CHANNEL_NA \<or> c = 0
   | ChFixed \<Rightarrow> 0 \<le> c \<and> nat c < length (er_channel_roles e)
   | ChGeneric \<Rightarrow> True)"

definition define_alias :: "ext \<Rightarrow> string \<Rightarrow> string \<Rightarrow> alias_kind \<Rightarrow> (node, registry_error, unit) act" where
  "define_alias x name target_key kind =
     andThen (liftR (registry_key_error name)) (\<lambda>_.
     andThen (get_entry x name) (\<lambda>existing.
       if existing \<noteq> None then throw (NamespaceCollision name)
       else andThen (alias_exists x name) (\<lambda>taken.
         if taken then throw (AliasExists name)
         else andThen (get_entry x target_key) (\<lambda>t. case t of
           None \<Rightarrow> throw (TargetNotFound target_key)
         | Some target \<Rightarrow>
           andThen (now_ms x) (\<lambda>now.
           andThen (reg_sql x (insert_alias \<lparr> al_alias = name, al_measurement_key = target_key,
             al_alias_kind = alias_kind_as_db kind, al_created_at = now \<rparr>)) (\<lambda>_.
           andThen (mapErr RLedger (release_series_quarantine_for_key_checked x name ''unknown_key'' (channel_ok target)))
             (\<lambda>(released, mismatch).
             if released = [] \<and> mismatch = [] then ret ()
             else mapErr RLedger (record_event x ''series_quarantine_released'' None (json_text x (JObj
               [(''alias'', JStr name), (''canonical'', JStr target_key),
                (''channel_mismatch_ids'', JArr (map JInt mismatch)), (''series_ids'', JArr (map JInt released))]))))))))))"

subsection \<open>The sensor types of older databases\<close>

definition LEGACY_SENSOR_MAP :: "(u16 \<times> string) list" where
  "LEGACY_SENSOR_MAP = [(257, ''contact_state''), (258, ''contact_output_state''), (259, ''voltage_mv''),
     (260, ''distance_mm''), (261, ''temperature_c''), (262, ''acceleration_mg''), (263, ''differential_pressure_pa''),
     (264, ''illuminance_lux''), (294, ''contact_state''), (295, ''contact_state''), (296, ''contact_output_state''),
     (297, ''temperature_c''), (298, ''current_ma''), (299, ''voltage_mv'')]"

definition seed_one :: "ext \<Rightarrow> u16 \<times> string \<Rightarrow> (node, registry_error, nat) act" where
  "seed_one x p = andThen (now_ms x) (\<lambda>now. reg_sql x (\<lambda>t. Inr (
     if list_ex (\<lambda>r. fst r = fst p) (legacy_map_t (registry_t t)) then (0, t)
     else (1, t\<lparr> registry_t := (registry_t t)\<lparr> legacy_map_t := legacy_map_t (registry_t t) @ [(fst p, snd p, now)] \<rparr> \<rparr>))))"

definition seed_legacy_sensor_map :: "ext \<Rightarrow> (node, registry_error, nat) act" where
  "seed_legacy_sensor_map x = andThen (forA LEGACY_SENSOR_MAP (seed_one x)) (\<lambda>ns. ret (sum_list ns))"

definition lookup_legacy :: "ext \<Rightarrow> u16 \<Rightarrow> (node, registry_error, string option) act" where
  "lookup_legacy x st = reg_select x (\<lambda>g. map_option (\<lambda>r. fst (snd r)) (find_row (\<lambda>r. fst r = st) (legacy_map_t g)))"

section \<open>Evaluation of one item\<close>

definition is_series_level :: "quarantine_reason \<Rightarrow> bool" where
  "is_series_level r \<longleftrightarrow> r = UnknownKey \<or> r = UndeclaredChannel"

datatype registry_verdict =
    Accept (resolved_key: string) (verdict_channel: i32) (verdict_quarantine: "quarantine_reason option")
  | RejectItem reason_code string

datatype policy_error = PolicyRegistry registry_error | PolicyLedger ledger_error

definition raw_channel :: "reading_item \<Rightarrow> i32" where
  "raw_channel i = (case it_channel_index i of None \<Rightarrow> CHANNEL_NA | Some c \<Rightarrow> int c)"

definition item_variant :: "reading_item \<Rightarrow> string" where
  "item_variant i = (case it_series_variant i of None \<Rightarrow> DEFAULT_VARIANT | Some v \<Rightarrow> v)"

text \<open>The entry that validates the item and the key its series is stored under; \<open>None\<close> for an unknown key.\<close>

definition resolve_item ::
    "ext \<Rightarrow> number_text \<Rightarrow> system_id \<Rightarrow> string \<Rightarrow> (node, policy_error, (entry_row \<times> string) option) act" where
  "resolve_item x txt sys declared =
     andThen (mapErr PolicyRegistry (find_resolution x declared)) (\<lambda>r. case r of
       Some (ResolvedEntry e) \<Rightarrow> ret (Some (e, declared))
     | Some (ResolvedAlias canonical _) \<Rightarrow>
         andThen (mapErr PolicyLedger (series_exists_for_key x sys declared)) (\<lambda>materialized.
           ret (Some (canonical, if materialized then declared else er_measurement_key canonical)))
     | None \<Rightarrow> (case catalog_find declared standard_catalog of
         Some m \<Rightarrow> andThen (mapErr PolicyRegistry (enable_entry x txt m (ca_version standard_catalog) ''auto''))
           (\<lambda>e. ret (Some (e, declared)))
       | None \<Rightarrow> ret None))"

text \<open>The checks of the values; \<open>None\<close> when they have the type of the entry.\<close>

definition value_mismatch :: "number_text \<Rightarrow> entry_row \<Rightarrow> f64 list \<Rightarrow> string option" where
  "value_mismatch txt e vs =
     (if er_value_type e = VRecord
      then Some (quoted (er_measurement_key e) @
        '' is a record type: wire representation is reserved for a future contract addendum (D6)'')
      else if length vs \<noteq> 1
      then Some (''scalar measurement expects exactly 1 value, got '' @ dec_nat (length vs) @
        '' (multi-channel data must be split into per-channel items)'')
      else if \<not> is_finite (vs ! 0) then Some (''non-finite value '' @ txt (vs ! 0) @ '' is structurally uninterpretable'')
      else if er_value_type e = VBool \<and> \<not> f64_eq (vs ! 0) (Fin 0) \<and> \<not> f64_eq (vs ! 0) (Fin 1)
      then Some (''bool measurement expects 0 or 1, got '' @ txt (vs ! 0))
      else if er_value_type e = VInt \<and> \<not> fract_is_zero (vs ! 0)
      then Some (''int measurement expects an integral value, got '' @ txt (vs ! 0))
      else None)"

text \<open>The channel the series is stored under, and whether the entry does not declare it.\<close>

definition single_channel ::
    "ext \<Rightarrow> system_id \<Rightarrow> string \<Rightarrow> string \<Rightarrow> (node, policy_error, i32 \<times> bool) act" where
  "single_channel x sys key variant =
     andThen (mapErr PolicyLedger (find_series_meta x sys key CHANNEL_NA variant)) (\<lambda>na_meta.
     andThen (mapErr PolicyLedger (find_series_meta x sys key 0 variant)) (\<lambda>zero_meta.
       if na_meta \<noteq> None
       then andThen (if zero_meta \<noteq> None
              then mapErr PolicyLedger (record_event x ''channel_form_conflict'' (Some sys) (json_text x (JObj
                [(''legacy_channel'', JInt 0), (''measurement_key'', JStr key), (''preferred_channel'', JInt CHANNEL_NA),
                 (''variant'', JStr variant)])))
              else ret ()) (\<lambda>_. ret (CHANNEL_NA, False))
       else ret (if zero_meta \<noteq> None then 0 else CHANNEL_NA, False)))"

definition item_channel ::
    "ext \<Rightarrow> system_id \<Rightarrow> reading_item \<Rightarrow> entry_row \<Rightarrow> string \<Rightarrow> (node, policy_error, i32 \<times> bool) act" where
  "item_channel x sys i e key = (case er_channel_mode e of
     ChSingle \<Rightarrow> if it_channel_index i = None \<or> it_channel_index i = Some 0
       then single_channel x sys key (item_variant i) else ret (raw_channel i, True)
   | ChFixed \<Rightarrow> ret (raw_channel i, case it_channel_index i of
         Some c \<Rightarrow> \<not> c < length (er_channel_roles e) | None \<Rightarrow> True)
   | ChGeneric \<Rightarrow> ret (raw_channel i, False))"

definition either :: "'a option \<Rightarrow> 'a option \<Rightarrow> 'a option" where
  "either a b = (case a of Some _ \<Rightarrow> a | None \<Rightarrow> b)"

text \<open>The bounds of a value: of the series, else of the site, else of the catalog, each side on its own.\<close>

definition out_of_range :: "series_meta option \<Rightarrow> entry_row \<Rightarrow> f64 \<Rightarrow> bool" where
  "out_of_range meta e v =
     (let lo = either (either (Option.bind meta sm_range_min) (er_local_min e)) (er_physical_min e);
          hi = either (either (Option.bind meta sm_range_max) (er_local_max e)) (er_physical_max e)
      in (case lo of None \<Rightarrow> False | Some l \<Rightarrow> f64_lt v l) \<or> (case hi of None \<Rightarrow> False | Some h \<Rightarrow> f64_lt h v))"

definition evaluate_resolved ::
    "ext \<Rightarrow> number_text \<Rightarrow> system_id \<Rightarrow> reading_item \<Rightarrow> entry_row \<Rightarrow> string \<Rightarrow> (node, policy_error, registry_verdict) act" where
  "evaluate_resolved x txt sys i e key = (case value_mismatch txt e (it_values i) of
     Some msg \<Rightarrow> ret (RejectItem ValueTypeMismatch msg)
   | None \<Rightarrow> andThen (item_channel x sys i e key) (\<lambda>(channel, undeclared).
       if undeclared then ret (Accept key channel (Some UndeclaredChannel))
       else andThen (mapErr PolicyLedger (find_series_meta x sys key channel (item_variant i))) (\<lambda>meta.
         ret (Accept key channel (if out_of_range meta e (it_values i ! 0) then Some OutOfRange else None)))))"

definition evaluate_item ::
    "ext \<Rightarrow> number_text \<Rightarrow> system_id \<Rightarrow> reading_item \<Rightarrow> (node, policy_error, registry_verdict) act" where
  "evaluate_item x txt sys i =
     andThen (resolve_item x txt sys (it_measurement_key i)) (\<lambda>r. case r of
       None \<Rightarrow> ret (Accept (it_measurement_key i) (raw_channel i) (Some UnknownKey))
     | Some (e, key) \<Rightarrow> evaluate_resolved x txt sys i e key)"

end
