(* ===== verification/Collector.thy ===== *)
theory Collector
  imports Registry Clock Publish Engine Faults
begin

text \<open>
  The collector (\<^verbatim>\<open>edge-node/core/collector/src\<close>): principals and their scope, freshness limits,
  the acceptance of one envelope in a single transaction, delivery into the pipelines, and the task
  that owns the resolution cache. The registry policy and the freshness clock are the trait objects of
  the code and appear as arguments; \<open>sqlite_policy\<close> and the clock of the node are their
  implementations. The texts of errors and the monotonic clock are arguments too.
\<close>

section \<open>Freshness and principals\<close>

definition MAX_FRESHNESS_LIMIT_MS :: i64 where "MAX_FRESHNESS_LIMIT_MS = 365 * 24 * 60 * 60 * 1000"

record freshness_limits =
  fl_max_age_ms :: i64
  fl_max_future_skew_ms :: i64

definition freshness_limits_new :: "i64 \<Rightarrow> i64 \<Rightarrow> freshness_limits option" where
  "freshness_limits_new age skew =
     (if \<not> (0 \<le> age \<and> age \<le> MAX_FRESHNESS_LIMIT_MS) \<or> \<not> (0 \<le> skew \<and> skew \<le> MAX_FRESHNESS_LIMIT_MS) then None
      else Some \<lparr> fl_max_age_ms = age, fl_max_future_skew_ms = skew \<rparr>)"

definition default_freshness_limits :: freshness_limits where
  "default_freshness_limits = the (freshness_limits_new (24 * 60 * 60 * 1000) (5 * 60 * 1000))"

type_synonym freshness_clock = "(clocked, string, freshness_snapshot) act"

definition untrusted_system_clock :: "ext \<Rightarrow> freshness_clock" where
  "untrusted_system_clock x = on_node (andThen (now_ms x) (\<lambda>now.
     ret \<lparr> fs_received_at_ms = now, fs_trusted_wall_time_ms = None \<rparr>))"

datatype ingest_actor_kind = OfficialAdapter | DeviceToken

text \<open>A restricted scope is a hash set, here the list of its elements.\<close>

datatype subject_scope = OfficialDiscovery | Restricted "system_id list"

record ingest_principal =
  ip_principal_id :: string
  ip_credential_id :: "string option"
  ip_configured_source :: string
  ip_scope :: subject_scope
  ip_flow_profile :: string
  ip_auth_epoch :: "string option"
  ip_auth_generation :: "i64 option"
  ip_material_generation :: "i64 option"
  ip_actor_kind :: ingest_actor_kind

definition trusted_official_adapter :: "string \<Rightarrow> string \<Rightarrow> ingest_principal" where
  "trusted_official_adapter pid source = \<lparr> ip_principal_id = pid, ip_credential_id = None, ip_configured_source = source,
     ip_scope = OfficialDiscovery, ip_flow_profile = ''trusted_in_process'', ip_auth_epoch = None,
     ip_auth_generation = None, ip_material_generation = None, ip_actor_kind = OfficialAdapter \<rparr>"

record device_identity =
  di_principal_id :: string
  di_credential_id :: string
  di_configured_source :: string
  di_flow_profile :: string

record authority_proof =
  ap_auth_epoch :: string
  ap_auth_generation :: i64
  ap_material_generation :: i64

definition authenticated_device :: "device_identity \<Rightarrow> system_id list \<Rightarrow> authority_proof \<Rightarrow> ingest_principal" where
  "authenticated_device d subjects proof = \<lparr> ip_principal_id = di_principal_id d,
     ip_credential_id = Some (di_credential_id d), ip_configured_source = di_configured_source d,
     ip_scope = Restricted (remdups subjects), ip_flow_profile = di_flow_profile d,
     ip_auth_epoch = Some (ap_auth_epoch proof), ip_auth_generation = Some (ap_auth_generation proof),
     ip_material_generation = Some (ap_material_generation proof), ip_actor_kind = DeviceToken \<rparr>"

definition sole_subject :: "ingest_principal \<Rightarrow> system_id option" where
  "sole_subject p = (case ip_scope p of Restricted [s] \<Rightarrow> Some s | _ \<Rightarrow> None)"

definition subject_allowed :: "ingest_principal \<Rightarrow> system_id \<Rightarrow> bool" where
  "subject_allowed p s = (case ip_scope p of OfficialDiscovery \<Rightarrow> True | Restricted ss \<Rightarrow> s \<in> set ss)"

definition can_stage_unknown :: "ingest_principal \<Rightarrow> bool" where
  "can_stage_unknown p \<longleftrightarrow> ip_scope p = OfficialDiscovery \<and> ip_actor_kind p = OfficialAdapter"

section \<open>State of the task\<close>

definition MAX_ITEMS_PER_ENVELOPE :: nat where "MAX_ITEMS_PER_ENVELOPE = 256"

definition COLLECTOR_DEDUP_TTL_MS :: i64 where "COLLECTOR_DEDUP_TTL_MS = 72 * 60 * 60 * 1000"

definition DEFAULT_PURGE_INTERVAL_MS :: i64 where "DEFAULT_PURGE_INTERVAL_MS = 60 * 60 * 1000"

record ingest_request =
  iq_principal :: ingest_principal
  iq_envelope :: envelope

datatype intrusion_kind = SourceMismatch | ScopeViolation

record intrusion_signal =
  is_principal_id :: string
  is_credential_id :: "string option"
  is_kind :: intrusion_kind

datatype submit_error = NoAck | SubmitClockUntrusted | SubmitAuthenticationStale | Closed

type_synonym series_slot = "system_id \<times> string \<times> i32 \<times> string"

record resolution_cache =
  cache_generation :: i64
  cache_devices :: "string \<Rightarrow> (system_id \<times> device_state) option"
  cache_series :: "series_slot \<Rightarrow> i64 option"

definition empty_cache :: resolution_cache where
  "empty_cache = \<lparr> cache_generation = 0, cache_devices = Map.empty, cache_series = Map.empty \<rparr>"

datatype storage_cause =
    CTimeseries timeseries_error
  | CLedger ledger_error
  | CPublish publish_error
  | CPolicy policy_error
  | CEngine engine_error
  | CSqlite sqlite_error
  | CClock string

text \<open>\<open>Panicked\<close> stands for the two \<^verbatim>\<open>expect\<close> calls of the freshness check.\<close>

datatype process_error = StorageFailure storage_cause | ProcessClockUntrusted | AuthenticationStale | Panicked

record work =
  wk_clock :: clocked
  wk_cache :: resolution_cache
  wk_pending :: "staged_sighting list"
  wk_faults :: pipeline_faults
  wk_intrusions :: "intrusion_signal list"

type_synonym 'a work_act = "(work, process_error, 'a) act"

abbreviation wk_node :: "work \<Rightarrow> node" where
  "wk_node w \<equiv> ck_node (wk_clock w)"

abbreviation wk_tables :: "work \<Rightarrow> tables" where
  "wk_tables w \<equiv> tables (wk_node w)"

definition with_node :: "node \<Rightarrow> work \<Rightarrow> work" where
  "with_node n w = w\<lparr> wk_clock := (wk_clock w)\<lparr> ck_node := n \<rparr> \<rparr>"

definition on_conn :: "('e \<Rightarrow> storage_cause) \<Rightarrow> (node, 'e, 'a) act \<Rightarrow> 'a work_act" where
  "on_conn cause m w = (case m (wk_node w) of
     (Inl e, n) \<Rightarrow> (Inl (StorageFailure (cause e)), with_node n w)
   | (Inr a, n) \<Rightarrow> (Inr a, with_node n w))"

definition change_work :: "(work \<Rightarrow> work) \<Rightarrow> unit work_act" where
  "change_work f w = (Inr (), f w)"

definition read_work :: "(work \<Rightarrow> 'a) \<Rightarrow> 'a work_act" where
  "read_work f w = (Inr (f w), w)"

text \<open>
  What the task is composed of: the registry policy, the freshness clock and limits, whether an
  intrusion channel is attached, the pipelines with the names of their adapters, and the texts of
  pipeline and storage errors.
\<close>

record pipeline_delivery =
  pl_node :: edge_node_id
  pl_adapters :: "string \<Rightarrow> string option"

record composition =
  cp_policy :: "system_id \<Rightarrow> reading_item \<Rightarrow> (node, policy_error, registry_verdict) act"
  cp_clock :: freshness_clock
  cp_limits :: freshness_limits
  cp_intrusion :: bool
  cp_pipelines :: "pipeline_delivery option"
  cp_engine_text :: "engine_error \<Rightarrow> string"
  cp_storage_text :: "storage_cause \<Rightarrow> string"

definition sqlite_policy :: "ext \<Rightarrow> number_text \<Rightarrow> system_id \<Rightarrow> reading_item \<Rightarrow> (node, policy_error, registry_verdict) act" where
  "sqlite_policy = evaluate_item"

definition permissive_policy :: "system_id \<Rightarrow> reading_item \<Rightarrow> (node, policy_error, registry_verdict) act" where
  "permissive_policy sys i = ret (Accept (it_measurement_key i) (raw_channel i) None)"

text \<open>The composition of the node: the registry of the database, the trusted clock and the default limits.\<close>

definition node_composition ::
    "ext \<Rightarrow> number_text \<Rightarrow> i64 \<Rightarrow> clock_reading \<Rightarrow> pipeline_delivery option \<Rightarrow> (engine_error \<Rightarrow> string) \<Rightarrow>
     (storage_cause \<Rightarrow> string) \<Rightarrow> composition" where
  "node_composition x txt received r pl et st = \<lparr> cp_policy = sqlite_policy x txt, cp_clock = freshness x received r,
     cp_limits = default_freshness_limits, cp_intrusion = False, cp_pipelines = pl, cp_engine_text = et,
     cp_storage_text = st \<rparr>"

section \<open>Acceptance of an item\<close>

definition emit_intrusion :: "composition \<Rightarrow> ingest_principal \<Rightarrow> intrusion_kind \<Rightarrow> unit work_act" where
  "emit_intrusion cp p k = change_work (\<lambda>w. if cp_intrusion cp
     then w\<lparr> wk_intrusions := wk_intrusions w @ [\<lparr> is_principal_id = ip_principal_id p,
            is_credential_id = ip_credential_id p, is_kind = k \<rparr>] \<rparr>
     else w)"

definition requires_absolute_time :: "reading_item \<Rightarrow> bool" where
  "requires_absolute_time i \<longleftrightarrow> it_device_time_ms i \<noteq> None \<and> it_time_source i \<in> {DeviceNtp, DeviceRtc, EdgeNodeAdjusted}"

definition restore_device_time :: "i64 \<Rightarrow> i64 option \<Rightarrow> u64 option \<Rightarrow> time_source \<Rightarrow> i64 option \<times> time_source" where
  "restore_device_time received device age declared = (case (device, age) of
     (Some dt, _) \<Rightarrow> (Some dt, declared)
   | (None, Some a) \<Rightarrow> (case Option.bind (i64_try_from_u64 a) (checked_sub received) of
       Some dt \<Rightarrow> (Some dt, EdgeNodeAdjusted) | None \<Rightarrow> (None, declared))
   | (None, None) \<Rightarrow> (None, declared))"

definition item_path :: "nat \<Rightarrow> string \<Rightarrow> string option" where
  "item_path n field = Some (''/items/'' @ dec_nat n @ ''/'' @ field)"

definition rejected :: "reason_code \<Rightarrow> string \<Rightarrow> string option \<Rightarrow> string \<Rightarrow> item_status" where
  "rejected code msg path hint = ItemRejected \<lparr> rj_reason_code = code, rj_message = msg, rj_field_path = path,
     rj_schema_hint = Some hint \<rparr>"

text \<open>The outer \<open>None\<close> is the panic of the two \<^verbatim>\<open>expect\<close> calls.\<close>

definition freshness_rejection ::
    "reading_item \<Rightarrow> nat \<Rightarrow> freshness_snapshot \<Rightarrow> freshness_limits \<Rightarrow> item_status option option" where
  "freshness_rejection i n clock lm =
     (if it_device_time_ms i = None \<and> (case it_age_ms i of None \<Rightarrow> False | Some a \<Rightarrow> i64_as_u64 (fl_max_age_ms lm) < a)
      then Some (Some (rejected StaleTimestamp ''observation age exceeds the configured freshness window''
        (item_path n ''age_ms'') (''age_ms <= '' @ dec_int (fl_max_age_ms lm))))
      else if requires_absolute_time i
      then (case (fs_trusted_wall_time_ms clock, it_device_time_ms i) of
          (Some now, Some ts) \<Rightarrow>
            if ts < saturating_sub now (fl_max_age_ms lm)
            then Some (Some (rejected StaleTimestamp ''device timestamp is older than the configured freshness window''
              (item_path n ''device_time_ms'') (''device_time_ms >= trusted_now_ms - '' @ dec_int (fl_max_age_ms lm))))
            else if saturating_add now (fl_max_future_skew_ms lm) < ts
            then Some (Some (rejected StaleTimestamp ''device timestamp exceeds the configured future-skew limit''
              (item_path n ''device_time_ms'') (''device_time_ms <= trusted_now_ms + '' @ dec_int (fl_max_future_skew_ms lm))))
            else Some None
        | _ \<Rightarrow> None)
      else Some None)"

record item_context =
  ix_principal :: ingest_principal
  ix_received_at :: i64
  ix_clock :: freshness_snapshot
  ix_epoch :: string

text \<open>The subject of an item: a rejection, or the hardware id it names and the device found for it.\<close>

definition resolve_subject ::
    "ext \<Rightarrow> ingest_principal \<Rightarrow> reading_item \<Rightarrow> nat \<Rightarrow> (item_status + string option \<times> (system_id \<times> device_state) option) work_act" where
  "resolve_subject x p i n = (case it_subject_hint i of
     Some hw \<Rightarrow> andThen (read_work (\<lambda>w. cache_devices (wk_cache w) hw)) (\<lambda>hit. case hit of
         Some d \<Rightarrow> ret (Inr (Some hw, Some d))
       | None \<Rightarrow> andThen (on_conn CLedger (find_alive_by_hardware_id x hw)) (\<lambda>row. case row of
           Some r \<Rightarrow> andThen (change_work (\<lambda>w. w\<lparr> wk_cache := (wk_cache w)\<lparr> cache_devices :=
                 (cache_devices (wk_cache w))(hw \<mapsto> (de_system_id r, de_state r)) \<rparr> \<rparr>)) (\<lambda>_.
               ret (Inr (Some hw, Some (de_system_id r, de_state r))))
         | None \<Rightarrow> ret (Inr (Some hw, None))))
   | None \<Rightarrow> (case sole_subject p of
       Some s \<Rightarrow> andThen (on_conn CLedger (get_device x s)) (\<lambda>row.
         ret (Inr (None, case row of
           Some r \<Rightarrow> if de_state r \<noteq> Retired then Some (de_system_id r, de_state r) else None
         | None \<Rightarrow> None)))
     | None \<Rightarrow> ret (Inl (rejected UnknownSubject ''subject_hint required for a multi-subject principal''
         (item_path n ''subject_hint'') ''one subject identifier from the principal scope''))))"

definition cached_series ::
    "ext \<Rightarrow> system_id \<Rightarrow> string \<Rightarrow> i32 \<Rightarrow> string \<Rightarrow> quarantine_reason option \<Rightarrow> i64 work_act" where
  "cached_series x sys key channel variant q =
     (let slot = (sys, key, channel, variant);
          level = (case q of Some r \<Rightarrow> is_series_level r | None \<Rightarrow> False)
      in andThen (read_work (\<lambda>w. cache_series (wk_cache w) slot)) (\<lambda>hit. case hit of
           Some n \<Rightarrow> ret n
         | None \<Rightarrow> andThen (on_conn CLedger (ensure_series x sys key channel variant level
               (if level then map_option quarantine_reason_str q else None))) (\<lambda>n.
             andThen (change_work (\<lambda>w. w\<lparr> wk_cache := (wk_cache w)\<lparr> cache_series :=
               (cache_series (wk_cache w))(slot \<mapsto> n) \<rparr> \<rparr>)) (\<lambda>_. ret n))))"

text \<open>Delivery of a durable item into the pipelines of its adapter.\<close>

fun discarded :: "(engine_error \<Rightarrow> string) \<Rightarrow> i64 \<Rightarrow> (pipeline_id \<times> (engine_error + delivery_outcome)) list \<Rightarrow>
    pipeline_faults \<Rightarrow> pipeline_faults" where
  "discarded txt now [] fs = fs"
| "discarded txt now ((i, Inl e) # os) fs = discarded txt now os (faults_record i (txt e) now fs)"
| "discarded txt now ((i, Inr _) # os) fs = discarded txt now os fs"

definition deliver_item ::
    "ext \<Rightarrow> composition \<Rightarrow> ingest_principal \<Rightarrow> reading_item \<Rightarrow> input_time \<Rightarrow> unit work_act" where
  "deliver_item x cp p i received = (case cp_pipelines cp of
     None \<Rightarrow> ret ()
   | Some pl \<Rightarrow> (case pl_adapters pl (ip_configured_source p) of
       None \<Rightarrow> ret ()
     | Some adapter \<Rightarrow> andThen (on_conn CEngine (deliver x (pl_node pl) \<lparr> ar_adapter = adapter,
           ar_subject = it_subject_hint i, ar_measurement_key = it_measurement_key i,
           ar_channel_index = it_channel_index i, ar_values = it_values i, ar_received_at = received \<rparr>)) (\<lambda>outcomes.
         change_work (\<lambda>w. w\<lparr> wk_faults := discarded (cp_engine_text cp) (uptime_ms received) outcomes (wk_faults w) \<rparr>))))"

definition new_reading_of :: "item_context \<Rightarrow> reading_item \<Rightarrow> i64 \<Rightarrow> bool \<Rightarrow> new_reading" where
  "new_reading_of ctx i series quarantined =
     (case restore_device_time (ix_received_at ctx) (it_device_time_ms i) (it_age_ms i) (it_time_source i) of
        (dt, src) \<Rightarrow> \<lparr> nr_series_id = series, nr_received_at_ms = ix_received_at ctx, nr_device_time_ms = dt,
          nr_time_source = time_source_str src, nr_values = it_values i, nr_rssi = it_rssi i,
          nr_battery_pct = it_battery_pct i, nr_quarantined = quarantined \<rparr>)"

text \<open>The writes of an item whose device and verdict are known.\<close>

definition store_item ::
    "ext \<Rightarrow> composition \<Rightarrow> i64 \<Rightarrow> item_context \<Rightarrow> reading_item \<Rightarrow> system_id \<Rightarrow> device_state \<Rightarrow> string \<Rightarrow> i32 \<Rightarrow>
     quarantine_reason option \<Rightarrow> item_status work_act" where
  "store_item x cp up ctx i sys st key channel q =
     (let quarantined = (q \<noteq> None \<or> st = Quarantined);
          reason = either q (if st = Quarantined then Some DeviceQuarantined else None)
      in andThen (cached_series x sys key channel (item_variant i) q) (\<lambda>series.
         andThen (on_conn CTimeseries (insert_reading_v3 x (new_reading_of ctx i series quarantined))) (\<lambda>seq.
         if quarantined then ret (Stored QuarantinedRow reason)
         else andThen (deliver_item x cp (ix_principal ctx) i
             \<lparr> uptime_ms = up, unix_epoch_ms = fs_trusted_wall_time_ms (ix_clock ctx) \<rparr>) (\<lambda>_.
           andThen (on_conn CPublish (publication_admitted x)) (\<lambda>admitted.
           andThen (if admitted
             then andThen (on_conn CPublish (enqueue_measurement x (ix_epoch ctx) seq (ix_received_at ctx))) (\<lambda>_. ret ())
             else ret ()) (\<lambda>_.
           ret (Stored Durable None)))))))"

definition accept_item ::
    "ext \<Rightarrow> composition \<Rightarrow> i64 \<Rightarrow> item_context \<Rightarrow> reading_item \<Rightarrow> system_id \<Rightarrow> device_state \<Rightarrow> item_status work_act" where
  "accept_item x cp up ctx i sys st =
     andThen (on_conn CPolicy (cp_policy cp sys i)) (\<lambda>v. case v of
       RejectItem code msg \<Rightarrow> ret (ItemRejected \<lparr> rj_reason_code = code, rj_message = msg, rj_field_path = None,
         rj_schema_hint = None \<rparr>)
     | Accept key channel q \<Rightarrow> store_item x cp up ctx i sys st key channel q)"

definition stage_item :: "ext \<Rightarrow> reading_item \<Rightarrow> string \<Rightarrow> item_status work_act" where
  "stage_item x i hw = andThen (change_work (\<lambda>w. w\<lparr> wk_pending := wk_pending w @ [\<lparr> sx_hardware_id = hw,
     sx_payload_json = json_text x (reading_item_json i) \<rparr>] \<rparr>)) (\<lambda>_. ret (Stored Staged None))"

text \<open>The checks of an item after its subject is known, before it is stored or staged.\<close>

definition item_violation ::
    "composition \<Rightarrow> item_context \<Rightarrow> reading_item \<Rightarrow> nat \<Rightarrow> item_status option option" where
  "item_violation cp ctx i n = (case validate_measurement_key (it_measurement_key i) of
     Inl e \<Rightarrow> Some (Some (rejected MalformedMeasurementKey (measurement_key_error_display e)
       (item_path n ''measurement_key'') ''canonical measurement key''))
   | Inr _ \<Rightarrow>
       if \<not> list_all is_finite (it_values i)
       then Some (Some (rejected ValueTypeMismatch ''values must contain only finite numbers''
         (item_path n ''values'') ''array of finite numbers''))
       else freshness_rejection i n (ix_clock ctx) (cp_limits cp))"

definition process_item ::
    "ext \<Rightarrow> composition \<Rightarrow> i64 \<Rightarrow> item_context \<Rightarrow> reading_item \<Rightarrow> nat \<Rightarrow> item_status work_act" where
  "process_item x cp up ctx i n =
     (let p = ix_principal ctx in
      andThen (resolve_subject x p i n) (\<lambda>r. case r of
        Inl status \<Rightarrow> ret status
      | Inr (hint, found) \<Rightarrow>
          if (case found of Some (s, _) \<Rightarrow> \<not> subject_allowed p s | None \<Rightarrow> False)
          then andThen (emit_intrusion cp p ScopeViolation) (\<lambda>_.
            ret (rejected SubjectScopeViolation ''subject is outside the authenticated principal scope''
              (item_path n ''subject_hint'') ''subject authorized for this principal''))
          else (case item_violation cp ctx i n of
            None \<Rightarrow> throw Panicked
          | Some (Some status) \<Rightarrow> ret status
          | Some None \<Rightarrow> (case found of
              Some (s, st) \<Rightarrow> accept_item x cp up ctx i s st
            | None \<Rightarrow> (case hint of
                None \<Rightarrow> ret (rejected UnknownSubject (''the principal'' @ [CHR 0x27] @ ''s sole subject is not registered'') (item_path n ''subject_hint'') ''registered subject identifier'')
              | Some hw \<Rightarrow> if can_stage_unknown p then stage_item x i hw
                  else ret (rejected UnknownSubject ''subject is not registered'' (item_path n ''subject_hint'')
                    ''registered subject identifier''))))))"

section \<open>Acceptance of an envelope\<close>

definition live_principal :: "tables \<Rightarrow> string \<Rightarrow> bool" where
  "live_principal t pid =
     (let live = (\<lambda>sid. list_ex (\<lambda>d. dv_system_id d = sid \<and> dv_state d \<noteq> ''retired'') (devices_t (ledger_t t))) in
      list_ex (\<lambda>p. dp_principal_id p = pid \<and> live (dp_device_system_id p)) (principals_t t) \<and>
      list_ex (\<lambda>c. dc_principal_id c = pid \<and> dc_state c \<in> {''current'', ''pending''}) (credentials_t t) \<and>
      list_ex (\<lambda>s. fst s = pid \<and> live (snd s)) (scopes_t t))"

definition proof_current :: "string \<Rightarrow> string \<Rightarrow> string \<Rightarrow> i64 \<Rightarrow> i64 \<Rightarrow> tables \<Rightarrow> bool" where
  "proof_current cred pid epoch gen material t =
     (let a = auth_state_t t in
      list_ex (\<lambda>c. dc_credential_id c = cred \<and> dc_principal_id c = pid \<and> dc_auth_epoch c = epoch \<and>
         dc_state c \<in> {''current'', ''pending''}) (credentials_t t) \<and>
      live_principal t pid \<and> auth_epoch a = epoch \<and> auth_generation a = gen \<and> device_credential_generation a = material)"

definition authentication_is_current_at_serialization :: "ext \<Rightarrow> ingest_principal \<Rightarrow> bool work_act" where
  "authentication_is_current_at_serialization x p =
     (if ip_actor_kind p \<noteq> DeviceToken then ret True
      else case (ip_credential_id p, ip_auth_epoch p, ip_auth_generation p, ip_material_generation p) of
        (Some cred, Some epoch, Some gen, Some material) \<Rightarrow>
          on_conn CSqlite (select x (proof_current cred (ip_principal_id p) epoch gen material))
      | _ \<Rightarrow> ret False)"

definition snapshot_clock :: "composition \<Rightarrow> freshness_snapshot work_act" where
  "snapshot_clock cp w = (case cp_clock cp (wk_clock w) of
     (Inl e, c) \<Rightarrow> (Inl (StorageFailure (CClock e)), w\<lparr> wk_clock := c \<rparr>)
   | (Inr s, c) \<Rightarrow> (Inr s, w\<lparr> wk_clock := c \<rparr>))"

definition refresh_cache :: "i64 \<Rightarrow> work \<Rightarrow> work" where
  "refresh_cache gen w = (if gen \<noteq> cache_generation (wk_cache w)
     then w\<lparr> wk_cache := \<lparr> cache_generation = gen, cache_devices = Map.empty, cache_series = Map.empty \<rparr> \<rparr> else w)"

definition clear_cache :: "work \<Rightarrow> work" where
  "clear_cache w = w\<lparr> wk_cache := (wk_cache w)\<lparr> cache_devices := Map.empty, cache_series := Map.empty \<rparr> \<rparr>"

fun process_items ::
    "ext \<Rightarrow> composition \<Rightarrow> (nat \<Rightarrow> i64) \<Rightarrow> item_context \<Rightarrow> nat \<Rightarrow> reading_item list \<Rightarrow> item_status list work_act" where
  "process_items x cp up ctx n [] = ret []"
| "process_items x cp up ctx n (i # is) =
     andThen (process_item x cp (up n) ctx i n) (\<lambda>s.
     andThen (process_items x cp up ctx (Suc n) is) (\<lambda>ss. ret (s # ss)))"

text \<open>The writes for the subjects that are not registered.\<close>

definition stage_pending :: "ext \<Rightarrow> string \<Rightarrow> i64 \<Rightarrow> unit work_act" where
  "stage_pending x pid received = andThen (read_work wk_pending) (\<lambda>pending.
     if pending = [] then ret ()
     else andThen (on_conn CTimeseries (stage_sightings_at x pid received pending default_staging_limits)) (\<lambda>bounded.
       andThen (on_conn CLedger (forA pending (\<lambda>g. record_sighting x (sx_hardware_id g) pid))) (\<lambda>_.
       if 0 < sa_expired_subjects bounded \<or> 0 < sa_evicted_subjects bounded
       then on_conn CLedger (record_event x ''staging_bounds'' None (json_text x (JObj
         [(''evicted_subjects'', json_int (sa_evicted_subjects bounded)), (''expired_subjects'', json_int (sa_expired_subjects bounded))])))
       else ret ())))"

text \<open>How the transaction of an envelope ends: dropped with an acknowledgement, committed, or rolled back.\<close>

datatype ending = Dropped ack_status | Committed ack_status | RolledBack ack_status

definition accept_items ::
    "ext \<Rightarrow> composition \<Rightarrow> (nat \<Rightarrow> i64) \<Rightarrow> ingest_request \<Rightarrow> bool \<Rightarrow> freshness_snapshot \<Rightarrow> ending work_act" where
  "accept_items x cp up rq commit clock =
     (let p = iq_principal rq; received = fs_received_at_ms clock in
      andThen (on_conn CLedger (ledger_epoch x)) (\<lambda>epoch.
      andThen (process_items x cp up \<lparr> ix_principal = p, ix_received_at = received, ix_clock = clock, ix_epoch = epoch \<rparr>
        0 (en_items (iq_envelope rq))) (\<lambda>statuses.
      andThen (stage_pending x (ip_principal_id p) received) (\<lambda>_.
      ret ((if commit then Committed else RolledBack) (Accepted statuses))))))"

definition envelope_rejected :: "reason_code \<Rightarrow> string \<Rightarrow> string \<Rightarrow> string \<Rightarrow> ending" where
  "envelope_rejected code msg path hint = Dropped (Rejected \<lparr> rj_reason_code = code, rj_message = msg,
     rj_field_path = Some path, rj_schema_hint = Some hint \<rparr>)"

definition envelope_body ::
    "ext \<Rightarrow> composition \<Rightarrow> (nat \<Rightarrow> i64) \<Rightarrow> ingest_request \<Rightarrow> bool \<Rightarrow> ending work_act" where
  "envelope_body x cp up rq commit =
     (let p = iq_principal rq; env = iq_envelope rq in
      andThen (authentication_is_current_at_serialization x p) (\<lambda>current.
      if \<not> current then throw AuthenticationStale
      else if en_source env \<noteq> ip_configured_source p
      then andThen (emit_intrusion cp p SourceMismatch) (\<lambda>_.
        ret (envelope_rejected SubjectScopeViolation ''configured source does not match authenticated principal''
          ''/source'' ''configured authenticated source identity''))
      else if MAX_ITEMS_PER_ENVELOPE < length (en_items env)
      then ret (envelope_rejected BatchTooLarge (''items '' @ dec_nat (length (en_items env)) @ '' > '' @ dec_nat MAX_ITEMS_PER_ENVELOPE)
        ''/items'' (''at most '' @ dec_nat MAX_ITEMS_PER_ENVELOPE @ '' items''))
      else andThen (snapshot_clock cp) (\<lambda>clock.
        if fs_trusted_wall_time_ms clock = None \<and> list_ex requires_absolute_time (en_items env)
        then throw ProcessClockUntrusted
        else andThen (on_conn CLedger (current_generation x)) (\<lambda>gen.
          andThen (change_work (refresh_cache gen)) (\<lambda>_.
          andThen (if commit then on_conn CTimeseries (try_claim_envelope_bounded_at x (ip_principal_id p) (en_envelope_id env)
              (fs_received_at_ms clock) default_dedup_limits) else ret True) (\<lambda>claimed.
          if \<not> claimed then ret (Dropped Duplicate)
          else accept_items x cp up rq commit clock))))))"

definition roll_back :: "work \<Rightarrow> work \<Rightarrow> work" where
  "roll_back w w' = with_node ((wk_node w')\<lparr> tables := wk_tables w \<rparr>) w'"

definition process_envelope_mode ::
    "ext \<Rightarrow> composition \<Rightarrow> (nat \<Rightarrow> i64) \<Rightarrow> ingest_request \<Rightarrow> bool \<Rightarrow> envelope_ack work_act" where
  "process_envelope_mode x cp up rq commit w =
     (let ack = (\<lambda>s. \<lparr> ea_envelope_id = en_envelope_id (iq_envelope rq), ea_status = s \<rparr>);
          statement = on_conn CSqlite (execute x (\<lambda>t. ((), t)))
      in case andThen statement (\<lambda>_. envelope_body x cp up rq commit) (w\<lparr> wk_pending := [] \<rparr>) of
        (Inl e, w') \<Rightarrow> (Inl e, roll_back w w')
      | (Inr (Dropped s), w') \<Rightarrow> (Inr (ack s), roll_back w w')
      | (Inr (Committed s), w') \<Rightarrow> (case statement w' of
          (Inl e, w'') \<Rightarrow> (Inl e, roll_back w w'') | (Inr _, w'') \<Rightarrow> (Inr (ack s), w''))
      | (Inr (RolledBack s), w') \<Rightarrow> (case statement w' of
          (Inl e, w'') \<Rightarrow> (Inl e, roll_back w w'') | (Inr _, w'') \<Rightarrow> (Inr (ack s), clear_cache (roll_back w w''))))"

fun item_issue :: "nat \<times> item_status \<Rightarrow> validation_issue option" where
  "item_issue (n, Stored _ _) = None"
| "item_issue (n, ItemRejected r) = Some \<lparr> vi_item_index = Some n, vi_rejection = r \<rparr>"

definition validation_report_from_ack :: "envelope_ack \<Rightarrow> validation_report" where
  "validation_report_from_ack a =
     (let issues = (case ea_status a of
          Accepted items \<Rightarrow> List.map_filter item_issue (zip [0..<length items] items)
        | Rejected r \<Rightarrow> [\<lparr> vi_item_index = None, vi_rejection = r \<rparr>]
        | Duplicate \<Rightarrow> [] | Deferred \<Rightarrow> [])
      in \<lparr> vr_envelope_id = ea_envelope_id a, vr_valid = (issues = []), vr_issues = issues \<rparr>)"

section \<open>The task\<close>

record collector =
  cl_work :: work
  cl_last_purge_ms :: i64
  cl_latch :: "(i64 \<times> bool) option"
  cl_device_faults :: device_faults
  cl_committed :: bool
  cl_dead :: bool

abbreviation cl_node :: "collector \<Rightarrow> node" where
  "cl_node c \<equiv> wk_node (cl_work c)"

definition on_collector :: "(node, 'e, 'a) act \<Rightarrow> collector \<Rightarrow> ('e + 'a) \<times> collector" where
  "on_collector m c = (case m (cl_node c) of (r, n) \<Rightarrow> (r, c\<lparr> cl_work := with_node n (cl_work c) \<rparr>))"

definition record_dedup_maintenance_transition :: "ext \<Rightarrow> i64 \<Rightarrow> bool \<Rightarrow> (node, storage_cause, unit) act" where
  "record_dedup_maintenance_transition x now failed = transaction x CSqlite (
     andThen (mapErr CTimeseries (if failed then mark_dedup_purge_failed x now else mark_dedup_purge_recovered x now)) (\<lambda>transitioned.
       if transitioned
       then mapErr CLedger (if failed
         then record_event x ''dedup_window_degraded'' None
           ''{\"state\":\"degraded\",\"operator_action\":\"Check database storage and run retention maintenance; duplicate suppression is reduced until recovery.\"}''
         else record_event x ''dedup_window_recovered'' None
           ''{\"state\":\"recovered\",\"summary\":\"configured duplicate-suppression maintenance resumed\"}'')
       else ret ()))"

definition latch_retry :: "ext \<Rightarrow> collector \<Rightarrow> bool \<times> collector" where
  "latch_retry x c = (case cl_latch c of
     None \<Rightarrow> (True, c)
   | Some (when, failed) \<Rightarrow> (case on_collector (record_dedup_maintenance_transition x when failed) c of
       (Inr _, c') \<Rightarrow> (True, c'\<lparr> cl_latch := None \<rparr>) | (Inl _, c') \<Rightarrow> (False, c')))"

definition note_purge :: "ext \<Rightarrow> i64 \<Rightarrow> bool \<Rightarrow> collector \<Rightarrow> collector" where
  "note_purge x now failed c = (case on_collector (record_dedup_maintenance_transition x now failed) c of
     (Inr _, c') \<Rightarrow> c' | (Inl _, c') \<Rightarrow> c'\<lparr> cl_latch := Some (now, failed) \<rparr>)"

definition maybe_purge_dedup :: "ext \<Rightarrow> i64 \<Rightarrow> collector \<Rightarrow> collector" where
  "maybe_purge_dedup x interval c0 = (case on_collector (now_ms x :: (node, unit, i64) act) c0 of
     (Inl _, c) \<Rightarrow> c
   | (Inr now, c) \<Rightarrow>
       if saturating_sub now (cl_last_purge_ms c) < interval then snd (latch_retry x c)
       else (case on_collector (purge_dedup_before x (now - COLLECTOR_DEDUP_TTL_MS)) (c\<lparr> cl_last_purge_ms := now \<rparr>) of
         (r, c1) \<Rightarrow> (let failed = isl r in
           if (case cl_latch c1 of Some (_, f) \<Rightarrow> \<not> f | None \<Rightarrow> False) \<and> failed
           then note_purge x now failed (c1\<lparr> cl_latch := None \<rparr>)
           else (case latch_retry x c1 of
             (False, c2) \<Rightarrow> c2 | (True, c2) \<Rightarrow> note_purge x now failed c2))))"

definition note_commit :: "composition \<Rightarrow> collector \<Rightarrow> collector" where
  "note_commit cp c = (if cp_pipelines cp = None then c
     else c\<lparr> cl_device_faults := fst (storage_write_succeeded (cl_device_faults c)), cl_committed := True \<rparr>)"

definition note_storage_failure :: "composition \<Rightarrow> i64 \<Rightarrow> storage_cause \<Rightarrow> collector \<Rightarrow> collector" where
  "note_storage_failure cp up e c = (if cp_pipelines cp = None then c
     else c\<lparr> cl_device_faults := fst (storage_write_failed (cp_storage_text cp e) up (cl_device_faults c)) \<rparr>)"

text \<open>
  One request of the queue: an envelope to submit, or one to validate. \<open>up\<close> gives the monotonic clock
  at the items, \<open>up_end\<close> after them.
\<close>

definition handle_request ::
    "ext \<Rightarrow> composition \<Rightarrow> i64 \<Rightarrow> (nat \<Rightarrow> i64) \<Rightarrow> i64 \<Rightarrow> ingest_request \<Rightarrow> bool \<Rightarrow> collector \<Rightarrow>
     (submit_error + envelope_ack) \<times> collector" where
  "handle_request x cp interval up up_end rq commit c =
     (if cl_dead c then (Inl Closed, c)
      else case process_envelope_mode x cp up rq commit (cl_work c) of
        (Inr ack, w) \<Rightarrow>
          (let c1 = c\<lparr> cl_work := w \<rparr> in
           (Inr ack, if commit then maybe_purge_dedup x interval (note_commit cp c1) else c1))
      | (Inl ProcessClockUntrusted, w) \<Rightarrow> (Inl SubmitClockUntrusted, c\<lparr> cl_work := w \<rparr>)
      | (Inl AuthenticationStale, w) \<Rightarrow> (Inl SubmitAuthenticationStale, c\<lparr> cl_work := w \<rparr>)
      | (Inl (StorageFailure e), w) \<Rightarrow>
          (let c1 = c\<lparr> cl_work := w\<lparr> wk_cache := empty_cache \<rparr> \<rparr> in
           (Inl NoAck, if commit then note_storage_failure cp up_end e c1 else c1))
      | (Inl Panicked, w) \<Rightarrow> (Inl NoAck, c\<lparr> cl_work := w, cl_dead := True \<rparr>))"

definition submit ::
    "ext \<Rightarrow> composition \<Rightarrow> i64 \<Rightarrow> (nat \<Rightarrow> i64) \<Rightarrow> i64 \<Rightarrow> ingest_request \<Rightarrow> collector \<Rightarrow> (submit_error + envelope_ack) \<times> collector" where
  "submit x cp interval up up_end rq c = handle_request x cp interval up up_end rq True c"

definition validate_envelope ::
    "ext \<Rightarrow> composition \<Rightarrow> i64 \<Rightarrow> (nat \<Rightarrow> i64) \<Rightarrow> i64 \<Rightarrow> ingest_request \<Rightarrow> collector \<Rightarrow> (submit_error + validation_report) \<times> collector" where
  "validate_envelope x cp interval up up_end rq c = (case handle_request x cp interval up up_end rq False c of
     (Inl e, c') \<Rightarrow> (Inl e, c') | (Inr ack, c') \<Rightarrow> (Inr (validation_report_from_ack ack), c'))"

end
