(* ===== verification/Frames.thy ===== *)
theory Frames
  imports Publish_Props Collector
begin

text \<open>
  What the components leave alone: the readings, the publication store and the ledger epoch are
  written by few operations, and every other operation that runs beside them keeps them.
\<close>

section \<open>The custody view\<close>

definition custody :: "tables \<Rightarrow> reading_entry list \<times> i64 \<times> publication_store \<times> string option" where
  "custody t = (readings_t (timeseries_t t), readings_autoinc (timeseries_t t), publish_t t, meta_value ''epoch'' (ledger_t t))"

text \<open>Most operations keep the devices and the series as well, and those that claim no envelope keep the claims.\<close>

definition lists where
  "lists t = (custody t, devices_t (ledger_t t), series_t (ledger_t t), series_autoinc (ledger_t t))"

definition wide where
  "wide t = (lists t, ingest_dedup_t (timeseries_t t))"

abbreviation "framed c m \<equiv> keeps (\<lambda>t. wide t = c) m"

lemma keeps_coarser: "(\<And>d. keeps (\<lambda>t. v t = d) m) \<Longrightarrow> (\<And>t t'. v t = v t' \<Longrightarrow> u t = u t') \<Longrightarrow> keeps (\<lambda>t. u t = c) m"
proof (rule keepsI)
  fix s r s' assume a: "\<And>d. keeps (\<lambda>t. v t = d) m" "\<And>t t'. v t = v t' \<Longrightarrow> u t = u t'" "u (tables s) = c" "m s = (r, s')"
  have "v (tables s') = v (tables s)" using keepsD' [OF a(1) _ a(4), of "v (tables s)"] by simp
  then show "u (tables s') = c" using a(2) [of "tables s'" "tables s"] a(3) by simp
qed

lemma narrow: "(\<And>d. framed d m) \<Longrightarrow> keeps (\<lambda>t. custody t = c) m"
  by (rule keeps_coarser [where v = wide], assumption) (simp add: wide_def lists_def)

lemma narrow_lists: "(\<And>d. keeps (\<lambda>t. lists t = d) m) \<Longrightarrow> keeps (\<lambda>t. custody t = c) m"
  by (rule keeps_coarser [where v = lists], assumption) (simp add: lists_def)

lemma framedD: "framed (wide (tables s)) m \<Longrightarrow> m s = (r, s') \<Longrightarrow> wide (tables s') = wide (tables s)"
  using keepsD' [of "\<lambda>t. wide t = wide (tables s)" m s r s'] by simp

lemma map_of_bump_meta: "k \<noteq> key \<Longrightarrow> map_of (bump_meta key m) k = map_of m k"
  by (induction m) (auto simp: bump_meta_def)

lemma meta_bump_revision [simp]: "meta_value ''epoch'' (bump_revision l) = meta_value ''epoch'' l"
  by (simp add: bump_revision_def meta_value_def map_of_bump_meta)

lemma bump_revision_rows [simp]: "devices_t (bump_revision l) = devices_t l" "series_t (bump_revision l) = series_t l"
    "series_autoinc (bump_revision l) = series_autoinc l"
  by (simp_all add: bump_revision_def)

lemma bump_revision_iter [simp]:
  "meta_value ''epoch'' ((bump_revision ^^ n) l) = meta_value ''epoch'' l"
  by (induction n) simp_all

lemma keeps_ts_sql: "(\<And>t a t'. I t \<Longrightarrow> f t = Inr (a, t') \<Longrightarrow> I t') \<Longrightarrow> keeps I (ts_sql x f)"
  unfolding ts_sql_def by (intro keeps_mapErr keeps_sql)

lemma keeps_ts_select [keeps_intros]: "keeps I (ts_select x f)"
  unfolding ts_select_def by (rule keeps_ts_sql) simp

lemma keeps_reg_sql: "(\<And>t a t'. I t \<Longrightarrow> f t = Inr (a, t') \<Longrightarrow> I t') \<Longrightarrow> keeps I (reg_sql x f)"
  unfolding reg_sql_def by (intro keeps_mapErr keeps_sql)

lemma keeps_reg_select [keeps_intros]: "keeps I (reg_select x f)"
  unfolding reg_select_def by (intro keeps_intros)

lemma keeps_case_prod_act [keeps_intros]: "(\<And>a b. keeps I (f a b)) \<Longrightarrow> keeps I (case_prod f p)"
  by (cases p) simp

lemma framed_ledger_sql:
  assumes "\<And>l a l'. f l = Inr (a, l') \<Longrightarrow> meta_value ''epoch'' l' = meta_value ''epoch'' l \<and>
    devices_t l' = devices_t l \<and> series_t l' = series_t l \<and> series_autoinc l' = series_autoinc l"
  shows "framed c (ledger_sql x f)"
  by (rule keeps_ledger_sql) (auto simp: custody_def lists_def wide_def dest!: assms)

lemma custody_ledger_sql:
  assumes "\<And>l a l'. f l = Inr (a, l') \<Longrightarrow> meta_value ''epoch'' l' = meta_value ''epoch'' l"
  shows "keeps (\<lambda>t. custody t = c) (ledger_sql x f)"
  by (rule keeps_ledger_sql) (auto simp: custody_def dest!: assms)

lemma framed_staged_sql: "framed c (staged_sql x f)"
  unfolding staged_sql_def by (auto intro!: keeps_ts_sql simp: custody_def lists_def wide_def meta_value_def split: option.splits prod.splits)

lemma framed_staged_select: "framed c (staged_select x f)"
  unfolding staged_select_def by (rule framed_staged_sql)

lemma framed_insert_staged: "framed c (insert_staged x r)"
  unfolding insert_staged_def
  by (auto intro!: keeps_ts_sql simp: custody_def lists_def wide_def meta_value_def Let_def split: option.splits if_splits)

section \<open>The ledger\<close>

lemma framed_record_event [keeps_intros]: "framed c (record_event x k i d)"
  unfolding record_event_def
  by (auto intro!: keeps_andThen keeps_now_ms framed_ledger_sql simp: Let_def meta_value_def)

lemmas custody_record_event [keeps_intros] = narrow [OF framed_record_event]

lemma framed_record_sighting [keeps_intros]: "framed c (record_sighting x hw src)"
  unfolding record_sighting_def
  by (auto intro!: keeps_andThen keeps_now_ms framed_ledger_sql simp: Let_def meta_value_def)

lemma epoch_insert_series_row: "insert_series_row r l = Inr (a, l') \<Longrightarrow> meta_value ''epoch'' l' = meta_value ''epoch'' l"
  by (auto simp: insert_series_row_def Let_def split: if_splits) (simp add: meta_value_def)

lemma custody_ensure_series [keeps_intros]: "keeps (\<lambda>t. custody t = c) (ensure_series x i key ch v q r)"
  unfolding ensure_series_def
  by (auto intro!: keeps_andThen keeps_now_ms keeps_ledger_select keeps_case_option keeps_ret
      custody_ledger_sql dest: epoch_insert_series_row)

lemma epoch_update_device_rows:
  "update_device_rows hit upd l = Inr (a, l') \<Longrightarrow> meta_value ''epoch'' l' = meta_value ''epoch'' l"
  by (auto simp: update_device_rows_def Let_def split: if_splits) (simp add: meta_value_def)

lemma custody_expire_quarantined_devices [keeps_intros]: "keeps (\<lambda>t. custody t = c) (expire_quarantined_devices x ttl)"
  unfolding expire_quarantined_devices_def expire_one_def
  by (auto intro!: keeps_andThen keeps_now_ms keeps_ledger_select keeps_ret keeps_forA custody_record_event
      custody_ledger_sql dest: epoch_update_device_rows)

lemma framed_bump_generation [keeps_intros]: "framed c (bump_generation x)"
  unfolding bump_generation_def current_generation_def
  by (auto intro!: keeps_andThen keeps_ledger_select framed_ledger_sql
      simp: meta_value_def map_of_bump_meta map_add_def split: option.splits)

lemma framed_purge_sightings [keeps_intros]: "framed c (purge_sightings x now)"
  unfolding purge_sightings_def delete_sightings_def Let_def
  by (auto intro!: keeps_andThen keeps_ledger_select keeps_ret framed_ledger_sql simp: meta_value_def)

lemma keeps_ledger_reads [keeps_intros]:
  "keeps I (find_alive_by_hardware_id x hw)" "keeps I (get_device x i)" "keeps I (current_generation x)"
  "keeps I (find_series_meta x i key c v)" "keeps I (series_exists_for_key x i key)"
  unfolding find_alive_by_hardware_id_def get_device_def current_generation_def find_series_meta_def
    series_exists_for_key_def by (rule keeps_ledger_select)+

text \<open>Reading the epoch installs one only when there is none.\<close>

lemma epoch_known:
  assumes "meta_value ''epoch'' (ledger_t (tables s)) = Some ep" "ledger_epoch x s = (r, s')"
  shows "tables s' = tables s \<and> (r = Inr e \<longrightarrow> e = ep)"
  using assms by (auto simp: ledger_epoch_def ledger_select_def ledger_sql_def mapErr_def andThen_def sql_def Let_def
      split: if_splits sum.splits)

section \<open>The registry\<close>

lemma framed_find_resolution [keeps_intros]: "keeps I (find_resolution x key)"
  unfolding find_resolution_def get_entry_def by (intro keeps_intros)

lemma framed_enable_entry [keeps_intros]: "framed c (enable_entry x txt m v tr)"
  unfolding enable_entry_def get_entry_def alias_exists_def written_entry_def
  by (intro keeps_intros keeps_reg_sql) (auto simp: insert_registry_entry_def custody_def lists_def wide_def split: if_splits)

lemma framed_evaluate_item [keeps_intros]: "framed c (evaluate_item x txt sys i)"
  unfolding evaluate_item_def resolve_item_def evaluate_resolved_def item_channel_def single_channel_def
  by (auto intro!: keeps_intros split: resolution.split channel_mode.split)

section \<open>Claims, staging and pipelines\<close>

lemma lists_set_dedup [simp]: "lists (set_dedup rows t) = lists t"
  by (simp add: lists_def custody_def set_dedup_def)

lemma wide_set_maintenance [simp]: "wide (set_maintenance m t) = wide t"
  by (simp add: wide_def lists_def custody_def set_maintenance_def)

lemma lists_evict_claims [keeps_intros]: "keeps (\<lambda>t. lists t = c) (evict_claims x sender lm)"
proof -
  have "lists (tables (snd (evict_claims x sender lm s))) = lists (tables s)" for s
  proof (induction x sender lm s rule: evict_claims.induct)
    case (1 x sender lm s)
    show ?case
      by (subst evict_claims.simps)
        (auto simp: ts_select_def ts_sql_cases 1 split: sum.splits prod.splits)
  qed
  then show ?thesis by (auto intro!: keepsI) (metis snd_conv)
qed

lemma lists_try_claim [keeps_intros]: "keeps (\<lambda>t. lists t = c) (try_claim_envelope_bounded_at x sender eid now lm)"
  unfolding try_claim_envelope_bounded_at_def Let_def
  by (intro keeps_intros keeps_ts_sql) (auto simp: insert_claim_def split: if_splits)

lemma lists_purge_dedup_before [keeps_intros]: "keeps (\<lambda>t. lists t = c) (purge_dedup_before x cutoff)"
  unfolding purge_dedup_before_def by (rule keeps_ts_sql) auto

lemma framed_dedup_maintenance [keeps_intros]:
  "framed c (mark_dedup_purge_failed x now)" "framed c (mark_dedup_purge_recovered x now)"
  unfolding mark_dedup_purge_failed_def mark_dedup_purge_recovered_def Let_def
  by (intro keeps_intros keeps_ts_sql; auto)+

lemma framed_evict_staged [keeps_intros]: "framed c (evict_staged x pid rows bytes lm protected removed)"
proof -
  have pressure: "framed c (staging_pressure x pid rows bytes lm)" for c
    unfolding staging_pressure_def staging_health_of_def principal_usage_def i64_of_health_def Let_def
    by (intro keeps_intros framed_staged_select)
  have victim: "framed c (staging_victim x pid protected over)" for c over
    unfolding staging_victim_def oldest_evictable_staging_subject_def
    by (intro keeps_intros framed_staged_select framed_staged_sql)
  have "wide (tables (snd (evict_staged x pid rows bytes lm protected removed s))) = wide (tables s)" for s
  proof (induction "length (staged_of s)" arbitrary: removed s rule: less_induct)
    case less
    obtain r1 s1 where p: "staging_pressure x pid rows bytes lm s = (r1, s1)" by fastforce
    note w1 = framedD [OF pressure p]
    show ?case
    proof (cases r1)
      case (Inl e)
      then show ?thesis using w1 by (subst evict_staged.simps) (simp add: p)
    next
      case (Inr o1)
      obtain po go where o1: "o1 = (po, go)" by fastforce
      have s1: "staged_of s1 = staged_of s"
        using staging_pressure_state [of x pid rows bytes lm s o1 s1] p Inr by (simp add: staged_of_def)
      obtain r2 s2 where v: "staging_victim x pid protected po s1 = (r2, s2)" by fastforce
      note w2 = framedD [OF victim v]
      show ?thesis
      proof (cases r2)
        case (Inl e)
        then show ?thesis using w1 w2 Inr by (subst evict_staged.simps) (simp add: p v o1)
      next
        case (Inr sub)
        have "length (staged_of s2) < length (staged_of s)" using victim_shorter [of x pid protected po s1 sub s2] v Inr s1 by simp
        from less [OF this, of "removed @ [sub]"] show ?thesis
          using w1 w2 Inr \<open>r1 = Inr o1\<close> by (subst evict_staged.simps) (simp add: p v o1)
      qed
    qed
  qed
  then show ?thesis by (auto intro!: keepsI) (metis snd_conv)
qed

lemma framed_inherited_pins [keeps_intros]: "framed c (inherited_pins x pid gs rows bytes)"
  by (induction x pid gs rows bytes rule: inherited_pins.induct; unfold inherited_pins.simps;
      intro keeps_intros framed_staged_select; (assumption | auto intro!: keeps_intros split: option.split)?)

lemma framed_insert_sightings [keeps_intros]: "framed c (insert_sightings x pid received gs)"
  unfolding insert_sightings_def by (rule keeps_forA) (auto intro!: framed_insert_staged)

lemma framed_stage_sightings_at [keeps_intros]: "framed c (stage_sightings_at x pid received gs lm)"
  unfolding stage_sightings_at_def validate_inherited_pin_capacity_def staging_health_of_def principal_pins_def
    delete_sighting_if_unstaged_def Let_def
  by (intro keeps_intros framed_staged_select framed_staged_sql keeps_ts_sql)
    (auto simp: custody_def lists_def wide_def meta_value_def split: option.splits)

subsection \<open>Pipelines\<close>

lemma keeps_isolate [keeps_intros]: "keeps I m \<Longrightarrow> keeps I (isolate m)"
  by (rule keepsI) (auto simp: isolate_def split: prod.splits sum.splits engine_error.splits dest: keepsD')

lemma framed_enqueue [keeps_intros]: "framed c (enqueue x i topic payload retain when)"
  unfolding enqueue_def by (rule keeps_execute) (simp add: wide_def lists_def custody_def add_row_def)

lemma framed_publish [keeps_intros]: "framed c (publish x node d st v when)"
  unfolding publish_def Let_def by (intro keeps_intros)

lemma framed_put_state [keeps_intros]: "framed c (put_state x i st now)"
  unfolding put_state_def by (intro keeps_intros keeps_sql) (auto simp: wide_def lists_def custody_def split: if_splits)

lemma keeps_get_state [keeps_intros]: "keeps I (get_state x i)"
  unfolding get_state_def by (intro keeps_intros)

lemma framed_start_series [keeps_intros]: "framed c (start_series x node d now)"
  unfolding start_series_def Let_def by (intro keeps_intros)

lemma framed_process [keeps_intros]: "framed c (process x node d v now)"
  unfolding process_def usable_state_def restart_series_def Let_def by (intro keeps_intros)

lemma framed_deliver [keeps_intros]: "framed c (deliver x node reading)"
  unfolding deliver_def deliver_one_def definitions_for_input_def Let_def by (intro keeps_intros)

lemmas custody_frames [keeps_intros] = narrow [OF framed_record_sighting] narrow [OF framed_bump_generation]
  narrow [OF framed_purge_sightings] narrow [OF framed_evaluate_item] narrow_lists [OF lists_try_claim]
  narrow_lists [OF lists_purge_dedup_before] narrow [OF framed_dedup_maintenance(1)] narrow [OF framed_dedup_maintenance(2)]
  narrow [OF framed_stage_sightings_at] narrow [OF framed_deliver]

end
