(* ===== verification/Timeseries_Props.thy ===== *)
theory Timeseries_Props
  imports Timeseries Ledger_Props
begin

text \<open>
  Correctness of the readings store: the deduplication window is bounded, remembers a claim and
  evicts the oldest claims first; staging stays within its row and byte limits and never gives up a
  pinned subject.
\<close>

section \<open>Deduplication\<close>

abbreviation claims_of :: "string \<Rightarrow> dedup_entry list \<Rightarrow> dedup_entry list" where
  "claims_of sender rows \<equiv> filter (\<lambda>r. dd_sender_id r = sender) rows"

definition claim_id :: "dedup_entry \<Rightarrow> string \<times> string" where
  "claim_id r = (dd_sender_id r, dd_envelope_id r)"

lemma claim_key_id: "claim_key sender eid r \<longleftrightarrow> claim_id r = (sender, eid)"
  by (simp add: claim_key_def claim_id_def)

text \<open>The keys of the table, and the window's bounds.\<close>

definition keys_ok :: "dedup_entry list \<Rightarrow> bool" where
  "keys_ok rows \<longleftrightarrow> distinct (map dd_rowid rows) \<and> distinct (map claim_id rows) \<and> (\<forall>r\<in>set rows. 0 < dd_rowid r)"

definition window_ok :: "dedup_limits \<Rightarrow> dedup_entry list \<Rightarrow> bool" where
  "window_ok lm rows \<longleftrightarrow> keys_ok rows \<and> int (length rows) \<le> db_global_rows (dedup_of lm) \<and>
     (\<forall>sender. int (length (claims_of sender rows)) \<le> db_principal_rows (dedup_of lm))"

lemma keys_ok_filter: "keys_ok rows \<Longrightarrow> keys_ok (filter P rows)"
  by (auto simp: keys_ok_def distinct_map_filter)

lemma length_filter_filter: "length (filter Q (filter P xs)) \<le> length (filter Q xs)"
  by (induction xs) auto

lemma window_ok_filter:
  assumes "window_ok lm rows"
  shows "window_ok lm (filter P rows)"
proof -
  have "int (length (claims_of sender (filter P rows))) \<le> db_principal_rows (dedup_of lm)" for sender
  proof -
    have "int (length (claims_of sender rows)) \<le> db_principal_rows (dedup_of lm)" using assms by (simp add: window_ok_def)
    then show ?thesis using length_filter_filter [of "\<lambda>r. dd_sender_id r = sender" P rows] by linarith
  qed
  moreover have "int (length (filter P rows)) \<le> db_global_rows (dedup_of lm)"
    using assms length_filter_le [of P rows] unfolding window_ok_def by linarith
  ultimately show ?thesis using assms by (simp add: window_ok_def keys_ok_filter)
qed

lemma delete_oldest_filter: "\<exists>P'. delete_oldest P rows = filter P' rows"
proof (cases "sort_key (\<lambda>r. (dd_received_at r, dd_rowid r)) (filter P rows)")
  case Nil
  then have "delete_oldest P rows = filter (\<lambda>_. True) rows" by (simp add: delete_oldest_def)
  then show ?thesis by blast
next
  case (Cons r rs)
  then show ?thesis by (auto simp: delete_oldest_def)
qed

lemma fold_max_bound: "r \<in> set rows \<Longrightarrow> dd_rowid r \<le> fold (\<lambda>r m. max m (dd_rowid r)) rows k"
  and fold_max_start: "k \<le> fold (\<lambda>r m. max m (dd_rowid r)) rows k"
proof -
  show start: "k \<le> fold (\<lambda>r m. max m (dd_rowid r)) rows k" for k rows
    by (induction rows arbitrary: k) (auto intro: order_trans [OF max.cobounded1])
  show "r \<in> set rows \<Longrightarrow> dd_rowid r \<le> fold (\<lambda>r m. max m (dd_rowid r)) rows k"
  proof (induction rows arbitrary: k)
    case (Cons q rows)
    then show ?case using start [of "max k (dd_rowid q)" rows] by auto
  qed simp
qed

lemma next_rowid_fresh: "r \<in> set rows \<Longrightarrow> dd_rowid r < next_rowid rows" "0 < next_rowid rows"
  using fold_max_bound [of r rows 0] fold_max_start [of 0 rows] by (auto simp: next_rowid_def)

text \<open>A statement on the window leaves every other table alone.\<close>

definition other_than_dedup :: "tables \<Rightarrow> tables" where
  "other_than_dedup t = set_dedup [] t"

lemma set_dedup_simps [simp]:
  "dedup_rows (set_dedup rows t) = rows" "other_than_dedup (set_dedup rows t) = other_than_dedup t"
  by (simp_all add: set_dedup_def other_than_dedup_def)

lemma evict_claims_spec:
  assumes "evict_claims x sender lm s = (Inr (), s')"
  shows "(\<exists>P. dedup_rows (tables s') = filter P (dedup_rows (tables s))) \<and>
    int (length (claims_of sender (dedup_rows (tables s')))) < db_principal_rows (dedup_of lm) \<and>
    int (length (dedup_rows (tables s'))) < db_global_rows (dedup_of lm) \<and>
    other_than_dedup (tables s') = other_than_dedup (tables s)"
  using assms
proof (induction x sender lm s rule: evict_claims.induct)
  case (1 x sender lm s)
  let ?rows = "dedup_rows (tables s)"
  let ?pc = "int (length (claims_of sender ?rows))"
  let ?P = "if db_principal_rows (dedup_of lm) \<le> ?pc then (\<lambda>r. dd_sender_id r = sender) else (\<lambda>_. True)"
  have nf: "\<not> sql_fault x (sql_step s)" "\<not> sql_fault x (Suc (sql_step s))"
    using "1.prems" by (auto simp: evict_claims.simps [of x sender lm s] ts_select_def ts_sql_cases split: if_splits)
  show ?case
  proof (cases "?pc < db_principal_rows (dedup_of lm) \<and> int (length ?rows) < db_global_rows (dedup_of lm)")
    case True
    then have "s' = s\<lparr> sql_step := Suc (Suc (sql_step s)) \<rparr>"
      using "1.prems" nf by (simp add: evict_claims.simps [of x sender lm s] ts_select_def ts_sql_cases)
    then show ?thesis using True by (auto intro: exI [of _ "\<lambda>_. True"])
  next
    case False
    define s3 where "s3 = s\<lparr> sql_step := Suc (Suc (Suc (sql_step s))), tables := set_dedup (delete_oldest ?P ?rows) (tables s) \<rparr>"
    have run: "\<not> sql_fault x (Suc (Suc (sql_step s)))" "evict_claims x sender lm s3 = (Inr (), s')"
      using "1.prems" nf False
      by (auto simp: evict_claims.simps [of x sender lm s] ts_select_def ts_sql_cases s3_def split: if_splits)
    have ih: "(\<exists>P. dedup_rows (tables s') = filter P (dedup_rows (tables s3))) \<and>
      int (length (claims_of sender (dedup_rows (tables s')))) < db_principal_rows (dedup_of lm) \<and>
      int (length (dedup_rows (tables s'))) < db_global_rows (dedup_of lm) \<and>
      other_than_dedup (tables s') = other_than_dedup (tables s3)"
      by (rule "1.IH" [OF _ _ _ _ _ _ _ run(2)])
        (insert nf run(1) False, auto simp: ts_select_def ts_sql_cases s3_def)
    obtain P1 P2 where "dedup_rows (tables s') = filter P1 (dedup_rows (tables s3))" "delete_oldest ?P ?rows = filter P2 ?rows"
      using ih delete_oldest_filter by blast
    then have "dedup_rows (tables s') = filter (\<lambda>r. P2 r \<and> P1 r) ?rows" by (simp add: s3_def)
    then show ?thesis using ih by (auto simp: s3_def)
  qed
qed

lemma count_keyed:
  assumes "keys_ok rows" "length (filter (\<lambda>r. claim_key sender eid r \<and> Q r) rows) \<noteq> 1"
  shows "\<forall>r\<in>set rows. claim_key sender eid r \<longrightarrow> \<not> Q r"
proof (rule ccontr)
  assume "\<not> ?thesis"
  then obtain r where r: "r \<in> set rows" "claim_key sender eid r" "Q r" by blast
  let ?fs = "filter (\<lambda>r. claim_key sender eid r \<and> Q r) rows"
  have "distinct (map claim_id ?fs)" using assms(1) by (auto simp: keys_ok_def distinct_map_filter)
  then have "card (claim_id ` set ?fs) = length ?fs" by (metis distinct_card length_map set_map)
  moreover have "claim_id ` set ?fs = {(sender, eid)}" using r by (auto simp: claim_key_id image_iff)
  ultimately show False using assms(2) by simp
qed

definition renewed :: "string \<Rightarrow> string \<Rightarrow> i64 \<Rightarrow> dedup_entry \<Rightarrow> dedup_entry" where
  "renewed sender eid now r = (if claim_key sender eid r \<and> dd_received_at r < now then r\<lparr> dd_received_at := now \<rparr> else r)"

text \<open>The three ways in which a claim returns.\<close>

lemma claim_cases:
  assumes "try_claim_envelope_bounded_at x sender eid now lm s = (Inr b, s')" "keys_ok (dedup_rows (tables s))"
  obtains (known) r where "\<not> b" "tables s' = tables s" "r \<in> set (dedup_rows (tables s))" "claim_key sender eid r"
      "saturating_sub now (db_max_age_ms (dedup_of lm)) \<le> dd_received_at r"
  | (refreshed) r where b "dedup_rows (tables s') = map (renewed sender eid now) (dedup_rows (tables s))"
      "r \<in> set (dedup_rows (tables s))" "claim_key sender eid r" "dd_received_at r < now"
      "other_than_dedup (tables s') = other_than_dedup (tables s)"
  | (fresh) P rows where b "rows = filter P (dedup_rows (tables s))"
      "dedup_rows (tables s') = rows @ [\<lparr> dd_rowid = next_rowid rows, dd_sender_id = sender, dd_envelope_id = eid, dd_received_at = now \<rparr>]"
      "int (length (claims_of sender rows)) < db_principal_rows (dedup_of lm)"
      "int (length rows) < db_global_rows (dedup_of lm)" "\<not> list_ex (claim_key sender eid) rows"
      "other_than_dedup (tables s') = other_than_dedup (tables s)"
proof -
  let ?rows = "dedup_rows (tables s)" and ?cut = "saturating_sub now (db_max_age_ms (dedup_of lm))"
  let ?old = "\<lambda>r. claim_key sender eid r \<and> dd_received_at r < now"
  note def = try_claim_envelope_bounded_at_def Let_def andThen_eq_Inr ts_select_Inr ts_sql_Inr ret_apply renewed_def [symmetric]
  show thesis
  proof (cases "list_ex (\<lambda>r. claim_key sender eid r \<and> ?cut \<le> dd_received_at r) ?rows")
    case True
    then have "\<not> b" "tables s' = tables s" using assms(1) by (auto simp: def)
    then show thesis using True known by (auto simp: list_ex_iff)
  next
    case False
    show thesis
    proof (cases "length (filter ?old ?rows) = 1")
      case True
      then have "filter ?old ?rows \<noteq> []" by auto
      then obtain r where "r \<in> set ?rows" "?old r" by (auto simp: filter_empty_conv)
      then show thesis using refreshed [of r] assms(1) False True by (auto simp: def)
    next
      case other: False
      have same: "map (renewed sender eid now) ?rows = ?rows"
        using count_keyed [OF assms(2) other] by (intro map_idI) (auto simp: renewed_def)
      define s1 where "s1 = s\<lparr> sql_step := Suc (Suc (sql_step s)), tables := set_dedup ?rows (tables s) \<rparr>"
      obtain s2 t where run: b "evict_claims x sender lm s1 = (Inr (), s2)"
          "insert_claim sender eid now (tables s2) = Inr ((), t)" "tables s' = t"
        using assms(1) False other by (auto simp: def same s1_def simp del: One_nat_def)
      have ins: "\<not> list_ex (claim_key sender eid) (dedup_rows (tables s2))"
          "dedup_rows (tables s') = dedup_rows (tables s2) @ [\<lparr> dd_rowid = next_rowid (dedup_rows (tables s2)), dd_sender_id = sender,
             dd_envelope_id = eid, dd_received_at = now \<rparr>]"
          "other_than_dedup (tables s') = other_than_dedup (tables s2)"
        using run(3) unfolding run(4) by (auto simp: insert_claim_def split: if_splits)
      obtain P where "dedup_rows (tables s2) = filter P ?rows" using evict_claims_spec [OF run(2)] by (auto simp: s1_def)
      then show thesis using evict_claims_spec [OF run(2)] run(1) ins
        by (intro fresh [of "dedup_rows (tables s2)" P]) (simp_all add: s1_def)
    qed
  qed
qed

lemma renewed_keys: "claim_id (renewed sender eid now r) = claim_id r" "dd_rowid (renewed sender eid now r) = dd_rowid r"
    "dd_sender_id (renewed sender eid now r) = dd_sender_id r"
  by (simp_all add: renewed_def claim_id_def)

lemma window_ok_renewed: "window_ok lm rows \<Longrightarrow> window_ok lm (map (renewed sender eid now) rows)"
  by (auto simp: window_ok_def keys_ok_def filter_map o_def renewed_keys)

lemma window_ok_add:
  assumes "window_ok lm rows" "int (length (claims_of sender rows)) < db_principal_rows (dedup_of lm)"
    "int (length rows) < db_global_rows (dedup_of lm)" "\<not> list_ex (claim_key sender eid) rows"
  shows "window_ok lm (rows @ [\<lparr> dd_rowid = next_rowid rows, dd_sender_id = sender, dd_envelope_id = eid, dd_received_at = now \<rparr>])"
proof -
  have "next_rowid rows \<notin> dd_rowid ` set rows" using next_rowid_fresh(1) by fastforce
  moreover have "(sender, eid) \<notin> claim_id ` set rows" using assms(4) by (auto simp: list_ex_iff claim_key_id)
  ultimately show ?thesis using assms(1-3) next_rowid_fresh(2) [of rows]
    by (auto simp: window_ok_def keys_ok_def claim_id_def [of "\<lparr> dd_rowid = _, dd_sender_id = _, dd_envelope_id = _, dd_received_at = _ \<rparr>"])
qed

lemma claim_window:
  assumes "window_ok lm (dedup_rows (tables s))" "try_claim_envelope_bounded_at x sender eid now lm s = (Inr b, s')"
  shows "window_ok lm (dedup_rows (tables s'))"
proof -
  have keys: "keys_ok (dedup_rows (tables s))" using assms(1) by (simp add: window_ok_def)
  from assms(2) keys show ?thesis
  proof (cases rule: claim_cases)
    case (known r)
    then show ?thesis using assms(1) by simp
  next
    case (refreshed r)
    then show ?thesis using window_ok_renewed [OF assms(1)] by simp
  next
    case (fresh P rows)
    have "window_ok lm rows" using fresh(2) window_ok_filter [OF assms(1)] by simp
    then show ?thesis unfolding fresh(3) by (rule window_ok_add [OF _ fresh(4,5,6)])
  qed
qed

lemma claim_recorded:
  assumes "keys_ok (dedup_rows (tables s))" "try_claim_envelope_bounded_at x sender eid now lm s = (Inr True, s')"
  shows "\<exists>r\<in>set (dedup_rows (tables s')). claim_key sender eid r \<and> dd_received_at r = now"
  using assms(2,1)
proof (cases rule: claim_cases)
  case (refreshed r)
  then have "renewed sender eid now r \<in> set (dedup_rows (tables s'))" "claim_key sender eid (renewed sender eid now r)"
      "dd_received_at (renewed sender eid now r) = now"
    by (auto simp: renewed_def claim_key_def)
  then show ?thesis by blast
qed (auto simp: claim_key_def)

section \<open>Staging\<close>

abbreviation of_principal :: "string \<Rightarrow> staged_entry list \<Rightarrow> staged_entry list" where
  "of_principal p es \<equiv> filter (\<lambda>r. st_principal_id r = p) es"

text \<open>Rows within a row limit and a byte limit.\<close>

definition fits :: "i64 \<Rightarrow> i64 \<Rightarrow> staged_entry list \<Rightarrow> bool" where
  "fits max_rows max_bytes es \<longleftrightarrow> int (length es) \<le> max_rows \<and> bytes_of es \<le> max_bytes"

definition sizes_ok :: "staged_entry list \<Rightarrow> bool" where
  "sizes_ok es \<longleftrightarrow> (\<forall>r\<in>set es. 0 \<le> st_payload_bytes r)"

text \<open>The bounds of the node and of each principal, without and with the reserve taken off for pinned rows.\<close>

definition usage_ok :: "staging_limits \<Rightarrow> staged_entry list \<Rightarrow> bool" where
  "usage_ok lm es \<longleftrightarrow> (let b = staging_of lm in
     fits (sb_global_rows b) (sb_global_bytes b) es \<and>
     (\<forall>p. fits (sb_principal_rows b) (sb_principal_bytes b) (of_principal p es)))"

definition pins_ok :: "staging_limits \<Rightarrow> staged_entry list \<Rightarrow> bool" where
  "pins_ok lm es \<longleftrightarrow> (let b = staging_of lm; ps = filter st_pinned es in
     fits (sb_global_rows b - sb_reserve_rows b) (sb_global_bytes b - sb_reserve_bytes b) ps \<and>
     (\<forall>p. fits (sb_principal_rows b - sb_reserve_rows b) (sb_principal_bytes b - sb_reserve_bytes b) (of_principal p ps)))"

text \<open>The rows of a subject are pinned together.\<close>

definition uniform_pins :: "staged_entry list \<Rightarrow> bool" where
  "uniform_pins es \<longleftrightarrow> (\<forall>r\<in>set es. \<forall>q\<in>set es. subject_of r = subject_of q \<longrightarrow> st_pinned r = st_pinned q)"

definition staging_ok :: "staging_limits \<Rightarrow> staged_entry list \<Rightarrow> bool" where
  "staging_ok lm es \<longleftrightarrow> sizes_ok es \<and> usage_ok lm es \<and> pins_ok lm es \<and> uniform_pins es"

text \<open>Limits that leave room for saturating arithmetic.\<close>

definition below_max :: "staging_limits \<Rightarrow> bool" where
  "below_max lm \<longleftrightarrow> sb_global_rows (staging_of lm) < i64_max \<and> sb_global_bytes (staging_of lm) < i64_max"

lemma bytes_of_simps [simp]: "bytes_of [] = 0" "bytes_of (r # es) = st_payload_bytes r + bytes_of es"
    "bytes_of (es @ fs) = bytes_of es + bytes_of fs"
  by (simp_all add: bytes_of_def)

lemma bytes_filter: "sizes_ok es \<Longrightarrow> bytes_of (filter P es) \<le> bytes_of es"
  by (induction es) (auto simp: sizes_ok_def)

lemma bytes_nonneg: "sizes_ok es \<Longrightarrow> 0 \<le> bytes_of es"
  by (induction es) (auto simp: sizes_ok_def)

lemma sizes_filter: "sizes_ok es \<Longrightarrow> sizes_ok (filter P es)"
  by (auto simp: sizes_ok_def)

lemma fits_filter: "fits m k es \<Longrightarrow> sizes_ok es \<Longrightarrow> fits m k (filter P es)"
  using length_filter_le [of P es] bytes_filter [of es P] unfolding fits_def by linarith

lemma filter_swap: "filter P (filter Q es) = filter Q (filter P es)"
  by (simp add: conj_commute)

lemma usage_filter: "usage_ok lm es \<Longrightarrow> sizes_ok es \<Longrightarrow> usage_ok lm (filter P es)"
  unfolding usage_ok_def Let_def filter_swap [of _ P] by (auto intro: fits_filter sizes_filter simp del: filter_filter)

lemma pins_filter: "pins_ok lm es \<Longrightarrow> sizes_ok es \<Longrightarrow> pins_ok lm (filter P es)"
  unfolding pins_ok_def Let_def filter_swap [of st_pinned P] filter_swap [of _ P] by (auto intro: fits_filter sizes_filter simp del: filter_filter)

lemma uniform_filter: "uniform_pins es \<Longrightarrow> uniform_pins (filter P es)"
  by (simp add: uniform_pins_def)

lemma staging_ok_filter: "staging_ok lm es \<Longrightarrow> staging_ok lm (filter P es)"
  by (auto simp: staging_ok_def usage_filter pins_filter uniform_filter sizes_filter)

lemma sat_le: "saturating_add a b \<le> k \<Longrightarrow> k < i64_max \<Longrightarrow> a + b \<le> k"
  by (auto simp: saturating_add_def clamp_i64_def)

lemma staging_of_ok: "staging_bounds_ok (staging_of lm)"
  using staging_of [of lm] by simp

lemma below_max_all:
  "below_max lm \<Longrightarrow> sb_principal_rows (staging_of lm) < i64_max \<and> sb_principal_bytes (staging_of lm) < i64_max"
  using staging_of_ok [of lm] by (auto simp: below_max_def staging_bounds_ok_def)

text \<open>The test of the eviction loop, on the rows.\<close>

definition over_principal :: "staging_limits \<Rightarrow> string \<Rightarrow> i64 \<Rightarrow> i64 \<Rightarrow> staged_entry list \<Rightarrow> bool" where
  "over_principal lm pid rows bytes es \<longleftrightarrow> (let b = staging_of lm; mine = of_principal pid es in
     sb_principal_rows b < saturating_add (int (length mine)) rows \<or> sb_principal_bytes b < saturating_add (bytes_of mine) bytes)"

definition over_global :: "staging_limits \<Rightarrow> i64 \<Rightarrow> i64 \<Rightarrow> staged_entry list \<Rightarrow> bool" where
  "over_global lm rows bytes es \<longleftrightarrow> (let b = staging_of lm in
     sb_global_rows b < saturating_add (int (length es)) rows \<or> sb_global_bytes b < saturating_add (max (bytes_of es) 0) bytes)"

lemma i64_of_health_Inr: "i64_of_health w n s = (Inr v, s') \<longleftrightarrow> in_i64 (int n) \<and> v = int n \<and> s' = s"
  by (auto simp: i64_of_health_def i64_try_from_u64_def in_i64_def i64_min_def i64_max_def)

lemma staging_pressure_Inr:
  assumes "staging_pressure x pid rows bytes lm s = (Inr (po, go), s')"
  shows "tables s' = tables s" "po = over_principal lm pid rows bytes (staged_of s)" "go = over_global lm rows bytes (staged_of s)"
    "staged_readings_t (ledger_t (tables s)) = Some (staged_of s)"
proof -
  obtain es where es: "staged_readings_t (ledger_t (tables s)) = Some es" "tables s' = tables s"
      "po = over_principal lm pid rows bytes es" "go = over_global lm rows bytes es"
    using assms unfolding staging_pressure_def staging_health_of_def principal_usage_def Let_def andThen_eq_Inr staged_select_Inr
      i64_of_health_Inr over_principal_def over_global_def health_of_def
    by (elim exE conjE) (simp add: i64_of_health_Inr andThen_eq_Inr, fastforce)
  then show "tables s' = tables s" "po = over_principal lm pid rows bytes (staged_of s)" "go = over_global lm rows bytes (staged_of s)"
    "staged_readings_t (ledger_t (tables s)) = Some (staged_of s)" by (simp_all add: staged_of_def)
qed

lemma rows_of_filter: "sub \<notin> set ev \<Longrightarrow> rows_of sub (filter (\<lambda>r. subject_of r \<notin> set ev) es) = rows_of sub es"
  by (induction es) (auto simp: rows_of_def)

lemma evict_staged_spec:
  assumes "evict_staged x pid rows bytes lm protected removed s = (Inr removed', s')"
  shows "\<exists>ev. removed' = removed @ ev \<and> staged_of s' = filter (\<lambda>r. subject_of r \<notin> set ev) (staged_of s) \<and>
    (\<forall>sub\<in>set ev. sub \<notin> set protected \<and> \<not> list_ex st_pinned (rows_of sub (staged_of s))) \<and>
    \<not> over_principal lm pid rows bytes (staged_of s') \<and> \<not> over_global lm rows bytes (staged_of s') \<and>
    staged_readings_t (ledger_t (tables s')) = Some (staged_of s')"
  using assms
proof (induction x pid rows bytes lm protected removed s rule: evict_staged.induct)
  case (1 x pid rows bytes lm protected removed s)
  obtain po go s1 where p: "staging_pressure x pid rows bytes lm s = (Inr (po, go), s1)"
    using "1.prems" by (auto simp: evict_staged.simps [of x pid rows bytes lm protected removed s] split: prod.splits sum.splits)
  note pr = staging_pressure_Inr [OF p]
  have st: "staged_of s1 = staged_of s" using pr(1) by (simp add: staged_of_def)
  show ?case
  proof (cases "po \<or> go")
    case False
    then have "removed' = removed" "s' = s1"
      using "1.prems" p by (auto simp: evict_staged.simps [of x pid rows bytes lm protected removed s])
    then show ?thesis using False pr st by (intro exI [of _ "[]"]) simp
  next
    case True
    obtain v s2 where v: "staging_victim x pid protected po s1 = (Inr v, s2)"
        "evict_staged x pid rows bytes lm protected (removed @ [v]) s2 = (Inr removed', s')"
      using "1.prems" p True
      by (auto simp: evict_staged.simps [of x pid rows bytes lm protected removed s] split: prod.splits sum.splits if_splits)
    note vi = staging_victim_Inr [OF v(1)]
    obtain ev where ev: "removed' = (removed @ [v]) @ ev" "staged_of s' = filter (\<lambda>r. subject_of r \<notin> set ev) (staged_of s2)"
        "\<forall>sub\<in>set ev. sub \<notin> set protected \<and> \<not> list_ex st_pinned (rows_of sub (staged_of s2))"
        "\<not> over_principal lm pid rows bytes (staged_of s')" "\<not> over_global lm rows bytes (staged_of s')"
        "staged_readings_t (ledger_t (tables s')) = Some (staged_of s')"
      using "1.IH" [OF p [symmetric] refl refl _ v(1) [symmetric] refl v(2)] True by auto
    have ev2: "rows_of sub (staged_of s2) = rows_of sub (staged_of s)" if "sub \<noteq> v" for sub
      using rows_of_filter [of sub "[v]" "staged_of s"] that vi(1) st by simp
    have "staged_of s' = filter (\<lambda>r. subject_of r \<notin> set (v # ev)) (staged_of s)"
      unfolding ev(2) vi(1) st by (auto intro: filter_cong)
    moreover have "\<forall>sub\<in>set (v # ev). sub \<notin> set protected \<and> \<not> list_ex st_pinned (rows_of sub (staged_of s))"
      using ev(3) vi(3,5) st ev2 by (metis set_ConsD)
    ultimately show ?thesis using ev(1,4,5,6) by (intro exI [of _ "v # ev"]) simp
  qed
qed

text \<open>The parts of a batch.\<close>

lemma collect_rows_all2: "collect_rows f xs = Inr ys \<Longrightarrow> list_all2 (\<lambda>a b. f a = Inr b) xs ys"
  by (induction xs arbitrary: ys) (auto split: sum.splits)

lemma checked_total_Inr: "checked_total acc bs = Inr n \<Longrightarrow> n = acc + sum_list bs"
  by (induction bs arbitrary: acc) (fastforce simp: checked_add_def split: if_splits)+

lemma batch_size_Inr:
  assumes "batch_size gs = Inr (rows, sizes, bytes)"
  shows "rows = int (length gs)" "sizes = map (\<lambda>g. int (length (sx_payload_json g))) gs" "bytes = sum_list sizes"
proof -
  have p: "payload_sizes gs = Inr sizes" "checked_total 0 sizes = Inr bytes" "rows = int (length gs)"
    using assms by (auto simp: batch_size_def i64_try_from_u64_def split: option.splits sum.splits if_splits)
  then show "rows = int (length gs)" "bytes = sum_list sizes" using checked_total_Inr [of 0 sizes bytes] by simp_all
  have "list_all2 (\<lambda>g b. b = int (length (sx_payload_json g))) gs sizes"
    using p(1) unfolding payload_sizes_def
    by (intro list_all2_mono [OF collect_rows_all2]) (auto simp: i64_try_from_u64_def split: option.splits if_splits)
  then show "sizes = map (\<lambda>g. int (length (sx_payload_json g))) gs"
    by (auto simp: list_all2_conv_all_nth intro: nth_equalityI)
qed

definition pin_of :: "string \<Rightarrow> staged_entry list \<Rightarrow> staged_sighting \<Rightarrow> bool" where
  "pin_of pid es g = list_ex st_pinned (rows_of (pid, sx_hardware_id g) es)"

lemma inherited_pins_Inr:
  assumes "inherited_pins x pid gs r b s = (Inr (ps, r', b'), s')"
    "staged_readings_t (ledger_t (tables s)) = Some es"
  shows "tables s' = tables s \<and> ps = map (\<lambda>(g, n). pin_of pid es g) gs \<and>
    r' = r + int (length (filter (\<lambda>(g, n). pin_of pid es g) gs)) \<and>
    b' = b + sum_list (map snd (filter (\<lambda>(g, n). pin_of pid es g) gs))"
  using assms
proof (induction gs arbitrary: r b s ps)
  case (Cons gn gs)
  obtain g n where gn: "gn = (g, n)" by (cases gn)
  let ?s = "s\<lparr> sql_step := Suc (sql_step s) \<rparr>"
  show ?case
  proof (cases "pin_of pid es g")
    case True
    then obtain ps' where "ps = True # ps'" "inherited_pins x pid gs (r + 1) (b + n) ?s = (Inr (ps', r', b'), s')"
      using Cons.prems by (auto simp: gn andThen_eq_Inr staged_select_Inr pin_of_def checked_add_def split: if_splits)
    then show ?thesis using Cons.IH [of "r + 1" "b + n" ?s ps'] Cons.prems(2) True by (simp add: gn)
  next
    case False
    then obtain ps' where "ps = False # ps'" "inherited_pins x pid gs r b ?s = (Inr (ps', r', b'), s')"
      using Cons.prems by (auto simp: gn andThen_eq_Inr staged_select_Inr pin_of_def)
    then show ?thesis using Cons.IH [of r b ?s ps'] Cons.prems(2) False by (simp add: gn)
  qed
qed simp

text \<open>The rows a batch adds.\<close>

definition row_shape :: "staged_entry \<Rightarrow> string \<times> string \<times> i64 \<times> bool" where
  "row_shape r = (st_principal_id r, st_hardware_id r, st_payload_bytes r, st_pinned r)"

lemma insert_staged_Inr:
  assumes "insert_staged x r s = (Inr u, s')" "staged_readings_t (ledger_t (tables s)) = Some es"
  shows "\<exists>n. staged_readings_t (ledger_t (tables s')) = Some (es @ [r\<lparr> st_id := n \<rparr>]) \<and> 0 \<le> st_payload_bytes r"
  using assms by (auto simp: insert_staged_def ts_sql_Inr Let_def split: if_splits)

lemma insert_sightings_Inr:
  assumes "insert_sightings x pid received gs s = (Inr u, s')" "staged_readings_t (ledger_t (tables s)) = Some es"
  shows "\<exists>new. staged_readings_t (ledger_t (tables s')) = Some (es @ new) \<and>
    map row_shape new = map (\<lambda>((g, b), p). (pid, sx_hardware_id g, b, p)) gs \<and> sizes_ok new"
  using assms
proof (induction gs arbitrary: s es u)
  case Nil
  then show ?case by (simp add: insert_sightings_def sizes_ok_def)
next
  case (Cons gb gs)
  obtain g b p where gb: "gb = ((g, b), p)" by (metis surj_pair)
  let ?row = "\<lambda>n. \<lparr> st_id = n, st_hardware_id = sx_hardware_id g, st_received_at = received, st_payload_json = sx_payload_json g,
     st_principal_id = pid, st_payload_bytes = b, st_pinned = p \<rparr>"
  obtain s1 u1 u' where run: "insert_staged x (?row 0) s = (Inr u1, s1)" "insert_sightings x pid received gs s1 = (Inr u', s')"
    using Cons.prems(1) by (auto simp: gb insert_sightings_def andThen_eq_Inr)
  obtain n where one: "staged_readings_t (ledger_t (tables s1)) = Some (es @ [?row n])" "0 \<le> b"
    using insert_staged_Inr [OF run(1) Cons.prems(2)] by auto
  from Cons.IH [OF run(2) one(1)] obtain new where "staged_readings_t (ledger_t (tables s')) = Some ((es @ [?row n]) @ new)"
      "map row_shape new = map (\<lambda>((g, b), p). (pid, sx_hardware_id g, b, p)) gs" "sizes_ok new" by blast
  moreover have "row_shape (?row n) = (pid, sx_hardware_id g, b, p)" by (simp add: row_shape_def)
  ultimately show ?case using one(2) by (intro exI [of _ "?row n # new"]) (simp add: gb sizes_ok_def)
qed

lemma delete_sighting_staged:
  assumes "forA removed (delete_sighting_if_unstaged x) s = (Inr u, s')"
  shows "staged_readings_t (ledger_t (tables s')) = staged_readings_t (ledger_t (tables s))"
  using assms
proof (induction removed arbitrary: s u)
  case (Cons sub subs)
  obtain s1 u1 u' where "delete_sighting_if_unstaged x sub s = (Inr u1, s1)" "forA subs (delete_sighting_if_unstaged x) s1 = (Inr u', s')"
    using Cons.prems by (auto simp: andThen_eq_Inr)
  moreover from this(1) have "staged_readings_t (ledger_t (tables s1)) = staged_readings_t (ledger_t (tables s))"
    by (auto simp: delete_sighting_if_unstaged_def ts_sql_Inr split: prod.splits if_splits option.splits)
  ultimately show ?case using Cons.IH by simp
qed simp

definition pinned_part :: "string \<Rightarrow> staged_entry list \<Rightarrow> staged_sighting list \<Rightarrow> staged_sighting list" where
  "pinned_part pid es gs = filter (pin_of pid es) gs"

abbreviation payload_size :: "staged_sighting \<Rightarrow> i64" where
  "payload_size g \<equiv> int (length (sx_payload_json g))"

lemma zip_maps: "zip xs (map f xs) = map (\<lambda>a. (a, f a)) xs" "zip (map g xs) (map f xs) = map (\<lambda>a. (g a, f a)) xs"
  by (induction xs) auto

lemma filter_pairs: "filter (\<lambda>(a, n). P a) (map (\<lambda>a. (a, f a)) xs) = map (\<lambda>a. (a, f a)) (filter P xs)"
  by (simp add: filter_map o_def)

lemma pinned_survives_expiry:
  "list_ex st_pinned (rows_of sub es) \<Longrightarrow> rows_of sub (delete_expired cutoff es) = rows_of sub es"
  unfolding rows_of_def delete_expired_def by (auto intro: filter_cong)

text \<open>
  A batch that is admitted keeps the rows of all subjects but some unpinned ones, adds one row per
  sighting that inherits its subject's pin, and leaves the totals within the limits.
\<close>

lemma stage_cases:
  assumes "stage_sightings_at x pid received gs lm s = (Inr a, s')" "gs \<noteq> []"
  obtains P new where "staged_of s' = filter P (staged_of s) @ new"
    "\<forall>r\<in>set (staged_of s). \<not> P r \<longrightarrow> \<not> list_ex st_pinned (rows_of (subject_of r) (staged_of s))"
    "map row_shape new = map (\<lambda>g. (pid, sx_hardware_id g, payload_size g, pin_of pid (staged_of s) g)) gs"
    "sizes_ok new"
    "\<not> over_principal lm pid (int (length gs)) (sum_list (map payload_size gs)) (filter P (staged_of s))"
    "\<not> over_global lm (int (length gs)) (sum_list (map payload_size gs)) (filter P (staged_of s))"
    "pinned_part pid (staged_of s) gs \<noteq> [] \<longrightarrow> \<not> exceeds_pin_reserve lm
       (health_of (staged_of s))
       (int (length (of_principal pid (filter st_pinned (staged_of s)))), bytes_of (of_principal pid (filter st_pinned (staged_of s))))
       (int (length (pinned_part pid (staged_of s) gs))) (sum_list (map payload_size (pinned_part pid (staged_of s) gs)))"
proof -
  obtain rows sizes bytes where size: "batch_size gs = Inr (rows, sizes, bytes)"
    using assms(1) by (auto simp: stage_sightings_at_def andThen_eq_Inr)
  note bs = batch_size_Inr [OF size]
  let ?cut = "saturating_sub received (sb_max_age_ms (staging_of lm))"
  let ?pr = "map (\<lambda>g. (pid, sx_hardware_id g)) gs"
  obtain ps r b s1 s2 s3 s4 exp removed s5 s6 u1 u2 where
      pins: "inherited_pins x pid (zip gs sizes) 0 0 s = (Inr (ps, r, b), s1)" and
      cap: "validate_inherited_pin_capacity x pid r b lm s1 = (Inr (), s2)" and
      ex: "staged_select x (expired_subjects ?cut) s2 = (Inr exp, s3)" and
      del: "staged_sql x (\<lambda>es. ((), delete_expired ?cut es)) s3 = (Inr (), s4)" and
      ev: "evict_staged x pid rows bytes lm ?pr exp s4 = (Inr removed, s5)" and
      ins: "insert_sightings x pid received (zip (zip gs sizes) ps) s5 = (Inr u1, s6)" and
      fin: "forA removed (delete_sighting_if_unstaged x) s6 = (Inr u2, s')"
    using assms by (auto simp: stage_sightings_at_def andThen_eq_Inr size Let_def split: if_splits)
  obtain es where es: "staged_readings_t (ledger_t (tables s)) = Some es"
    using pins assms(2) bs(2) by (cases gs) (auto simp: andThen_eq_Inr staged_select_Inr)
  then have so: "staged_of s = es" by (simp add: staged_of_def)
  note pi = inherited_pins_Inr [OF pins es]
  have t2: "tables s2 = tables s"
    using cap pi by (auto simp: validate_inherited_pin_capacity_def andThen_eq_Inr staging_health_of_def principal_pins_def
        staged_select_Inr split: if_splits)
  have t3: "tables s3 = tables s" using ex t2 by (auto simp: staged_select_Inr)
  have t4: "staged_of s4 = delete_expired ?cut es" using del t3 es by (auto simp: staged_sql_Inr staged_of_def)
  obtain evd where evd: "staged_of s5 = filter (\<lambda>r. subject_of r \<notin> set evd) (staged_of s4)"
      "\<forall>sub\<in>set evd. sub \<notin> set ?pr \<and> \<not> list_ex st_pinned (rows_of sub (staged_of s4))"
      "\<not> over_principal lm pid rows bytes (staged_of s5)" "\<not> over_global lm rows bytes (staged_of s5)"
      "staged_readings_t (ledger_t (tables s5)) = Some (staged_of s5)"
    using evict_staged_spec [OF ev] by blast
  obtain new where new: "staged_readings_t (ledger_t (tables s6)) = Some (staged_of s5 @ new)"
      "map row_shape new = map (\<lambda>((g, b), p). (pid, sx_hardware_id g, b, p)) (zip (zip gs sizes) ps)" "sizes_ok new"
    using insert_sightings_Inr [OF ins evd(5)] by blast
  define P where "P = (\<lambda>r. \<not> (st_received_at r < ?cut \<and> \<not> list_ex st_pinned (rows_of (subject_of r) es)) \<and> subject_of r \<notin> set evd)"
  have keep: "staged_of s5 = filter P es"
    unfolding evd(1) t4 delete_expired_def P_def by (simp add: conj_commute)
  have shape: "map row_shape new = map (\<lambda>g. (pid, sx_hardware_id g, payload_size g, pin_of pid es g)) gs"
    using new(2) pi unfolding bs(2) by (simp add: zip_maps o_def split_def)
  show thesis
  proof (rule that [of P new])
    show "staged_of s' = filter P (staged_of s) @ new"
      using delete_sighting_staged [OF fin] new(1) keep so by (simp add: staged_of_def)
    have "\<not> list_ex st_pinned (rows_of (subject_of r) es)" if "\<not> P r" for r
      using that pinned_survives_expiry [of "subject_of r" es ?cut] evd(2) t4 unfolding P_def by metis
    then show "\<forall>r\<in>set (staged_of s). \<not> P r \<longrightarrow> \<not> list_ex st_pinned (rows_of (subject_of r) (staged_of s))" using so by simp
    show "map row_shape new = map (\<lambda>g. (pid, sx_hardware_id g, payload_size g, pin_of pid (staged_of s) g)) gs"
      using shape so by simp
    show "sizes_ok new" by (rule new(3))
    show "\<not> over_principal lm pid (int (length gs)) (sum_list (map payload_size gs)) (filter P (staged_of s))"
      "\<not> over_global lm (int (length gs)) (sum_list (map payload_size gs)) (filter P (staged_of s))"
      using evd(3,4) keep so bs by simp_all
    have "r = int (length (pinned_part pid es gs))" "b = sum_list (map payload_size (pinned_part pid es gs))"
      using pi by (simp_all add: bs(2) zip_maps filter_pairs pinned_part_def o_def)
    then show "pinned_part pid (staged_of s) gs \<noteq> [] \<longrightarrow> \<not> exceeds_pin_reserve lm (health_of (staged_of s))
       (int (length (of_principal pid (filter st_pinned (staged_of s)))), bytes_of (of_principal pid (filter st_pinned (staged_of s))))
       (int (length (pinned_part pid (staged_of s) gs))) (sum_list (map payload_size (pinned_part pid (staged_of s) gs)))"
      using cap pi es unfolding so
      by (auto simp: validate_inherited_pin_capacity_def andThen_eq_Inr staging_health_of_def principal_pins_def staged_select_Inr
          Let_def conj_commute split: if_splits)
  qed
qed

lemma shape_facts:
  assumes "map row_shape new = map (\<lambda>g. (pid, sx_hardware_id g, payload_size g, pin g)) gs"
  shows "length new = length gs" "bytes_of new = sum_list (map payload_size gs)" "of_principal pid new = new"
    "\<And>q. q \<noteq> pid \<Longrightarrow> of_principal q new = []"
    "length (filter st_pinned new) = length (filter pin gs)"
    "bytes_of (filter st_pinned new) = sum_list (map payload_size (filter pin gs))"
  using assms
proof (induction gs arbitrary: new)
  case (Cons g gs)
  {
    case 1 then show ?case using Cons.IH(1) by auto
  next
    case 2 then show ?case using Cons.IH(2) by (auto simp: row_shape_def)
  next
    case 3 then show ?case using Cons.IH(3) by (auto simp: row_shape_def)
  next
    case 4 then show ?case using Cons.IH(4) by (auto simp: row_shape_def)
  next
    case 5 then show ?case using Cons.IH(5) by (auto simp: row_shape_def)
  next
    case 6 then show ?case using Cons.IH(6) by (auto simp: row_shape_def)
  }
qed simp_all

lemma shape_row:
  assumes "map row_shape new = map (\<lambda>g. (pid, sx_hardware_id g, payload_size g, pin g)) gs" "r \<in> set new"
  shows "\<exists>g\<in>set gs. subject_of r = (pid, sx_hardware_id g) \<and> st_pinned r = pin g"
proof -
  have "row_shape r \<in> set (map (\<lambda>g. (pid, sx_hardware_id g, payload_size g, pin g)) gs)"
    unfolding assms(1) [symmetric] using assms(2) by simp
  then show ?thesis by (auto simp: row_shape_def subject_of_def)
qed

lemma fits_append: "fits m k (es @ fs) \<longleftrightarrow> int (length es) + int (length fs) \<le> m \<and> bytes_of es + bytes_of fs \<le> k"
  by (simp add: fits_def)

lemma usage_add:
  assumes "usage_ok lm es" "sizes_ok es" "below_max lm" "of_principal pid new = new" "\<And>q. q \<noteq> pid \<Longrightarrow> of_principal q new = []"
    "\<not> over_principal lm pid (int (length new)) (bytes_of new) es" "\<not> over_global lm (int (length new)) (bytes_of new) es"
  shows "usage_ok lm (es @ new)"
proof -
  let ?b = "staging_of lm"
  have "fits (sb_global_rows ?b) (sb_global_bytes ?b) (es @ new)"
    using assms(3,7) bytes_nonneg [OF assms(2)] sat_le
    by (auto simp: fits_append over_global_def below_max_def Let_def not_less)
  moreover have "fits (sb_principal_rows ?b) (sb_principal_bytes ?b) (of_principal p es @ of_principal p new)" for p
  proof (cases "p = pid")
    case True
    then show ?thesis using assms(4,6) below_max_all [OF assms(3)] sat_le
      by (auto simp: fits_append over_principal_def Let_def not_less)
  next
    case False
    then show ?thesis using assms(1,5) by (simp add: usage_ok_def Let_def)
  qed
  ultimately show ?thesis by (simp add: usage_ok_def Let_def)
qed

lemma u64_as_i64_small: "int n \<le> i64_max \<Longrightarrow> u64_as_i64 n = int n"
  by (simp add: u64_as_i64_def i64_max_def signed_of_nat signed_take_bit_int_eq_self)

lemma pins_add_counts:
  assumes "pins_ok lm es" "sizes_ok es" "below_max lm"
    "\<not> exceeds_pin_reserve lm (health_of es)
       (int (length (of_principal pid (filter st_pinned es))), bytes_of (of_principal pid (filter st_pinned es))) n k"
    "int (length (filter st_pinned es')) = int (length (filter st_pinned es)) + n"
    "bytes_of (filter st_pinned es') = bytes_of (filter st_pinned es) + k"
    "\<And>p. int (length (of_principal p (filter st_pinned es'))) = int (length (of_principal p (filter st_pinned es))) + (if p = pid then n else 0)"
    "\<And>p. bytes_of (of_principal p (filter st_pinned es')) = bytes_of (of_principal p (filter st_pinned es)) + (if p = pid then k else 0)"
  shows "pins_ok lm es'"
proof -
  let ?b = "staging_of lm" and ?ps = "filter st_pinned es"
  have res: "0 < sb_reserve_rows ?b" "0 < sb_reserve_bytes ?b" using staging_of_ok [of lm] by (auto simp: staging_bounds_ok_def)
  have pos: "0 \<le> bytes_of ?ps" by (rule bytes_nonneg [OF sizes_filter [OF assms(2)]])
  have small: "u64_as_i64 (sh_pinned_rows (health_of es)) = int (length ?ps)" "u64_as_i64 (sh_pinned_bytes (health_of es)) = bytes_of ?ps"
    using assms(1,3) res pos by (auto intro!: u64_as_i64_small [THEN trans] simp: health_of_def pins_ok_def fits_def below_max_def Let_def)
  have top: "sb_global_rows ?b - sb_reserve_rows ?b < i64_max" "sb_global_bytes ?b - sb_reserve_bytes ?b < i64_max"
      "sb_principal_rows ?b - sb_reserve_rows ?b < i64_max" "sb_principal_bytes ?b - sb_reserve_bytes ?b < i64_max"
    using assms(3) below_max_all [OF assms(3)] res by (auto simp: below_max_def)
  have sums: "int (length ?ps) + n \<le> sb_global_rows ?b - sb_reserve_rows ?b"
      "bytes_of ?ps + k \<le> sb_global_bytes ?b - sb_reserve_bytes ?b"
      "int (length (of_principal pid ?ps)) + n \<le> sb_principal_rows ?b - sb_reserve_rows ?b"
      "bytes_of (of_principal pid ?ps) + k \<le> sb_principal_bytes ?b - sb_reserve_bytes ?b"
    using assms(4) top small sat_le by (auto simp: exceeds_pin_reserve_def Let_def not_less)
  have "fits (sb_principal_rows ?b - sb_reserve_rows ?b) (sb_principal_bytes ?b - sb_reserve_bytes ?b) (of_principal p (filter st_pinned es'))" for p
  proof (cases "p = pid")
    case True
    then show ?thesis using sums(3,4) assms(7,8) [of p] by (simp add: fits_def del: filter_filter)
  next
    case False
    then have "fits (sb_principal_rows ?b - sb_reserve_rows ?b) (sb_principal_bytes ?b - sb_reserve_bytes ?b) (of_principal p ?ps)"
      using assms(1) by (simp add: pins_ok_def Let_def del: filter_filter)
    then show ?thesis using False assms(7,8) [of p] by (simp add: fits_def del: filter_filter)
  qed
  moreover have "fits (sb_global_rows ?b - sb_reserve_rows ?b) (sb_global_bytes ?b - sb_reserve_bytes ?b) (filter st_pinned es')"
    using sums(1,2) assms(5,6) by (simp add: fits_def)
  ultimately show ?thesis by (simp add: pins_ok_def Let_def del: filter_filter)
qed

lemma pins_add:
  assumes "pins_ok lm es" "sizes_ok es" "below_max lm"
    "of_principal pid new = new" "\<And>q. q \<noteq> pid \<Longrightarrow> of_principal q new = []"
    "filter st_pinned new \<noteq> [] \<Longrightarrow> \<not> exceeds_pin_reserve lm (health_of es)
       (int (length (of_principal pid (filter st_pinned es))), bytes_of (of_principal pid (filter st_pinned es)))
       (int (length (filter st_pinned new))) (bytes_of (filter st_pinned new))"
  shows "pins_ok lm (es @ new)"
proof (cases "filter st_pinned new = []")
  case True
  then show ?thesis using assms(1) by (simp add: pins_ok_def)
next
  case False
  have "of_principal pid (filter st_pinned new) = filter st_pinned new" "\<And>q. q \<noteq> pid \<Longrightarrow> of_principal q (filter st_pinned new) = []"
    unfolding filter_swap [of _ st_pinned new] using assms(4,5) by simp_all
  then show ?thesis by (intro pins_add_counts [OF assms(1-3) assms(6) [OF False]]) (simp_all del: filter_filter)
qed

lemma pins_ok_cong: "filter st_pinned es = filter st_pinned fs \<Longrightarrow> pins_ok lm es = pins_ok lm fs"
  by (simp add: pins_ok_def)

lemma pins_add_kept:
  assumes "pins_ok lm es" "sizes_ok es" "below_max lm"
    "of_principal pid new = new" "\<And>q. q \<noteq> pid \<Longrightarrow> of_principal q new = []"
    "filter st_pinned new \<noteq> [] \<Longrightarrow> \<not> exceeds_pin_reserve lm (health_of es)
       (int (length (of_principal pid (filter st_pinned es))), bytes_of (of_principal pid (filter st_pinned es)))
       (int (length (filter st_pinned new))) (bytes_of (filter st_pinned new))"
    "filter st_pinned (filter P es) = filter st_pinned es"
  shows "pins_ok lm (filter P es @ new)"
  using pins_add [OF assms(1-6)] pins_ok_cong [of "filter P es @ new" "es @ new" lm] assms(7) by (simp del: filter_filter)

lemma uniform_add:
  assumes "uniform_pins es" "map row_shape new = map (\<lambda>g. (pid, sx_hardware_id g, payload_size g, pin_of pid es g)) gs"
  shows "uniform_pins (filter P es @ new)"
proof -
  have old: "st_pinned r = list_ex st_pinned (rows_of (subject_of r) es)" if "r \<in> set (filter P es @ new)" for r
  proof (cases "r \<in> set new")
    case True
    then show ?thesis using shape_row [OF assms(2) True] by (auto simp: pin_of_def)
  next
    case False
    then have "r \<in> set es" using that by auto
    moreover have "list_ex st_pinned (rows_of (subject_of r) es) \<longleftrightarrow> (\<exists>q\<in>set es. subject_of q = subject_of r \<and> st_pinned q)"
      by (auto simp: list_ex_iff rows_of_def)
    ultimately show ?thesis using assms(1) unfolding uniform_pins_def by blast
  qed
  show ?thesis unfolding uniform_pins_def
  proof (intro ballI impI)
    fix r q
    assume "r \<in> set (filter P es @ new)" "q \<in> set (filter P es @ new)" "subject_of r = subject_of q"
    then show "st_pinned r = st_pinned q" using old [of r] old [of q] by simp
  qed
qed

lemma staging_kept:
  assumes "staging_ok lm (staged_of s)" "below_max lm" "stage_sightings_at x pid received gs lm s = (Inr a, s')"
  shows "staging_ok lm (staged_of s') \<and> (\<forall>r\<in>set (staged_of s). st_pinned r \<longrightarrow> r \<in> set (staged_of s'))"
proof (cases "gs = []")
  case True
  then have "tables s' = tables s" using assms(3) by (auto simp: stage_sightings_at_def andThen_eq_Inr Let_def split: if_splits)
  then show ?thesis using assms(1) by (simp add: staged_of_def)
next
  case False
  let ?es = "staged_of s"
  from assms(3) False obtain P new where st: "staged_of s' = filter P ?es @ new"
    "\<forall>r\<in>set ?es. \<not> P r \<longrightarrow> \<not> list_ex st_pinned (rows_of (subject_of r) ?es)"
    "map row_shape new = map (\<lambda>g. (pid, sx_hardware_id g, payload_size g, pin_of pid ?es g)) gs" "sizes_ok new"
    "\<not> over_principal lm pid (int (length gs)) (sum_list (map payload_size gs)) (filter P ?es)"
    "\<not> over_global lm (int (length gs)) (sum_list (map payload_size gs)) (filter P ?es)"
    "pinned_part pid ?es gs \<noteq> [] \<longrightarrow> \<not> exceeds_pin_reserve lm
       (health_of ?es)
       (int (length (of_principal pid (filter st_pinned ?es))), bytes_of (of_principal pid (filter st_pinned ?es)))
       (int (length (pinned_part pid ?es gs))) (sum_list (map payload_size (pinned_part pid ?es gs)))"
    by (rule stage_cases)
  note ok = assms(1) [unfolded staging_ok_def]
  note sh = shape_facts [OF st(3)]
  have pin: "P r" if "r \<in> set ?es" "st_pinned r" for r using st(2) that by (auto simp: rows_of_def list_ex_iff)
  have ps: "filter st_pinned (filter P ?es) = filter st_pinned ?es" using pin by (auto intro: filter_cong)
  have "usage_ok lm (filter P ?es @ new)"
    using ok sh(1,2) st(5,6) by (intro usage_add [OF _ _ assms(2) sh(3,4)]) (auto simp: usage_filter sizes_filter)
  moreover have "pins_ok lm (filter P ?es @ new)"
    using ok sh(5,6) st(7) ps
    by (intro pins_add_kept [OF _ _ assms(2) sh(3,4), of ?es]) (auto simp: pinned_part_def simp del: filter_filter)
  moreover have "uniform_pins (filter P ?es @ new)" using uniform_add [OF _ st(3)] ok by blast
  moreover have "sizes_ok (filter P ?es @ new)" using ok st(4) by (auto simp: sizes_ok_def)
  ultimately show ?thesis using pin st(1) by (auto simp: staging_ok_def)
qed

section \<open>A batch of new subjects always fits\<close>

lemma sat_mono: "a + b \<le> k \<Longrightarrow> i64_min \<le> k \<Longrightarrow> saturating_add a b \<le> k"
  by (simp add: saturating_add_def clamp_i64_def)

text \<open>With all rows pinned there is room for a batch within the reserve.\<close>

lemma all_pinned_room:
  assumes "staging_ok lm es" "rows \<le> sb_reserve_rows (staging_of lm)" "bytes \<le> sb_reserve_bytes (staging_of lm)"
  shows "(\<forall>r\<in>set (of_principal pid es). st_pinned r) \<Longrightarrow> \<not> over_principal lm pid rows bytes es"
    "(\<forall>r\<in>set es. st_pinned r) \<Longrightarrow> \<not> over_global lm rows bytes es"
proof -
  let ?b = "staging_of lm"
  have pos: "i64_min \<le> sb_principal_rows ?b" "i64_min \<le> sb_principal_bytes ?b" "i64_min \<le> sb_global_rows ?b" "i64_min \<le> sb_global_bytes ?b"
    using staging_of_ok [of lm] by (auto simp: staging_bounds_ok_def i64_min_def)
  have pins: "pins_ok lm es" "sizes_ok es" using assms(1) by (simp_all add: staging_ok_def)
  show "\<not> over_principal lm pid rows bytes es" if "\<forall>r\<in>set (of_principal pid es). st_pinned r"
  proof -
    have "of_principal pid (filter st_pinned es) = of_principal pid es" using that by (auto intro: filter_cong)
    then have "fits (sb_principal_rows ?b - sb_reserve_rows ?b) (sb_principal_bytes ?b - sb_reserve_bytes ?b) (of_principal pid es)"
      using pins(1) by (metis (no_types, lifting) pins_ok_def)
    then show ?thesis using assms(2,3) pos
      by (auto simp: over_principal_def fits_def Let_def not_less intro!: sat_mono)
  qed
  show "\<not> over_global lm rows bytes es" if "\<forall>r\<in>set es. st_pinned r"
  proof -
    have "filter st_pinned es = es" using that by (simp add: filter_id_conv)
    then have "fits (sb_global_rows ?b - sb_reserve_rows ?b) (sb_global_bytes ?b - sb_reserve_bytes ?b) es"
      using pins(1) by (metis (no_types, lifting) pins_ok_def)
    then show ?thesis using assms(2,3) pos bytes_nonneg [OF pins(2)]
      by (auto simp: over_global_def fits_def Let_def not_less intro!: sat_mono)
  qed
qed

lemma find_row_exists: "(\<exists>a\<in>set xs. P a) \<Longrightarrow> \<exists>b. find_row P xs = Some b"
  using find_row_None [of P xs] by (cases "find_row P xs") auto

lemma staged_select_ok:
  assumes "\<And>n. \<not> sql_fault x n" "staged_readings_t (ledger_t (tables s)) = Some es"
  shows "staged_select x f s = (Inr (f es), s\<lparr> sql_step := Suc (sql_step s) \<rparr>)"
  using assms by (simp add: staged_select_Inr)

lemma victim_exists:
  assumes "\<And>n. \<not> sql_fault x n" "staged_readings_t (ledger_t (tables s)) = Some es" "uniform_pins es"
    "r \<in> set es" "\<not> st_pinned r" "subject_of r \<notin> set protected" "over \<Longrightarrow> st_principal_id r = pid"
  shows "\<exists>sub s'. staging_victim x pid protected over s = (Inr sub, s')"
proof -
  let ?cs = "sort_key (subject_age es) (filter (\<lambda>sub. (if over then Some pid else None) = None \<or>
      (if over then Some pid else None) = Some (fst sub)) (unpinned_subjects es))"
  have "\<not> list_ex st_pinned (rows_of (subject_of r) es)"
    using assms(3,4,5) unfolding uniform_pins_def rows_of_def list_ex_iff by (metis (mono_tags, lifting) mem_Collect_eq set_filter)
  then have "subject_of r \<in> set ?cs"
    using assms(4,7) by (auto simp: unpinned_subjects_def staged_subjects_def subject_of_def)
  then obtain sub where sub: "find_row (\<lambda>sub. sub \<notin> set protected) ?cs = Some sub"
    using find_row_exists [of ?cs "\<lambda>sub. sub \<notin> set protected"] assms(6) by blast
  show ?thesis using sub
    by (auto simp: staging_victim_def oldest_evictable_staging_subject_def andThen_eq_Inr staged_select_ok [OF assms(1,2)]
        staged_sql_Inr assms(1,2) simp del: if_split_asm)
qed

lemma pressure_total:
  assumes "\<And>n. \<not> sql_fault x n" "staged_readings_t (ledger_t (tables s)) = Some es" "staging_ok lm es" "below_max lm"
  shows "\<exists>po go s'. staging_pressure x pid rows bytes lm s = (Inr (po, go), s')"
proof -
  have "int (length es) \<le> i64_max" "bytes_of es \<le> i64_max" "0 \<le> bytes_of es"
    using assms(3,4) bytes_nonneg by (auto simp: staging_ok_def usage_ok_def fits_def below_max_def Let_def)
  then show ?thesis using assms(2)
    by (auto simp: staging_pressure_def staging_health_of_def principal_usage_def andThen_eq_Inr staged_select_Inr assms(1)
        i64_of_health_Inr health_of_def in_i64_def i64_min_def Let_def)
qed

lemma evict_staged_total:
  assumes "\<And>n. \<not> sql_fault x n" "staged_readings_t (ledger_t (tables s)) = Some es" "staging_ok lm es" "below_max lm"
    "rows \<le> sb_reserve_rows (staging_of lm)" "bytes \<le> sb_reserve_bytes (staging_of lm)"
    "\<And>r. r \<in> set es \<Longrightarrow> subject_of r \<notin> set protected"
  shows "\<exists>removed' s'. evict_staged x pid rows bytes lm protected removed s = (Inr removed', s')"
  using assms
proof (induction x pid rows bytes lm protected removed s arbitrary: es rule: evict_staged.induct)
  case (1 x pid rows bytes lm protected removed s)
  obtain po go s1 where p: "staging_pressure x pid rows bytes lm s = (Inr (po, go), s1)"
    using pressure_total [OF "1.prems"(1-4)] by blast
  note pr = staging_pressure_Inr [OF p]
  have so: "staged_of s = es" using "1.prems"(2) by (simp add: staged_of_def)
  show ?case
  proof (cases "po \<or> go")
    case False
    then show ?thesis using p by (simp add: evict_staged.simps [of x pid rows bytes lm protected removed s])
  next
    case True
    note room = all_pinned_room [OF "1.prems"(3,5,6)]
    have "\<exists>r\<in>set es. \<not> st_pinned r \<and> (po \<longrightarrow> st_principal_id r = pid)"
      using True room(1) [of pid] room(2) pr(2,3) so by (cases po) auto
    then obtain r where r: "r \<in> set es" "\<not> st_pinned r" "po \<Longrightarrow> st_principal_id r = pid" by blast
    obtain v s2 where v: "staging_victim x pid protected po s1 = (Inr v, s2)"
      using victim_exists [of x s1 es r protected po pid] "1.prems"(1,2,3,7) r pr(1) by (auto simp: staging_ok_def)
    have s2: "staged_readings_t (ledger_t (tables s2)) = Some (filter (\<lambda>r. subject_of r \<noteq> v) es)"
      using v pr(1) "1.prems"(2) by (auto simp: staging_victim_def oldest_evictable_staging_subject_def andThen_eq_Inr
          staged_select_Inr staged_sql_Inr split: option.splits)
    have "\<exists>removed' s'. evict_staged x pid rows bytes lm protected (removed @ [v]) s2 = (Inr removed', s')"
      using True "1.prems"(7)
      by (intro "1.IH" [OF p [symmetric] refl refl _ v [symmetric] refl "1.prems"(1) s2 staging_ok_filter [OF "1.prems"(3)] "1.prems"(4-6)]) auto
    then show ?thesis using p v True by (simp add: evict_staged.simps [of x pid rows bytes lm protected removed s])
  qed
qed

lemma staged_sql_ok:
  assumes "\<And>n. \<not> sql_fault x n" "staged_readings_t (ledger_t (tables s)) = Some es"
  shows "\<exists>s'. staged_sql x (\<lambda>es. ((), f es)) s = (Inr (), s') \<and> staged_readings_t (ledger_t (tables s')) = Some (f es)"
  using assms by (simp add: staged_sql_Inr)

lemma unpinned_subject: "(pid, sx_hardware_id g) \<notin> subject_of ` set es \<Longrightarrow> \<not> pin_of pid es g"
  by (auto simp: pin_of_def rows_of_def list_ex_iff image_iff)

lemma inherited_pins_none:
  assumes "\<And>n. \<not> sql_fault x n" "staged_readings_t (ledger_t (tables s)) = Some es" "\<And>g n. (g, n) \<in> set gs \<Longrightarrow> \<not> pin_of pid es g"
  shows "\<exists>s'. inherited_pins x pid gs r b s = (Inr (replicate (length gs) False, r, b), s') \<and> tables s' = tables s"
  using assms(2,3)
proof (induction gs arbitrary: s)
  case (Cons gn gs)
  obtain g n where gn: "gn = (g, n)" by (cases gn)
  let ?s = "s\<lparr> sql_step := Suc (sql_step s) \<rparr>"
  obtain s' where "inherited_pins x pid gs r b ?s = (Inr (replicate (length gs) False, r, b), s')" "tables s' = tables ?s"
    using Cons.IH [of ?s] Cons.prems by auto
  then show ?case using Cons.prems unfolding gn
    by (auto simp: andThen_eq_Inr staged_select_ok [OF assms(1) Cons.prems(1)] pin_of_def)
qed simp

lemma insert_sightings_ok:
  assumes "\<And>n. \<not> sql_fault x n" "staged_readings_t (ledger_t (tables s)) = Some es" "\<And>g b p. ((g, b), p) \<in> set gs \<Longrightarrow> 0 \<le> b"
  shows "\<exists>u s' es'. insert_sightings x pid received gs s = (Inr u, s') \<and> staged_readings_t (ledger_t (tables s')) = Some es'"
  using assms(2,3)
proof (induction gs arbitrary: s es)
  case (Cons gb gs)
  obtain g b p where gb: "gb = ((g, b), p)" by (metis surj_pair)
  let ?row = "\<lparr> st_id = 0, st_hardware_id = sx_hardware_id g, st_received_at = received, st_payload_json = sx_payload_json g,
     st_principal_id = pid, st_payload_bytes = b, st_pinned = p \<rparr>"
  have "0 \<le> b" using Cons.prems(2) [of g b p] by (simp add: gb)
  then obtain s1 es1 where one: "insert_staged x ?row s = (Inr (), s1)" "staged_readings_t (ledger_t (tables s1)) = Some es1"
    using Cons.prems(1) assms(1) by (auto simp: insert_staged_def ts_sql_Inr Let_def)
  then obtain u s' es' where "insert_sightings x pid received gs s1 = (Inr u, s')" "staged_readings_t (ledger_t (tables s')) = Some es'"
    using Cons.IH [of s1 es1] Cons.prems(2) by force
  then show ?case using one(1) by (auto simp: gb insert_sightings_def andThen_eq_Inr)
qed (simp add: insert_sightings_def)

lemma delete_sighting_ok:
  assumes "\<And>n. \<not> sql_fault x n" "staged_readings_t (ledger_t (tables s)) = Some es"
  shows "\<exists>s'. delete_sighting_if_unstaged x sub s = (Inr (), s') \<and> staged_readings_t (ledger_t (tables s')) = Some es"
proof (cases "fst sub = ''legacy:unknown''")
  case True
  then show ?thesis using assms by (simp add: delete_sighting_if_unstaged_def split_def)
next
  case False
  then show ?thesis using assms by (simp add: delete_sighting_if_unstaged_def split_def ts_sql_Inr)
qed

lemma delete_sightings_ok:
  assumes "\<And>n. \<not> sql_fault x n" "staged_readings_t (ledger_t (tables s)) = Some es"
  shows "\<exists>u s'. forA removed (delete_sighting_if_unstaged x) s = (Inr u, s')"
  using assms(2)
proof (induction removed arbitrary: s)
  case (Cons sub subs)
  obtain s1 where "delete_sighting_if_unstaged x sub s = (Inr (), s1)" "staged_readings_t (ledger_t (tables s1)) = Some es"
    using delete_sighting_ok [OF assms(1) Cons.prems] by blast
  then show ?case using Cons.IH [of s1] by (auto simp: andThen_eq_Inr)
qed simp

lemma stage_total:
  assumes "\<And>n. \<not> sql_fault x n" "staged_readings_t (ledger_t (tables s)) = Some es" "staging_ok lm es" "below_max lm"
    "batch_size gs = Inr (rows, sizes, bytes)" "rows \<le> sb_reserve_rows (staging_of lm)" "bytes \<le> sb_reserve_bytes (staging_of lm)"
    "\<And>g. g \<in> set gs \<Longrightarrow> (pid, sx_hardware_id g) \<notin> subject_of ` set es"
  shows "\<exists>a s'. stage_sightings_at x pid received gs lm s = (Inr a, s')"
proof (cases "gs = []")
  case True
  then have "rows = 0" "bytes = 0" using batch_size_Inr [OF assms(5)] by simp_all
  then show ?thesis using True staging_of_ok [of lm]
    by (auto simp: stage_sightings_at_def assms(5) [unfolded True] andThen_eq_Inr Let_def staging_bounds_ok_def)
next
  case False
  let ?b = "staging_of lm" and ?cut = "saturating_sub received (sb_max_age_ms (staging_of lm))"
  let ?pr = "map (\<lambda>g. (pid, sx_hardware_id g)) gs"
  note bs = batch_size_Inr [OF assms(5)]
  have small: "\<not> (sb_reserve_rows ?b < rows \<or> sb_reserve_bytes ?b < bytes \<or> sb_principal_rows ?b < rows \<or> sb_principal_bytes ?b < bytes)"
    using assms(6,7) staging_of_ok [of lm] by (auto simp: staging_bounds_ok_def)
  obtain s1 where s1: "inherited_pins x pid (zip gs sizes) 0 0 s = (Inr (replicate (length (zip gs sizes)) False, 0, 0), s1)" "tables s1 = tables s"
    using inherited_pins_none [OF assms(1,2), of "zip gs sizes" pid 0 0] unpinned_subject [OF assms(8)] by (blast dest: set_zip_leftD)
  obtain s2 where s2: "staged_sql x (\<lambda>es. ((), delete_expired ?cut es)) (s1\<lparr> sql_step := Suc (sql_step s1) \<rparr>) = (Inr (), s2)"
      "staged_readings_t (ledger_t (tables s2)) = Some (delete_expired ?cut es)"
    using staged_sql_ok [OF assms(1), of "s1\<lparr> sql_step := Suc (sql_step s1) \<rparr>" es "delete_expired ?cut"] s1(2) assms(2) by auto
  have new: "subject_of r \<notin> set ?pr" if "r \<in> set (delete_expired ?cut es)" for r
  proof
    assume "subject_of r \<in> set ?pr"
    then obtain g where "g \<in> set gs" "subject_of r = (pid, sx_hardware_id g)" by auto
    moreover have "r \<in> set es" using that by (simp add: delete_expired_def)
    ultimately show False using assms(8) by (metis imageI)
  qed
  obtain removed s3 where s3: "evict_staged x pid rows bytes lm ?pr (expired_subjects ?cut es) s2 = (Inr removed, s3)"
    using evict_staged_total [OF assms(1) s2(2) _ assms(4,6,7) new] staging_ok_filter [OF assms(3)] unfolding delete_expired_def by blast
  obtain es3 where es3: "staged_readings_t (ledger_t (tables s3)) = Some es3" using evict_staged_spec [OF s3] by blast
  let ?rows = "zip (zip gs sizes) (replicate (length (zip gs sizes)) False)"
  have nonneg: "0 \<le> b" if "((g, b), p) \<in> set ?rows" for g b p
  proof -
    have "(g, b) \<in> set (zip gs sizes)" using that by (rule set_zip_leftD)
    then have "b \<in> set sizes" by (rule set_zip_rightD)
    then show ?thesis unfolding bs(2) by auto
  qed
  have "\<exists>u s' es'. insert_sightings x pid received ?rows s3 = (Inr u, s') \<and> staged_readings_t (ledger_t (tables s')) = Some es'"
    by (rule insert_sightings_ok [OF assms(1) es3]) (erule nonneg)
  then obtain u s4 es4 where s4: "insert_sightings x pid received (zip (zip gs sizes) (replicate (length (zip gs sizes)) False)) s3 = (Inr u, s4)"
      "staged_readings_t (ledger_t (tables s4)) = Some es4"
    by blast
  obtain u' s5 where s5: "forA removed (delete_sighting_if_unstaged x) s4 = (Inr u', s5)"
    using delete_sightings_ok [OF assms(1) s4(2)] by blast
  have sel: "staged_select x (expired_subjects ?cut) s1 = (Inr (expired_subjects ?cut es), s1\<lparr> sql_step := Suc (sql_step s1) \<rparr>)"
    using staged_select_ok [OF assms(1), of s1 es] s1(2) assms(2) by simp
  show ?thesis unfolding stage_sightings_at_def andThen_eq_Inr
    by (auto simp: assms(5) Let_def small False andThen_eq_Inr s1(1) validate_inherited_pin_capacity_def sel s2(1) s3 s4(1) s5
        simp del: length_zip)
qed

text \<open>A principal whose rows all belong to the batch's own subjects has no victim.\<close>

lemma stage_blocked:
  assumes "\<And>n. \<not> sql_fault x n" "staged_readings_t (ledger_t (tables s)) = Some es" "gs \<noteq> []"
    "batch_size gs = Inr (rows, sizes, bytes)" "rows \<le> sb_reserve_rows (staging_of lm)" "bytes \<le> sb_reserve_bytes (staging_of lm)"
    "\<And>r. r \<in> set (of_principal pid es) \<Longrightarrow> st_hardware_id r \<in> sx_hardware_id ` set gs \<and> \<not> st_pinned r \<and>
       saturating_sub received (sb_max_age_ms (staging_of lm)) \<le> st_received_at r"
    "sb_principal_rows (staging_of lm) < int (length (of_principal pid es)) + rows"
    "sizes_ok es" "int (length es) + rows \<le> i64_max" "bytes_of es \<le> i64_max"
  shows "fst (stage_sightings_at x pid received gs lm s) = Inl (Limit ''staging capacity is protected by pin reserve'')"
proof -
  let ?b = "staging_of lm" and ?cut = "saturating_sub received (sb_max_age_ms (staging_of lm))"
  let ?pr = "map (\<lambda>g. (pid, sx_hardware_id g)) gs" and ?es = "delete_expired ?cut es"
  note bs = batch_size_Inr [OF assms(4)]
  have small: "\<not> (sb_reserve_rows ?b < rows \<or> sb_reserve_bytes ?b < bytes \<or> sb_principal_rows ?b < rows \<or> sb_principal_bytes ?b < bytes)"
    using assms(5,6) staging_of_ok [of lm] by (auto simp: staging_bounds_ok_def)
  have "\<not> pin_of pid es g" for g using assms(7) by (auto simp: pin_of_def rows_of_def list_ex_iff subject_of_def)
  then obtain s1 where s1: "inherited_pins x pid (zip gs sizes) 0 0 s = (Inr (replicate (length (zip gs sizes)) False, 0, 0), s1)" "tables s1 = tables s"
    using inherited_pins_none [OF assms(1,2), of "zip gs sizes" pid 0 0] by blast
  have sel: "staged_select x (expired_subjects ?cut) s1 = (Inr (expired_subjects ?cut es), s1\<lparr> sql_step := Suc (sql_step s1) \<rparr>)"
    using staged_select_ok [OF assms(1), of s1 es] s1(2) assms(2) by simp
  obtain s2 where s2: "staged_sql x (\<lambda>es. ((), delete_expired ?cut es)) (s1\<lparr> sql_step := Suc (sql_step s1) \<rparr>) = (Inr (), s2)"
      "staged_readings_t (ledger_t (tables s2)) = Some ?es"
    using staged_sql_ok [OF assms(1), of "s1\<lparr> sql_step := Suc (sql_step s1) \<rparr>" es "delete_expired ?cut"] s1(2) assms(2) by auto
  have mine: "of_principal pid ?es = of_principal pid es"
    unfolding delete_expired_def using assms(7) by (auto simp: not_less intro!: filter_cong)
  have "length ?es \<le> length es" "bytes_of ?es \<le> bytes_of es" "0 \<le> bytes_of ?es"
    using bytes_filter [OF assms(9)] bytes_nonneg [OF sizes_filter [OF assms(9)]] by (simp_all add: delete_expired_def)
  then have "int (length ?es) \<le> i64_max" "bytes_of ?es \<le> i64_max" "0 \<le> bytes_of ?es" using assms(10,11) bs(1) by simp_all
  then obtain po go s3 where p: "staging_pressure x pid rows bytes lm s2 = (Inr (po, go), s3)"
    using s2(2) by (auto simp: staging_pressure_def staging_health_of_def principal_usage_def andThen_eq_Inr staged_select_Inr assms(1)
        i64_of_health_Inr health_of_def in_i64_def i64_min_def Let_def)
  note pr = staging_pressure_Inr [OF p]
  have "length (of_principal pid es) \<le> length es" by simp
  then have "int (length (of_principal pid es)) + rows \<le> i64_max" using assms(10) by linarith
  then have "saturating_add (int (length (of_principal pid es))) rows = int (length (of_principal pid es)) + rows"
    using bs(1) by (intro saturating_add_exact) (simp add: in_i64_def i64_min_def)
  then have po: "po" unfolding pr(2) over_principal_def using assms(8) s2(2) mine by (simp add: staged_of_def Let_def)
  have "find_row (\<lambda>sub. sub \<notin> set ?pr) (sort_key (subject_age ?es) (filter (\<lambda>sub. Some pid = None \<or> Some pid = Some (fst sub)) (unpinned_subjects ?es))) = None"
  proof (intro find_row_None [THEN iffD2] ballI notI)
    fix sub
    assume sub: "sub \<in> set (sort_key (subject_age ?es) (filter (\<lambda>sub. Some pid = None \<or> Some pid = Some (fst sub)) (unpinned_subjects ?es)))"
      and "sub \<notin> set ?pr"
    obtain r where r: "r \<in> set ?es" "subject_of r = sub" "st_principal_id r = pid"
      using sub by (auto simp: unpinned_subjects_def staged_subjects_def subject_of_def)
    then have "r \<in> set (of_principal pid es)" by (simp add: delete_expired_def)
    then have "sub \<in> set ?pr" using assms(7) [of r] r by (auto simp: subject_of_def)
    then show False using \<open>sub \<notin> set ?pr\<close> by blast
  qed
  then have "fst (staging_victim x pid ?pr True s3) = Inl (Limit ''staging capacity is protected by pin reserve'')"
    using pr(1) s2(2) by (simp add: staging_victim_def oldest_evictable_staging_subject_def andThen_def
        staged_select_ok [OF assms(1), of s3 ?es])
  then obtain s4 where "staging_victim x pid ?pr True s3 = (Inl (Limit ''staging capacity is protected by pin reserve''), s4)"
    by (cases "staging_victim x pid ?pr True s3") simp
  then have "evict_staged x pid rows bytes lm ?pr (expired_subjects ?cut es) s2 =
      (Inl (Limit ''staging capacity is protected by pin reserve''), s4)"
    using p po by (simp add: evict_staged.simps [of x pid rows bytes lm _ _ s2])
  then show ?thesis using assms(3)
    by (simp add: stage_sightings_at_def andThen_def assms(4) Let_def small s1(1) validate_inherited_pin_capacity_def sel s2(1))
qed

section \<open>Pinning a subject\<close>

definition pin_rows :: "string \<times> string \<Rightarrow> bool \<Rightarrow> staged_entry list \<Rightarrow> staged_entry list" where
  "pin_rows sub v es = map (\<lambda>r. if subject_of r = sub then r\<lparr> st_pinned := v \<rparr> else r) es"

lemma pin_rows_keeps:
  "length (pin_rows sub v es) = length es" "bytes_of (pin_rows sub v es) = bytes_of es"
  "length (of_principal p (pin_rows sub v es)) = length (of_principal p es)"
  "bytes_of (of_principal p (pin_rows sub v es)) = bytes_of (of_principal p es)"
  "sizes_ok (pin_rows sub v es) = sizes_ok es"
  by (induction es) (auto simp: pin_rows_def sizes_ok_def)

lemma usage_pin: "usage_ok lm (pin_rows sub v es) = usage_ok lm es"
  by (simp add: usage_ok_def fits_def pin_rows_keeps Let_def)

lemma uniform_pin:
  assumes "uniform_pins es"
  shows "uniform_pins (pin_rows sub v es)"
  unfolding uniform_pins_def
proof (intro ballI impI)
  fix r q
  assume "r \<in> set (pin_rows sub v es)" "q \<in> set (pin_rows sub v es)" and sub: "subject_of r = subject_of q"
  then obtain r0 q0 where rq: "r0 \<in> set es" "r = (if subject_of r0 = sub then r0\<lparr> st_pinned := v \<rparr> else r0)"
      "q0 \<in> set es" "q = (if subject_of q0 = sub then q0\<lparr> st_pinned := v \<rparr> else q0)"
    unfolding pin_rows_def by auto
  have keep: "subject_of (if subject_of t = sub then t\<lparr> st_pinned := v \<rparr> else t) = subject_of t" for t by (simp add: subject_of_def)
  have "subject_of r0 = subject_of q0" using sub unfolding rq(2,4) keep .
  moreover from this have "st_pinned r0 = st_pinned q0" using assms rq(1,3) unfolding uniform_pins_def by blast
  ultimately show "st_pinned r = st_pinned q" unfolding rq(2,4) by simp
qed

text \<open>Pinning adds the rows of the subject to the pinned ones, unpinning takes them away.\<close>

lemma filter_or_counts:
  assumes "\<forall>r\<in>set es. \<not> (A r \<and> B r)"
  shows "length (filter (\<lambda>r. A r \<or> B r) es) = length (filter A es) + length (filter B es)"
    "bytes_of (filter (\<lambda>r. A r \<or> B r) es) = bytes_of (filter A es) + bytes_of (filter B es)"
  using assms by (induction es) auto

lemma pin_filter:
  "length (filter (\<lambda>r. st_pinned r \<and> Q (st_principal_id r)) (pin_rows sub True es)) =
     length (filter (\<lambda>r. (st_pinned r \<and> Q (st_principal_id r)) \<or> (subject_of r = sub \<and> Q (st_principal_id r))) es)"
  "bytes_of (filter (\<lambda>r. st_pinned r \<and> Q (st_principal_id r)) (pin_rows sub True es)) =
     bytes_of (filter (\<lambda>r. (st_pinned r \<and> Q (st_principal_id r)) \<or> (subject_of r = sub \<and> Q (st_principal_id r))) es)"
  by (induction es) (auto simp: pin_rows_def)

lemma pin_counts:
  assumes "\<forall>r\<in>set es. subject_of r = (pid, hw) \<longrightarrow> \<not> st_pinned r"
  shows "length (filter st_pinned (pin_rows (pid, hw) True es)) = length (filter st_pinned es) + length (rows_of (pid, hw) es)"
    "bytes_of (filter st_pinned (pin_rows (pid, hw) True es)) = bytes_of (filter st_pinned es) + bytes_of (rows_of (pid, hw) es)"
    "length (of_principal p (filter st_pinned (pin_rows (pid, hw) True es))) =
       length (of_principal p (filter st_pinned es)) + (if p = pid then length (rows_of (pid, hw) es) else 0)"
    "bytes_of (of_principal p (filter st_pinned (pin_rows (pid, hw) True es))) =
       bytes_of (of_principal p (filter st_pinned es)) + (if p = pid then bytes_of (rows_of (pid, hw) es) else 0)"
proof -
  have dis: "\<forall>r\<in>set es. \<not> ((st_pinned r \<and> Q (st_principal_id r)) \<and> (subject_of r = (pid, hw) \<and> Q (st_principal_id r)))" for Q
    using assms by blast
  note all = pin_filter [of "\<lambda>_. True" "(pid, hw)" es] filter_or_counts [OF dis [of "\<lambda>_. True"]]
  show "length (filter st_pinned (pin_rows (pid, hw) True es)) = length (filter st_pinned es) + length (rows_of (pid, hw) es)"
    "bytes_of (filter st_pinned (pin_rows (pid, hw) True es)) = bytes_of (filter st_pinned es) + bytes_of (rows_of (pid, hw) es)"
    using all by (simp_all add: rows_of_def)
  have mine: "filter (\<lambda>r. subject_of r = (pid, hw) \<and> st_principal_id r = p) es = (if p = pid then rows_of (pid, hw) es else [])"
    by (auto simp: rows_of_def subject_of_def filter_empty_conv intro: filter_cong)
  note one = pin_filter [of "\<lambda>q. q = p" "(pid, hw)" es] filter_or_counts [OF dis [of "\<lambda>q. q = p"]]
  show "length (of_principal p (filter st_pinned (pin_rows (pid, hw) True es))) =
       length (of_principal p (filter st_pinned es)) + (if p = pid then length (rows_of (pid, hw) es) else 0)"
    "bytes_of (of_principal p (filter st_pinned (pin_rows (pid, hw) True es))) =
       bytes_of (of_principal p (filter st_pinned es)) + (if p = pid then bytes_of (rows_of (pid, hw) es) else 0)"
    using one unfolding mine by simp_all
qed

lemma unpin_counts:
  "filter st_pinned (pin_rows sub False es) = filter (\<lambda>r. subject_of r \<noteq> sub) (filter st_pinned es)"
  by (induction es) (auto simp: pin_rows_def subject_of_def)

lemma pin_same: "(\<forall>r\<in>set es. subject_of r = sub \<longrightarrow> st_pinned r) \<Longrightarrow> pin_rows sub True es = es"
  by (auto simp: pin_rows_def intro!: map_idI)

lemma staged_of_Some: "staged_readings_t (ledger_t (tables s)) = Some es \<Longrightarrow> staged_of s = es"
  by (simp add: staged_of_def)

lemma uniform_pinned:
  assumes "uniform_pins es" "list_ex st_pinned (rows_of sub es)"
  shows "\<forall>r\<in>set es. subject_of r = sub \<longrightarrow> st_pinned r"
proof -
  obtain q where "q \<in> set es" "subject_of q = sub" "st_pinned q" using assms(2) by (auto simp: list_ex_iff rows_of_def)
  then show ?thesis using assms(1) unfolding uniform_pins_def by metis
qed

lemma pinned_of: "filter (\<lambda>r. st_principal_id r = pid \<and> st_pinned r) es = of_principal pid (filter st_pinned es)"
  by (simp add: conj_commute)

lemma validate_pin_Inr:
  assumes "validate_sighting_pin x pid hw v lm s = (Inr (), s1)"
  shows "tables s1 = tables s \<and> staged_readings_t (ledger_t (tables s)) = Some (staged_of s) \<and>
    (v \<and> \<not> list_ex st_pinned (rows_of (pid, hw) (staged_of s)) \<longrightarrow> \<not> exceeds_pin_reserve lm (health_of (staged_of s))
      (int (length (of_principal pid (filter st_pinned (staged_of s)))), bytes_of (of_principal pid (filter st_pinned (staged_of s))))
      (int (length (rows_of (pid, hw) (staged_of s)))) (bytes_of (rows_of (pid, hw) (staged_of s))))"
proof -
  obtain es where es: "staged_readings_t (ledger_t (tables s)) = Some es"
    using assms by (auto simp: validate_sighting_pin_def andThen_eq_Inr staged_select_Inr)
  then have so: "staged_of s = es" by (simp add: staged_of_def)
  show ?thesis
  proof (cases "v \<and> \<not> list_ex st_pinned (rows_of (pid, hw) es)")
    case True
    then show ?thesis using assms es unfolding so
      by (auto simp: validate_sighting_pin_def andThen_eq_Inr staging_health_of_def principal_pins_def pinned_of
          staged_select_Inr Let_def simp del: filter_filter split: if_splits)
  next
    case False
    then have "tables s1 = tables s" using assms es
      by (auto simp: validate_sighting_pin_def andThen_eq_Inr staged_select_Inr Let_def split: if_splits)
    then show ?thesis using False es unfolding so by blast
  qed
qed

lemma pins_pin:
  assumes "staging_ok lm es" "below_max lm"
    "v \<and> \<not> list_ex st_pinned (rows_of (pid, hw) es) \<longrightarrow> \<not> exceeds_pin_reserve lm (health_of es)
      (int (length (of_principal pid (filter st_pinned es))), bytes_of (of_principal pid (filter st_pinned es)))
      (int (length (rows_of (pid, hw) es))) (bytes_of (rows_of (pid, hw) es))"
  shows "pins_ok lm (pin_rows (pid, hw) v es)"
proof -
  have ok: "pins_ok lm es" "sizes_ok es" "uniform_pins es" using assms(1) by (simp_all add: staging_ok_def)
  consider (new) "v" "\<not> list_ex st_pinned (rows_of (pid, hw) es)" | (same) "v" "list_ex st_pinned (rows_of (pid, hw) es)" | (off) "\<not> v"
    by blast
  then show ?thesis
  proof cases
    case new
    have un: "\<forall>r\<in>set es. subject_of r = (pid, hw) \<longrightarrow> \<not> st_pinned r" using new(2) by (auto simp: list_ex_iff rows_of_def)
    have ck: "\<not> exceeds_pin_reserve lm (health_of es)
      (int (length (of_principal pid (filter st_pinned es))), bytes_of (of_principal pid (filter st_pinned es)))
      (int (length (rows_of (pid, hw) es))) (bytes_of (rows_of (pid, hw) es))" using assms(3) new by blast
    have "pins_ok lm (pin_rows (pid, hw) True es)"
      by (rule pins_add_counts [OF ok(1,2) assms(2) ck]) (simp_all add: pin_counts [OF un] del: filter_filter)
    then show ?thesis using new(1) by simp
  next
    case same
    then show ?thesis using ok(1) pin_same [OF uniform_pinned [OF ok(3) same(2)]] by simp
  next
    case off
    then have "filter st_pinned (pin_rows (pid, hw) v es) = filter st_pinned (filter (\<lambda>r. subject_of r \<noteq> (pid, hw)) es)"
      unfolding filter_swap [of st_pinned _ es] by (simp add: unpin_counts del: filter_filter)
    then show ?thesis using pins_filter [OF ok(1,2)] pins_ok_cong by blast
  qed
qed

lemma pin_kept:
  assumes "staging_ok lm (staged_of s)" "below_max lm" "set_sighting_pin x pid hw v lm s = (Inr (), s')"
  shows "staging_ok lm (staged_of s') \<and> staged_of s' = pin_rows (pid, hw) v (staged_of s)"
proof -
  obtain s1 where val: "validate_sighting_pin x pid hw v lm s = (Inr (), s1)"
      "staged_sql x (\<lambda>es. ((), pin_rows (pid, hw) v es)) s1 = (Inr (), s')"
    using assms(3) by (auto simp: set_sighting_pin_def andThen_eq_Inr pin_rows_def)
  note checked = validate_pin_Inr [OF val(1)]
  have s1: "tables s1 = tables s" "staged_readings_t (ledger_t (tables s)) = Some (staged_of s)" using checked by blast+
  have s': "staged_of s' = pin_rows (pid, hw) v (staged_of s)"
    using val(2) s1 unfolding staged_sql_Inr by (auto intro!: staged_of_Some)
  have "pins_ok lm (pin_rows (pid, hw) v (staged_of s))"
    by (rule pins_pin [OF assms(1,2) checked [THEN conjunct2, THEN conjunct2]])
  then show ?thesis using assms(1) s' unfolding staging_ok_def by (simp add: usage_pin uniform_pin pin_rows_keeps)
qed

section \<open>Runs of staging operations\<close>

text \<open>The operations on the staging area, each in the transaction of its caller.\<close>

datatype staging_op =
    StageBatch string i64 "staged_sighting list"
  | PinSubject string string bool

definition staging_act :: "ext \<Rightarrow> staging_limits \<Rightarrow> staging_op \<Rightarrow> (node, timeseries_error, unit) act" where
  "staging_act x lm op = (case op of
     StageBatch pid received gs \<Rightarrow> andThen (stage_sightings_at x pid received gs lm) (\<lambda>_. ret ())
   | PinSubject pid hw v \<Rightarrow> set_sighting_pin x pid hw v lm)"

definition staging_run :: "ext \<Rightarrow> staging_limits \<Rightarrow> staging_op \<Rightarrow> node \<Rightarrow> node" where
  "staging_run x lm op s = snd (transaction x (\<lambda>e. TStorage (StSqlite e)) (staging_act x lm op) s)"

fun unpins :: "staging_op \<Rightarrow> bool" where
  "unpins (PinSubject _ _ v) = (\<not> v)"
| "unpins (StageBatch _ _ _) = False"

lemma staged_of_cong: "tables s = tables t \<Longrightarrow> staged_of s = staged_of t"
  by (simp add: staged_of_def)

lemma pin_rows_pinned:
  assumes "r \<in> set es" "st_pinned r"
  shows "r \<in> set (pin_rows sub True es)"
proof -
  have "r\<lparr> st_pinned := True \<rparr> = r" using assms(2) by (cases r) simp
  then show ?thesis using assms(1) unfolding pin_rows_def set_map by (intro image_eqI [where x = r]) simp_all
qed

lemma staging_act_ok:
  assumes "below_max lm" "staging_ok lm (staged_of s)" "staging_act x lm op s = (Inr u, s')"
  shows "staging_ok lm (staged_of s') \<and> (\<not> unpins op \<longrightarrow> (\<forall>r\<in>set (staged_of s). st_pinned r \<longrightarrow> r \<in> set (staged_of s')))"
proof (cases op)
  case (StageBatch pid received gs)
  then obtain a where "stage_sightings_at x pid received gs lm s = (Inr a, s')"
    using assms(3) by (auto simp: staging_act_def andThen_eq_Inr)
  then show ?thesis using staging_kept [OF assms(2,1)] by blast
next
  case (PinSubject pid hw v)
  then have "set_sighting_pin x pid hw v lm s = (Inr (), s')" using assms(3) by (simp add: staging_act_def)
  note kept = pin_kept [OF assms(2,1) this]
  show ?thesis using kept pin_rows_pinned unfolding PinSubject unpins.simps by auto
qed

lemma staging_run_ok:
  assumes "below_max lm" "staging_ok lm (staged_of s)"
  shows "staging_ok lm (staged_of (staging_run x lm op s)) \<and>
    (\<not> unpins op \<longrightarrow> (\<forall>r\<in>set (staged_of s). st_pinned r \<longrightarrow> r \<in> set (staged_of (staging_run x lm op s))))"
proof (cases "transaction x (\<lambda>e. TStorage (StSqlite e)) (staging_act x lm op) s")
  case (Pair r s')
  then have run: "staging_run x lm op s = s'" by (simp add: staging_run_def)
  show ?thesis
  proof (cases r)
    case (Inl e)
    then have "tables s' = tables s" using Pair by (intro transaction_rollback) simp
    then have "staged_of s' = staged_of s" by (rule staged_of_cong)
    then show ?thesis using assms(2) run by simp
  next
    case (Inr u)
    then have "transaction x (\<lambda>e. TStorage (StSqlite e)) (staging_act x lm op) s = (Inr u, s')" using Pair by simp
    then obtain s1 s2 where t: "tables s1 = tables s" "staging_act x lm op s1 = (Inr u, s2)" "tables s' = tables s2"
      by (rule transaction_commit)
    have es: "staged_of s1 = staged_of s" "staged_of s' = staged_of s2" using t(1,3) staged_of_cong by blast+
    show ?thesis using staging_act_ok [OF assms(1) _ t(2)] assms(2) unfolding run es by blast
  qed
qed

interpretation staging_runs: invariant_system "staging_run x lm" "\<lambda>s. below_max lm \<and> staging_ok lm (staged_of s)" for x lm
  by unfold_locales (use staging_run_ok in blast)

lemma pinned_survive:
  assumes "below_max lm" "staging_ok lm (staged_of s)" "list_all (\<lambda>op. \<not> unpins op) ops" "r \<in> set (staged_of s)" "st_pinned r"
  shows "r \<in> set (staged_of (fold (staging_run x lm) ops s))"
  using assms(2-5)
proof (induction ops arbitrary: s)
  case (Cons op ops)
  then show ?case using staging_run_ok [OF assms(1) Cons.prems(1), of x op] by simp
qed simp

lemma empty_staging_ok: "staging_ok lm []"
proof -
  have "staging_bounds_ok (staging_of lm)" by (rule staging_of_ok)
  then show ?thesis by (auto simp: staging_ok_def sizes_ok_def usage_ok_def pins_ok_def fits_def uniform_pins_def staging_bounds_ok_def Let_def)
qed

section \<open>Properties\<close>

lift_definition demo_dedup_limits :: dedup_limits is "\<lparr> db_global_rows = 2, db_principal_rows = 1, db_max_age_ms = 100 \<rparr>"
  by (simp add: dedup_bounds_ok_def)

lift_definition demo_staging_limits :: staging_limits is "\<lparr> sb_global_rows = 4, sb_principal_rows = 2, sb_global_bytes = 40,
    sb_principal_bytes = 20, sb_max_age_ms = 100, sb_reserve_rows = 1, sb_reserve_bytes = 10 \<rparr>"
  by (simp add: staging_bounds_ok_def)

definition demo_sighting :: "string \<Rightarrow> staged_sighting" where
  "demo_sighting hw = \<lparr> sx_hardware_id = hw, sx_payload_json = ''{}'' \<rparr>"

definition demo_staged_ops :: "staging_op list" where
  "demo_staged_ops = [StageBatch ''p'' 10 [demo_sighting ''h''], StageBatch ''p'' 20 [demo_sighting ''h'']]"

definition demo_staged :: node where
  "demo_staged = fold (staging_run demo_ext demo_staging_limits) demo_staged_ops demo_ledger_node"

lemma demo_below_max: "below_max demo_staging_limits"
  by (simp add: below_max_def demo_staging_limits.rep_eq i64_max_def)

lemma demo_no_fault: "\<not> sql_fault demo_ext n"
  by (simp add: demo_ext_def)

lemma demo_staging_ok: "staging_ok demo_staging_limits (staged_of demo_ledger_node)"
  by (simp add: demo_ledger_node_def empty_tables_def empty_ledger_def staged_of_def empty_staging_ok)

lemma demo_staged_ok: "staging_ok demo_staging_limits (staged_of demo_staged)"
  unfolding demo_staged_def using staging_runs.run_inv [of demo_staging_limits demo_ledger_node] demo_below_max demo_staging_ok by blast

lemma demo_staged_rows: "staged_readings_t (ledger_t (tables demo_staged)) = Some (staged_of demo_staged)"
proof -
  have "staged_readings_t (ledger_t (tables demo_staged)) \<noteq> None" by code_simp
  then show ?thesis by (auto simp: staged_of_def)
qed



text \<open>C35: Staging never outgrows its limits. Under every sequence of batches and pins, whether they are admitted
  or refused, the rows and the payload bytes staged on the node and for each principal stay within the
  configured limits, the pinned ones leave the reserve of one maximal envelope free, and a pinned row is
  kept until its subject is unpinned.\<close>

theorem staging_bounded:
  assumes "below_max lm" "staging_ok lm (staged_of s)"
  shows "staging_ok lm (staged_of (fold (staging_run x lm) ops s)) \<and>
    (list_all (\<lambda>op. \<not> unpins op) ops \<longrightarrow>
      (\<forall>r\<in>set (staged_of s). st_pinned r \<longrightarrow> r \<in> set (staged_of (fold (staging_run x lm) ops s))))"
  using staging_runs.run_inv [of lm s x ops] pinned_survive [OF assms] assms by blast

theorem staging_bounded_witness:
  "staging_ok demo_staging_limits (staged_of (fold (staging_run demo_ext demo_staging_limits)
     [StageBatch ''p'' 10 [demo_sighting ''h''], PinSubject ''p'' ''h'' True] demo_ledger_node))"
  using staging_bounded [OF demo_below_max demo_staging_ok] by blast

text \<open>C36: Hardware that was never staged can always be staged: as long as SQL statements succeed, a batch within
  the reserve whose subjects have no rows yet is admitted, however full the staging area is, because evicting
  unpinned subjects always makes room.\<close>

theorem new_subjects_admitted:
  assumes "\<And>n. \<not> sql_fault x n" "staged_readings_t (ledger_t (tables s)) = Some es" "staging_ok lm es" "below_max lm"
    and "batch_size gs = Inr (rows, sizes, bytes)" "rows \<le> sb_reserve_rows (staging_of lm)" "bytes \<le> sb_reserve_bytes (staging_of lm)"
    and "\<And>g. g \<in> set gs \<Longrightarrow> (pid, sx_hardware_id g) \<notin> subject_of ` set es"
  shows "\<exists>a s'. stage_sightings_at x pid received gs lm s = (Inr a, s')"
  using stage_total [OF assms] .

theorem new_subjects_admitted_witness:
  "\<exists>a s'. stage_sightings_at demo_ext ''p'' 30 [demo_sighting ''k''] demo_staging_limits demo_staged = (Inr a, s')"
proof -
  have "map subject_of (staged_of demo_staged) = [(''p'', ''h''), (''p'', ''h'')]" by code_simp
  then have subs: "subject_of ` set (staged_of demo_staged) = {(''p'', ''h'')}" by (metis list.set(1,2) list.set_map insert_absorb2)
  have size: "batch_size [demo_sighting ''k''] = Inr (1, [2], 2)" by code_simp
  show ?thesis
    by (rule new_subjects_admitted [OF demo_no_fault demo_staged_rows demo_staged_ok demo_below_max size])
      (simp_all add: demo_staging_limits.rep_eq subs demo_sighting_def)
qed

text \<open>C40: A subject can starve itself. When all rows staged for a principal belong to subjects of the batch and
  have not expired, no row may be evicted, so a batch that exceeds the principal's row limit is refused, and it is
  refused again on every retry until the rows expire.\<close>

theorem own_rows_block_staging:
  assumes "\<And>n. \<not> sql_fault x n" "staged_readings_t (ledger_t (tables s)) = Some es" "gs \<noteq> []"
    and "batch_size gs = Inr (rows, sizes, bytes)" "rows \<le> sb_reserve_rows (staging_of lm)" "bytes \<le> sb_reserve_bytes (staging_of lm)"
    and "\<And>r. r \<in> set es \<Longrightarrow> st_principal_id r = pid \<Longrightarrow> st_hardware_id r \<in> sx_hardware_id ` set gs \<and> \<not> st_pinned r \<and>
       saturating_sub received (sb_max_age_ms (staging_of lm)) \<le> st_received_at r"
    and "sb_principal_rows (staging_of lm) < int (length (filter (\<lambda>r. st_principal_id r = pid) es)) + rows"
    and "staging_ok lm es" "below_max lm" "sb_global_rows (staging_of lm) + sb_reserve_rows (staging_of lm) \<le> i64_max"
  shows "fst (stage_sightings_at x pid received gs lm s) = Inl (Limit ''staging capacity is protected by pin reserve'')"
proof (rule stage_blocked [OF assms(1-6) _ assms(8)])
  show "st_hardware_id r \<in> sx_hardware_id ` set gs \<and> \<not> st_pinned r \<and>
      saturating_sub received (sb_max_age_ms (staging_of lm)) \<le> st_received_at r" if "r \<in> set (of_principal pid es)" for r
    using assms(7) that by simp
  have u: "int (length es) \<le> sb_global_rows (staging_of lm)" "bytes_of es \<le> sb_global_bytes (staging_of lm)" "sizes_ok es"
    using assms(9) by (simp_all add: staging_ok_def usage_ok_def fits_def Let_def)
  show "sizes_ok es" by (rule u(3))
  show "bytes_of es \<le> i64_max" using u(2) assms(10) by (simp add: below_max_def)
  show "int (length es) + rows \<le> i64_max"
    using u(1) assms(5,11) by simp
qed

theorem own_rows_block_staging_witness:
  "fst (stage_sightings_at demo_ext ''p'' 30 [demo_sighting ''h''] demo_staging_limits demo_staged) =
     Inl (Limit ''staging capacity is protected by pin reserve'')"
proof -
  have rows: "list_all (\<lambda>r. st_principal_id r = ''p'' \<and> st_hardware_id r = ''h'' \<and> \<not> st_pinned r \<and> 0 \<le> st_received_at r)
      (staged_of demo_staged)" "length (staged_of demo_staged) = 2" by code_simp+
  have size: "batch_size [demo_sighting ''h''] = Inr (1, [2], 2)" by code_simp
  have old: "saturating_sub 30 100 \<le> 0" by (simp add: saturating_sub_def clamp_i64_def i64_min_def i64_max_def)
  have all: "filter (\<lambda>r. st_principal_id r = ''p'') (staged_of demo_staged) = staged_of demo_staged"
    using rows(1) by (auto simp: list_all_iff filter_id_conv)
  show ?thesis
  proof (rule own_rows_block_staging [OF demo_no_fault demo_staged_rows _ size _ _ _ _ demo_staged_ok demo_below_max])
    show "st_hardware_id r \<in> sx_hardware_id ` set [demo_sighting ''h''] \<and> \<not> st_pinned r \<and>
        saturating_sub 30 (sb_max_age_ms (staging_of demo_staging_limits)) \<le> st_received_at r"
      if "r \<in> set (staged_of demo_staged)" "st_principal_id r = ''p''" for r
      using rows(1) that old by (auto simp: list_all_iff demo_sighting_def demo_staging_limits.rep_eq)
  qed (use all rows(2) in \<open>simp_all add: demo_staging_limits.rep_eq i64_max_def\<close>)
qed

end
