(* ===== verification/Collector_Props.thy ===== *)
theory Collector_Props
  imports Frames Timeseries_Props
begin

text \<open>
  Properties of the collector: the shape of an acknowledgement, the atomicity of a submission, what an
  accepted envelope adds to the readings and to the publication log, the absence of panics, and the
  agreement of the resolution cache with the ledger.
\<close>

section \<open>Actions on the state of the task\<close>

lemma wk_node_with_node [simp]: "wk_node (with_node n w) = n"
  by (simp add: with_node_def)

lemma with_node_fields [simp]: "wk_cache (with_node n w) = wk_cache w" "wk_pending (with_node n w) = wk_pending w"
    "wk_faults (with_node n w) = wk_faults w" "wk_intrusions (with_node n w) = wk_intrusions w"
  by (simp_all add: with_node_def)

lemma on_conn_Inr [simp]:
  "on_conn cause m w = (Inr a, w') \<longleftrightarrow> (\<exists>n. m (wk_node w) = (Inr a, n) \<and> w' = with_node n w)"
  by (auto simp: on_conn_def split: prod.splits sum.splits)

lemma on_conn_Inl:
  "on_conn cause m w = (Inl e, w') \<longleftrightarrow> (\<exists>n e'. m (wk_node w) = (Inl e', n) \<and> e = StorageFailure (cause e') \<and> w' = with_node n w)"
  by (auto simp: on_conn_def split: prod.splits sum.splits)

lemma change_work_eq [simp]: "change_work f w = (r, w') \<longleftrightarrow> r = Inr () \<and> w' = f w"
  by (auto simp: change_work_def)

lemma read_work_eq [simp]: "read_work f w = (r, w') \<longleftrightarrow> r = Inr (f w) \<and> w' = w"
  by (auto simp: read_work_def)

text \<open>Actions of the task that keep a property of the tables.\<close>

definition wkeeps :: "(tables \<Rightarrow> bool) \<Rightarrow> 'a work_act \<Rightarrow> bool" where
  "wkeeps I m \<longleftrightarrow> triple (\<lambda>w. I (wk_tables w)) m (\<lambda>_ w. I (wk_tables w)) (\<lambda>_ w. I (wk_tables w))"

named_theorems wkeeps_intros \<open>actions of the task that keep a property of the tables\<close>

lemma wkeepsI: "(\<And>w r w'. I (wk_tables w) \<Longrightarrow> m w = (r, w') \<Longrightarrow> I (wk_tables w')) \<Longrightarrow> wkeeps I m"
  by (auto simp: wkeeps_def intro!: tripleI)

lemma wkeepsD: "wkeeps I m \<Longrightarrow> m w = (r, w') \<Longrightarrow> I (wk_tables w) \<Longrightarrow> I (wk_tables w')"
  by (cases r) (auto simp: wkeeps_def dest: tripleD_Inr tripleD_Inl)

lemma wkeeps_ret [wkeeps_intros]: "wkeeps I (ret a)" and wkeeps_throw [wkeeps_intros]: "wkeeps I (throw e)"
  by (auto intro!: wkeepsI)

lemma wkeeps_andThen [wkeeps_intros]: "wkeeps I m \<Longrightarrow> (\<And>a. wkeeps I (f a)) \<Longrightarrow> wkeeps I (andThen m f)"
  unfolding wkeeps_def by (rule triple_andThen_inv)

lemma wkeeps_on_conn [wkeeps_intros]: "keeps I m \<Longrightarrow> wkeeps I (on_conn cause m)"
  by (rule wkeepsI) (auto simp: on_conn_def split: prod.splits sum.splits dest: keepsD')

lemma wkeeps_read_work [wkeeps_intros]: "wkeeps I (read_work f)"
  by (rule wkeepsI) simp

lemma wkeeps_change_work: "(\<And>w. wk_tables (f w) = wk_tables w) \<Longrightarrow> wkeeps I (change_work f)"
  by (rule wkeepsI) simp

lemma wkeeps_If [wkeeps_intros]: "(b \<Longrightarrow> wkeeps I m) \<Longrightarrow> (\<not> b \<Longrightarrow> wkeeps I n) \<Longrightarrow> wkeeps I (if b then m else n)"
  by simp

lemma wkeeps_case_option [wkeeps_intros]:
  "(v = None \<Longrightarrow> wkeeps I m) \<Longrightarrow> (\<And>a. v = Some a \<Longrightarrow> wkeeps I (f a)) \<Longrightarrow> wkeeps I (case v of None \<Rightarrow> m | Some a \<Rightarrow> f a)"
  by (cases v) auto

lemma wkeeps_case_sum [wkeeps_intros]:
  "(\<And>a. v = Inl a \<Longrightarrow> wkeeps I (g a)) \<Longrightarrow> (\<And>b. v = Inr b \<Longrightarrow> wkeeps I (f b)) \<Longrightarrow>
   wkeeps I (case v of Inl a \<Rightarrow> g a | Inr b \<Rightarrow> f b)"
  by (cases v) auto

lemma wkeeps_case_prod [wkeeps_intros]: "(\<And>a b. p = (a, b) \<Longrightarrow> wkeeps I (f a b)) \<Longrightarrow> wkeeps I (case_prod f p)"
  by (cases p) auto

lemma wkeeps_emit_intrusion [wkeeps_intros]: "wkeeps I (emit_intrusion cp p k)"
  unfolding emit_intrusion_def by (rule wkeeps_change_work) simp

lemma wkeeps_resolve_subject [wkeeps_intros]: "wkeeps I (resolve_subject x p i n)"
  unfolding resolve_subject_def by (intro wkeeps_intros wkeeps_change_work keeps_intros) simp_all

lemma wkeeps_cached_series [wkeeps_intros]:
  "(\<And>q r. keeps I (ensure_series x sys key channel variant q r)) \<Longrightarrow> wkeeps I (cached_series x sys key channel variant q)"
  unfolding cached_series_def Let_def by (intro wkeeps_intros wkeeps_change_work) simp_all

lemma wkeeps_deliver_item [wkeeps_intros]: "(\<And>nd r. keeps I (deliver x nd r)) \<Longrightarrow> wkeeps I (deliver_item x cp p i received)"
  unfolding deliver_item_def by (intro wkeeps_intros wkeeps_change_work) simp_all

lemma wkeeps_authentication [wkeeps_intros]: "wkeeps I (authentication_is_current_at_serialization x p)"
  unfolding authentication_is_current_at_serialization_def by (intro wkeeps_intros keeps_intros)

lemma wkeeps_refresh_cache [wkeeps_intros]: "wkeeps I (change_work (refresh_cache gen))"
  by (rule wkeeps_change_work) (simp add: refresh_cache_def)

section \<open>The composition of the node\<close>

text \<open>What the collector relies on of its registry policy and its clock.\<close>

locale composed =
  fixes cp :: composition
  assumes policy_framed: "keeps (\<lambda>t. wide t = c) (cp_policy cp sys i)"
    and policy_rejects: "cp_policy cp sys i s = (Inr (RejectItem code msg), s') \<Longrightarrow> code = ValueTypeMismatch"
    and policy_quarantines: "cp_policy cp sys i s = (Inr (Accept key channel q), s') \<Longrightarrow> q \<noteq> Some DeviceQuarantined"
    and clock_reads: "cp_clock cp k = (r, k') \<Longrightarrow> tables (ck_node k') = tables (ck_node k)"

lemma freshness_tables: "freshness x received r k = (res, k') \<Longrightarrow> tables (ck_node k') = tables (ck_node k)"
  by (auto simp: freshness_def refresh_def persisted_floor_def andThen_def on_node_def set_state_def mapErr_def select_def
      sql_def ret_def Let_def split: prod.splits sum.splits if_splits)

lemma evaluate_item_verdicts:
  assumes "evaluate_item x txt sys i s = (Inr v, s')"
  shows "v = RejectItem code msg \<Longrightarrow> code = ValueTypeMismatch" "v = Accept key channel q \<Longrightarrow> q \<noteq> Some DeviceQuarantined"
proof -
  obtain r s1 where "(case r of None \<Rightarrow> ret (Accept (it_measurement_key i) (raw_channel i) (Some UnknownKey))
     | Some (e, key) \<Rightarrow> evaluate_resolved x txt sys i e key) s1 = (Inr v, s')"
    using assms unfolding evaluate_item_def by (elim andThen_InrE) blast
  then consider "v = Accept (it_measurement_key i) (raw_channel i) (Some UnknownKey)"
    | e k where "evaluate_resolved x txt sys i e k s1 = (Inr v, s')"
    by (cases r) (auto split: prod.splits)
  then have "(\<forall>code msg. v = RejectItem code msg \<longrightarrow> code = ValueTypeMismatch) \<and>
      (\<forall>key channel q. v = Accept key channel q \<longrightarrow> q \<noteq> Some DeviceQuarantined)"
  proof cases
    case (2 e k)
    then show ?thesis
      by (cases "value_mismatch txt e (it_values i)")
        (auto simp: evaluate_resolved_def andThen_eq_Inr split: prod.splits if_splits)
  qed simp
  then show "v = RejectItem code msg \<Longrightarrow> code = ValueTypeMismatch" "v = Accept key channel q \<Longrightarrow> q \<noteq> Some DeviceQuarantined"
    by blast+
qed

interpretation node: composed "node_composition x num received r pl et st" for x num received r pl et st
proof (unfold_locales, unfold node_composition_def sqlite_policy_def composition.select_convs)
  show "keeps (\<lambda>t. wide t = c) (evaluate_item x num sys i)" for c sys i by (rule framed_evaluate_item)
  show "code = ValueTypeMismatch" if "evaluate_item x num sys i s = (Inr (RejectItem code msg), s')" for sys i s code msg s'
    using evaluate_item_verdicts(1) [OF that] by simp
  show "q \<noteq> Some DeviceQuarantined" if "evaluate_item x num sys i s = (Inr (Accept key channel q), s')" for sys i s key channel q s'
    using evaluate_item_verdicts(2) [OF that] by simp
  show "tables (ck_node k') = tables (ck_node k)" if "freshness x received r k = (res, k')" for k res k'
    using that by (rule freshness_tables)
qed

lemma clock_received: "\<exists>k k'. cp_clock (node_composition x num received r pl et st) k = (Inr clock, k') \<Longrightarrow> fs_received_at_ms clock = received"
  by (auto simp: node_composition_def freshness_def case_prod_beta)

section \<open>What an item adds\<close>

abbreviation readings_in :: "tables \<Rightarrow> reading_entry list" where
  "readings_in t \<equiv> readings_t (timeseries_t t)"

definition stored_reading :: "ext \<Rightarrow> new_reading \<Rightarrow> reading_entry" where
  "stored_reading x r = (case derive_event_time (nr_received_at_ms r) (nr_device_time_ms r) (nr_time_source r) of (et, ets) \<Rightarrow>
     \<lparr> rd_seq = 0, rd_series_id = nr_series_id r, rd_received_at = nr_received_at_ms r,
       rd_device_time = nr_device_time_ms r, rd_time_source = nr_time_source r, rd_time_quality = ''unsynced'',
       rd_event_time = et, rd_event_time_source = ets, rd_values_json = json_text x (JArr (map JNum (nr_values r))),
       rd_rssi = nr_rssi r, rd_battery_pct = nr_battery_pct r, rd_quarantined = nr_quarantined r \<rparr>)"

text \<open>The rows an item with a given status adds to the readings.\<close>

fun added_rows :: "ext \<Rightarrow> item_context \<Rightarrow> reading_item \<Rightarrow> item_status \<Rightarrow> reading_entry list \<Rightarrow> bool" where
  "added_rows x ctx i (Stored Durable q) rs \<longleftrightarrow> q = None \<and> (\<exists>series. rs = [stored_reading x (new_reading_of ctx i series False)])"
| "added_rows x ctx i (Stored QuarantinedRow q) rs \<longleftrightarrow> q \<noteq> None \<and> (\<exists>series. rs = [stored_reading x (new_reading_of ctx i series True)])"
| "added_rows x ctx i (Stored Staged q) rs \<longleftrightarrow> q = None \<and> rs = []"
| "added_rows x ctx i (ItemRejected r) rs \<longleftrightarrow> rs = [] \<and> rj_reason_code r \<notin> {BatchTooLarge, InternalFailure}"

text \<open>The custody view after a reading is added, and published unless it is quarantined or the node waits for its activation.\<close>

definition add_publication :: "string \<Rightarrow> i64 \<Rightarrow> i64 \<Rightarrow> publication_store \<Rightarrow> publication_store" where
  "add_publication ep received n p = (if ac_state (activation_t p) = ''discovery_only'' then p
     else p\<lparr> publication_log_t := publication_log_t p @ [(new_publication ep ''measurement'' None (Some n) None received)
            \<lparr> pb_pub_seq := publication_autoinc p + 1 \<rparr>],
          publication_autoinc := publication_autoinc p + 1 \<rparr>)"

definition add_reading :: "string \<Rightarrow> i64 \<Rightarrow> reading_entry \<Rightarrow>
    reading_entry list \<times> i64 \<times> publication_store \<times> string option \<Rightarrow> reading_entry list \<times> i64 \<times> publication_store \<times> string option" where
  "add_reading ep received r c = (case c of (rs, n, p, e) \<Rightarrow>
     (rs @ [r\<lparr> rd_seq := n + 1 \<rparr>], n + 1, if rd_quarantined r then p else add_publication ep received (n + 1) p, e))"

lemma insert_reading_v3_Inr:
  assumes "insert_reading_v3 x r s = (Inr n, s')"
  shows "n = readings_autoinc (timeseries_t (tables s)) + 1" "tables s' = (tables s)\<lparr> timeseries_t := (timeseries_t (tables s))
     \<lparr> readings_autoinc := n, readings_t := readings_in (tables s) @ [(stored_reading x r)\<lparr> rd_seq := n \<rparr>] \<rparr> \<rparr>"
  using assms by (auto simp: insert_reading_v3_def insert_reading_row_def ts_sql_Inr stored_reading_def Let_def throw_def
      split: option.splits prod.splits if_splits)

lemma stored_reading_quarantined [simp]: "rd_quarantined (stored_reading x (new_reading_of ctx i series q)) = q"
  by (auto simp: stored_reading_def new_reading_of_def split: prod.splits)

lemma custody_insert_reading:
  assumes "insert_reading_v3 x r s = (Inr n, s')"
  shows "custody (tables s') = (case custody (tables s) of (rs, m, p, e) \<Rightarrow> (rs @ [(stored_reading x r)\<lparr> rd_seq := m + 1 \<rparr>], m + 1, p, e))"
    "n = readings_autoinc (timeseries_t (tables s)) + 1"
  using insert_reading_v3_Inr [OF assms] by (simp_all add: custody_def)

lemma publication_admitted_Inr:
  assumes "publication_admitted x s = (Inr b, s')"
  shows "tables s' = tables s" "b \<longleftrightarrow> ac_state (activation_of (tables s)) \<noteq> ''discovery_only''"
  using assms by (auto simp: publication_admitted_def activation_state_of_def activation_from_db_def andThen_eq_Inr pub_select_eq
      liftR_def split: if_splits)

lemma enqueue_measurement_Inr:
  assumes "enqueue_measurement x ep n now s = (Inr k, s')" "ac_state (activation_of (tables s)) \<noteq> ''discovery_only''"
  shows "custody (tables s') = (case custody (tables s) of (rs, m, p, e) \<Rightarrow> (rs, m, add_publication ep now n p, e))"
proof -
  have "tables s' = (tables s)\<lparr> publish_t := (publish_t (tables s))\<lparr>
      publication_log_t := log_rows (tables s) @ [(new_publication ep ''measurement'' None (Some n) None now)
        \<lparr> pb_pub_seq := publication_autoinc (publish_t (tables s)) + 1 \<rparr>],
      publication_autoinc := publication_autoinc (publish_t (tables s)) + 1 \<rparr> \<rparr>"
    using assms(1) by (auto simp: enqueue_measurement_def require_publication_admitted_def andThen_eq_Inr pub_sql_eq
        insert_publication_def same_annotation_def new_publication_def throw_def Let_def
        dest!: publication_admitted_Inr(1) split: if_splits)
  then show ?thesis using assms(2) by (simp add: custody_def add_publication_def)
qed

lemma store_item_effect:
  assumes "store_item x cp up ctx i sys st key channel q w = (Inr s, w')" "q \<noteq> Some DeviceQuarantined"
  shows "\<exists>rs. added_rows x ctx i s rs \<and>
    custody (wk_tables w') = fold (add_reading (ix_epoch ctx) (ix_received_at ctx)) rs (custody (wk_tables w))"
proof -
  let ?q = "q \<noteq> None \<or> st = Quarantined"
  obtain series w1 n s2 where 1: "cached_series x sys key channel (item_variant i) q w = (Inr series, w1)"
      and 2: "insert_reading_v3 x (new_reading_of ctx i series ?q) (wk_node w1) = (Inr n, s2)"
      and 3: "(if ?q then ret (Stored QuarantinedRow (either q (if st = Quarantined then Some DeviceQuarantined else None)))
         else andThen (deliver_item x cp (ix_principal ctx) i
             \<lparr> uptime_ms = up, unix_epoch_ms = fs_trusted_wall_time_ms (ix_clock ctx) \<rparr>) (\<lambda>_.
           andThen (on_conn CPublish (publication_admitted x)) (\<lambda>admitted.
           andThen (if admitted
             then andThen (on_conn CPublish (enqueue_measurement x (ix_epoch ctx) n (ix_received_at ctx))) (\<lambda>_. ret ())
             else ret ()) (\<lambda>_.
           ret (Stored Durable None))))) (with_node s2 w1) = (Inr s, w')"
    using assms(1) unfolding store_item_def Let_def by (elim andThen_InrE) auto
  have c1: "custody (wk_tables w1) = custody (wk_tables w)"
    by (rule wkeepsD [OF wkeeps_cached_series 1]) (auto intro: keeps_intros)
  note c2 = custody_insert_reading [OF 2]
  obtain rs m p e where c: "custody (wk_tables w) = (rs, m, p, e)" by (metis prod_cases4)
  have m: "n = m + 1" using c c1 c2(2) by (simp add: custody_def)
  show ?thesis
  proof (cases ?q)
    case True
    then have "s = Stored QuarantinedRow (either q (if st = Quarantined then Some DeviceQuarantined else None))" "w' = with_node s2 w1"
      using 3 by simp_all
    moreover have "either q (if st = Quarantined then Some DeviceQuarantined else None) \<noteq> None"
      using True by (auto simp: either_def split: option.splits)
    ultimately show ?thesis using True c c1 c2(1)
      by (intro exI [of _ "[stored_reading x (new_reading_of ctx i series True)]"]) (auto simp: add_reading_def)
  next
    case False
    obtain w3 admitted s4 w5 where 4: "deliver_item x cp (ix_principal ctx) i
          \<lparr> uptime_ms = up, unix_epoch_ms = fs_trusted_wall_time_ms (ix_clock ctx) \<rparr> (with_node s2 w1) = (Inr (), w3)"
        and 5: "publication_admitted x (wk_node w3) = (Inr admitted, s4)"
        and 6: "(if admitted then andThen (on_conn CPublish (enqueue_measurement x (ix_epoch ctx) n (ix_received_at ctx))) (\<lambda>_. ret ())
           else ret ()) (with_node s4 w3) = (Inr (), w5)" and 7: "s = Stored Durable None" "w' = w5"
      using 3 False by (auto elim!: andThen_InrE simp del: if_split_asm)
    have c3: "custody (wk_tables w3) = custody (tables s2)"
      by (rule wkeepsD [OF wkeeps_deliver_item 4]) (auto intro: keeps_intros)
    note a = publication_admitted_Inr [OF 5]
    have p3: "custody (tables s4) = (rs @ [(stored_reading x (new_reading_of ctx i series False))\<lparr> rd_seq := m + 1 \<rparr>], m + 1, p, e)"
      using c c1 c2(1) c3 a(1) False by simp
    have "custody (wk_tables w5) = (rs @ [(stored_reading x (new_reading_of ctx i series False))\<lparr> rd_seq := m + 1 \<rparr>], m + 1,
        add_publication (ix_epoch ctx) (ix_received_at ctx) (m + 1) p, e)"
    proof (cases admitted)
      case True
      then obtain k s6 where "enqueue_measurement x (ix_epoch ctx) n (ix_received_at ctx) s4 = (Inr k, s6)" "w5 = with_node s6 (with_node s4 w3)"
        using 6 by (auto simp: andThen_eq_Inr)
      then show ?thesis using enqueue_measurement_Inr [of x "ix_epoch ctx" n "ix_received_at ctx" s4 k s6] a p3 m True by simp
    next
      case no: False
      then have "ac_state (activation_t p) = ''discovery_only''" using a p3 by (simp add: custody_def)
      then show ?thesis using 6 no p3 by (auto simp: add_publication_def)
    qed
    then show ?thesis using 7 c
      by (intro exI [of _ "[stored_reading x (new_reading_of ctx i series False)]"]) (auto simp: add_reading_def)
  qed
qed

text \<open>A rejection of the freshness check has the code of a stale timestamp.\<close>

lemma item_violation_code:
  assumes "item_violation cp ctx i n = Some (Some s)"
  shows "added_rows x ctx i s []"
  using assms by (auto simp: item_violation_def freshness_rejection_def rejected_def split: sum.splits if_splits option.splits)

lemma rejected_rows [simp]: "added_rows x ctx i (rejected code msg path hint) rs \<longleftrightarrow> rs = [] \<and> code \<notin> {BatchTooLarge, InternalFailure}"
  by (simp add: rejected_def)

text \<open>The parts of an envelope's body: the claim, and what follows it.\<close>

definition context_of :: "ingest_request \<Rightarrow> freshness_snapshot \<Rightarrow> string \<Rightarrow> item_context" where
  "context_of rq clock ep = \<lparr> ix_principal = iq_principal rq, ix_received_at = fs_received_at_ms clock, ix_clock = clock, ix_epoch = ep \<rparr>"

definition claim_step :: "ext \<Rightarrow> ingest_request \<Rightarrow> bool \<Rightarrow> freshness_snapshot \<Rightarrow> bool work_act" where
  "claim_step x rq commit clock = andThen (on_conn CLedger (current_generation x)) (\<lambda>gen.
     andThen (change_work (refresh_cache gen)) (\<lambda>_.
     if commit then on_conn CTimeseries (try_claim_envelope_bounded_at x (ip_principal_id (iq_principal rq))
         (en_envelope_id (iq_envelope rq)) (fs_received_at_ms clock) default_dedup_limits) else ret True))"

definition claimed_body :: "ext \<Rightarrow> composition \<Rightarrow> (nat \<Rightarrow> i64) \<Rightarrow> ingest_request \<Rightarrow> bool \<Rightarrow> freshness_snapshot \<Rightarrow> ending work_act" where
  "claimed_body x cp up rq commit clock = andThen (claim_step x rq commit clock) (\<lambda>claimed.
     if \<not> claimed then ret (Dropped Duplicate) else accept_items x cp up rq commit clock)"

lemma andThen_assoc: "andThen (andThen m f) g = andThen m (\<lambda>a. andThen (f a) g)"
  by (rule ext) (auto simp: andThen_def split: prod.splits sum.splits)

lemma envelope_body_eq: "envelope_body x cp up rq commit =
     (let p = iq_principal rq; env = iq_envelope rq in
      andThen (authentication_is_current_at_serialization x p) (\<lambda>current.
      if \<not> current then throw AuthenticationStale
      else if en_source env \<noteq> ip_configured_source p
      then andThen (emit_intrusion cp p SourceMismatch) (\<lambda>_.
        ret (envelope_rejected SubjectScopeViolation ''configured source does not match authenticated principal''
          ''/source'' ''configured authenticated source identity''))
      else if MAX_ITEMS_PER_ENVELOPE < length (en_items env)
      then ret (envelope_rejected BatchTooLarge (''items '' @ dec_nat (length (en_items env)) @ '' > '' @ dec_nat MAX_ITEMS_PER_ENVELOPE)
        ''/items'' (''at most '' @ dec_nat MAX_ITEMS_PER_ENVELOPE @ '' items''))
      else andThen (snapshot_clock cp) (\<lambda>clock.
        if fs_trusted_wall_time_ms clock = None \<and> list_ex requires_absolute_time (en_items env)
        then throw ProcessClockUntrusted else claimed_body x cp up rq commit clock)))"
  unfolding envelope_body_def claimed_body_def claim_step_def andThen_assoc Let_def by (rule refl)

lemma custody_claim_step: "wkeeps (\<lambda>t. custody t = c) (claim_step x rq commit clock)"
  unfolding claim_step_def by (intro wkeeps_intros keeps_intros)

lemma wkeeps_stage_pending:
  assumes "\<And>gs. keeps I (stage_sightings_at x pid received gs default_staging_limits)" "\<And>hw. keeps I (record_sighting x hw pid)"
    and "\<And>d. keeps I (record_event x ''staging_bounds'' None d)"
  shows "wkeeps I (stage_pending x pid received)"
  unfolding stage_pending_def by (intro wkeeps_intros keeps_intros assms)

text \<open>What follows the claim keeps the claims.\<close>

lemma narrow_claims: "(\<And>d. framed d m) \<Longrightarrow> keeps (\<lambda>t. dedup_rows t = c) m"
  by (rule keeps_coarser [where v = wide], assumption) (simp add: wide_def)

lemma claims_kept:
  "keeps (\<lambda>t. dedup_rows t = c) (ledger_epoch x)" "keeps (\<lambda>t. dedup_rows t = c) (ensure_series x i key ch v q r)"
  "keeps (\<lambda>t. dedup_rows t = c) (insert_reading_v3 x rd)" "keeps (\<lambda>t. dedup_rows t = c) (deliver x nd ar)"
  "keeps (\<lambda>t. dedup_rows t = c) (publication_admitted x)" "keeps (\<lambda>t. dedup_rows t = c) (enqueue_measurement x ep k now)"
  "keeps (\<lambda>t. dedup_rows t = c) (stage_sightings_at x pid received gs lm)"
  "keeps (\<lambda>t. dedup_rows t = c) (record_sighting x hw src)" "keeps (\<lambda>t. dedup_rows t = c) (record_event x ek ei ed)"
proof -
  show "keeps (\<lambda>t. dedup_rows t = c) (ledger_epoch x)" unfolding ledger_epoch_def
    by (intro keeps_intros keeps_ledger_sql) (auto split: if_splits)
  show "keeps (\<lambda>t. dedup_rows t = c) (ensure_series x i key ch v q r)" unfolding ensure_series_def
    by (auto intro!: keeps_andThen keeps_now_ms keeps_ledger_select keeps_case_option keeps_ret keeps_ledger_sql)
  show "keeps (\<lambda>t. dedup_rows t = c) (insert_reading_v3 x rd)" unfolding insert_reading_v3_def
    by (intro keeps_intros keeps_ts_sql) (auto simp: insert_reading_row_def Let_def split: if_splits)
  show "keeps (\<lambda>t. dedup_rows t = c) (publication_admitted x)" by (rule keeps_activation_state)
  show "keeps (\<lambda>t. dedup_rows t = c) (enqueue_measurement x ep k now)" unfolding enqueue_measurement_def
    by (intro keeps_intros keeps_pub_sql) (auto simp: insert_publication_def Let_def split: if_splits)
qed (intro narrow_claims keeps_intros)+

lemma wkeeps_verdict [wkeeps_intros]:
  "(\<And>a b. v = RejectItem a b \<Longrightarrow> wkeeps I (g a b)) \<Longrightarrow> (\<And>a b q. v = Accept a b q \<Longrightarrow> wkeeps I (f a b q)) \<Longrightarrow>
   wkeeps I (case v of RejectItem a b \<Rightarrow> g a b | Accept a b q \<Rightarrow> f a b q)"
  by (cases v) auto

lemma claim_step_claims:
  assumes "claim_step x rq True clock w = (Inr b, w')"
  obtains s s' where "try_claim_envelope_bounded_at x (ip_principal_id (iq_principal rq)) (en_envelope_id (iq_envelope rq))
      (fs_received_at_ms clock) default_dedup_limits s = (Inr b, s')" "tables s = wk_tables w" "tables s' = wk_tables w'"
proof -
  obtain gen w1 where 1: "on_conn CLedger (current_generation x) w = (Inr gen, w1)"
      and 2: "on_conn CTimeseries (try_claim_envelope_bounded_at x (ip_principal_id (iq_principal rq)) (en_envelope_id (iq_envelope rq))
         (fs_received_at_ms clock) default_dedup_limits) (refresh_cache gen w1) = (Inr b, w')"
    using assms unfolding claim_step_def by (auto elim!: andThen_InrE simp del: on_conn_Inr)
  have "wk_tables w1 = wk_tables w" by (rule wkeepsD [OF wkeeps_on_conn 1]) (auto intro: keeps_intros)
  then show ?thesis using 2 that by (auto simp: refresh_cache_def split: if_splits)
qed

context composed
begin

lemma wkeeps_policy: "wkeeps (\<lambda>t. custody t = c) (on_conn CPolicy (cp_policy cp sys i))"
  by (intro wkeeps_intros narrow policy_framed)

lemma accept_item_effect:
  assumes "accept_item x cp up ctx i sys st w = (Inr s, w')"
  shows "\<exists>rs. added_rows x ctx i s rs \<and>
    custody (wk_tables w') = fold (add_reading (ix_epoch ctx) (ix_received_at ctx)) rs (custody (wk_tables w))"
proof -
  obtain v n where 1: "cp_policy cp sys i (wk_node w) = (Inr v, n)"
      and 2: "(case v of RejectItem code msg \<Rightarrow> ret (ItemRejected \<lparr> rj_reason_code = code, rj_message = msg,
          rj_field_path = None, rj_schema_hint = None \<rparr>)
        | Accept key channel q \<Rightarrow> store_item x cp up ctx i sys st key channel q) (with_node n w) = (Inr s, w')"
    using assms unfolding accept_item_def by (elim andThen_InrE) auto
  have c: "custody (tables n) = custody (wk_tables w)"
    using keepsD' [OF narrow [OF policy_framed] _ 1, of "custody (wk_tables w)"] by simp
  show ?thesis
  proof (cases v)
    case (Accept key channel q)
    then have "store_item x cp up ctx i sys st key channel q (with_node n w) = (Inr s, w')" using 2 by simp
    from store_item_effect [OF this policy_quarantines] 1 Accept c show ?thesis by simp
  next
    case (RejectItem code msg)
    then show ?thesis using 1 2 c policy_rejects by fastforce
  qed
qed

lemma process_item_effect:
  assumes "process_item x cp up ctx i n w = (Inr s, w')"
  shows "\<exists>rs. added_rows x ctx i s rs \<and>
    custody (wk_tables w') = fold (add_reading (ix_epoch ctx) (ix_received_at ctx)) rs (custody (wk_tables w))"
proof -
  let ?p = "ix_principal ctx"
  obtain r w1 where 1: "resolve_subject x ?p i n w = (Inr r, w1)"
      and 2: "(case r of Inl status \<Rightarrow> ret status
      | Inr (hint, found) \<Rightarrow>
          if (case found of Some (s, _) \<Rightarrow> \<not> subject_allowed ?p s | None \<Rightarrow> False)
          then andThen (emit_intrusion cp ?p ScopeViolation) (\<lambda>_.
            ret (rejected SubjectScopeViolation ''subject is outside the authenticated principal scope''
              (item_path n ''subject_hint'') ''subject authorized for this principal''))
          else (case item_violation cp ctx i n of
            None \<Rightarrow> throw Panicked
          | Some (Some status) \<Rightarrow> ret status
          | Some None \<Rightarrow> (case found of
              Some (s, st) \<Rightarrow> accept_item x cp up ctx i s st
            | None \<Rightarrow> (case hint of
                None \<Rightarrow> ret (rejected UnknownSubject (''the principal'' @ [CHR 0x27] @ ''s sole subject is not registered'')
                  (item_path n ''subject_hint'') ''registered subject identifier'')
              | Some hw \<Rightarrow> if can_stage_unknown ?p then stage_item x i hw
                  else ret (rejected UnknownSubject ''subject is not registered'' (item_path n ''subject_hint'')
                    ''registered subject identifier''))))) w1 = (Inr s, w')"
    using assms unfolding process_item_def Let_def by (elim andThen_InrE) auto
  have c: "custody (wk_tables w1) = custody (wk_tables w)" by (rule wkeepsD [OF wkeeps_resolve_subject 1]) simp
  consider (early) status where "r = Inl status" "s = status" "w' = w1"
    | (none) "added_rows x ctx i s []" "custody (wk_tables w') = custody (wk_tables w1)"
    | (known) sys st where "accept_item x cp up ctx i sys st w1 = (Inr s, w')"
    using 2 by (auto simp: andThen_eq_Inr emit_intrusion_def stage_item_def split: sum.splits prod.splits if_splits option.splits
        dest!: item_violation_code [where x = x])
  then show ?thesis
  proof cases
    case early
    then have "added_rows x ctx i s []" using 1
      by (auto simp: resolve_subject_def andThen_eq_Inr split: option.splits)
    then show ?thesis using early c by (intro exI [of _ "[]"]) simp
  next
    case none
    then show ?thesis using c by (intro exI [of _ "[]"]) simp
  next
    case known
    from accept_item_effect [OF known] c show ?thesis by simp
  qed
qed

lemma process_items_effect:
  assumes "process_items x cp up ctx n is w = (Inr ss, w')"
  shows "\<exists>rss. list_all2 (\<lambda>(i, s) rs. added_rows x ctx i s rs) (zip is ss) rss \<and> length ss = length is \<and>
    custody (wk_tables w') = fold (add_reading (ix_epoch ctx) (ix_received_at ctx)) (concat rss) (custody (wk_tables w))"
  using assms
proof (induction "is" arbitrary: n w ss)
  case Nil
  then show ?case by (intro exI [of _ "[]"]) simp
next
  case (Cons i "is")
  obtain s w1 ss' where 1: "process_item x cp (up n) ctx i n w = (Inr s, w1)"
      and 2: "process_items x cp up ctx (Suc n) is w1 = (Inr ss', w')" and ss: "ss = s # ss'"
    using Cons.prems by (auto elim!: andThen_InrE)
  obtain rs where rs: "added_rows x ctx i s rs"
      "custody (wk_tables w1) = fold (add_reading (ix_epoch ctx) (ix_received_at ctx)) rs (custody (wk_tables w))"
    using process_item_effect [OF 1] by blast
  obtain rss where rss: "list_all2 (\<lambda>(i, s) rs. added_rows x ctx i s rs) (zip is ss') rss" "length ss' = length is"
      "custody (wk_tables w') = fold (add_reading (ix_epoch ctx) (ix_received_at ctx)) (concat rss) (custody (wk_tables w1))"
    using Cons.IH [OF 2] by blast
  show ?case using rs rss ss by (intro exI [of _ "rs # rss"]) simp
qed

lemma wkeeps_snapshot_clock [wkeeps_intros]: "wkeeps I (snapshot_clock cp)"
  by (rule wkeepsI) (auto simp: snapshot_clock_def split: prod.splits sum.splits dest: clock_reads)

lemma accept_items_effect:
  assumes "accept_items x cp up rq commit clock w = (Inr e, w')"
  shows "\<exists>ss ep rss. e = (if commit then Committed else RolledBack) (Accepted ss) \<and>
    length ss = length (en_items (iq_envelope rq)) \<and>
    list_all2 (\<lambda>(i, s) rs. added_rows x (context_of rq clock ep) i s rs) (zip (en_items (iq_envelope rq)) ss) rss \<and>
    (\<forall>k. meta_value ''epoch'' (ledger_t (wk_tables w)) = Some k \<longrightarrow> ep = k \<and>
       custody (wk_tables w') = fold (add_reading ep (fs_received_at_ms clock)) (concat rss) (custody (wk_tables w)))"
proof -
  let ?p = "iq_principal rq" and ?received = "fs_received_at_ms clock"
  obtain ep n ss w2 where 1: "ledger_epoch x (wk_node w) = (Inr ep, n)"
      and 2: "process_items x cp up (context_of rq clock ep) 0 (en_items (iq_envelope rq)) (with_node n w) = (Inr ss, w2)"
      and 3: "stage_pending x (ip_principal_id ?p) ?received w2 = (Inr (), w')"
      and e: "e = (if commit then Committed else RolledBack) (Accepted ss)"
    using assms unfolding accept_items_def Let_def context_of_def by (elim andThen_InrE) auto
  obtain rss where rss: "list_all2 (\<lambda>(i, s) rs. added_rows x (context_of rq clock ep) i s rs) (zip (en_items (iq_envelope rq)) ss) rss"
      "length ss = length (en_items (iq_envelope rq))"
      "custody (wk_tables w2) = fold (add_reading ep ?received) (concat rss) (custody (tables n))"
    using process_items_effect [OF 2] by (auto simp: context_of_def)
  have c: "custody (wk_tables w') = custody (wk_tables w2)"
    by (rule wkeepsD [OF wkeeps_stage_pending 3]) (auto intro: keeps_intros)
  have "ep = k \<and> custody (wk_tables w') = fold (add_reading ep ?received) (concat rss) (custody (wk_tables w))"
    if "meta_value ''epoch'' (ledger_t (wk_tables w)) = Some k" for k
    using epoch_known [OF that 1, of ep] c rss(3) by simp
  then show ?thesis using e rss by blast
qed

lemma envelope_body_steps:
  assumes "envelope_body x cp up rq commit w = (Inr e, w')"
  obtains (refused) r where "e = Dropped (Rejected r)" "rj_reason_code r \<in> {SubjectScopeViolation, BatchTooLarge}"
      "en_source (iq_envelope rq) \<noteq> ip_configured_source (iq_principal rq) \<or> MAX_ITEMS_PER_ENVELOPE < length (en_items (iq_envelope rq))"
  | (claim) clock w1 where "claimed_body x cp up rq commit clock w1 = (Inr e, w')" "wk_tables w1 = wk_tables w"
      "length (en_items (iq_envelope rq)) \<le> MAX_ITEMS_PER_ENVELOPE"
      "en_source (iq_envelope rq) = ip_configured_source (iq_principal rq)" "\<exists>k k'. cp_clock cp k = (Inr clock, k')"
proof -
  let ?p = "iq_principal rq" and ?env = "iq_envelope rq"
  obtain current w1 where 1: "authentication_is_current_at_serialization x ?p w = (Inr current, w1)"
      and 2: "(if \<not> current then throw AuthenticationStale
      else if en_source ?env \<noteq> ip_configured_source ?p
      then andThen (emit_intrusion cp ?p SourceMismatch) (\<lambda>_.
        ret (envelope_rejected SubjectScopeViolation ''configured source does not match authenticated principal''
          ''/source'' ''configured authenticated source identity''))
      else if MAX_ITEMS_PER_ENVELOPE < length (en_items ?env)
      then ret (envelope_rejected BatchTooLarge (''items '' @ dec_nat (length (en_items ?env)) @ '' > '' @ dec_nat MAX_ITEMS_PER_ENVELOPE)
        ''/items'' (''at most '' @ dec_nat MAX_ITEMS_PER_ENVELOPE @ '' items''))
      else andThen (snapshot_clock cp) (\<lambda>clock.
        if fs_trusted_wall_time_ms clock = None \<and> list_ex requires_absolute_time (en_items ?env)
        then throw ProcessClockUntrusted else claimed_body x cp up rq commit clock)) w1 = (Inr e, w')"
    using assms unfolding envelope_body_eq Let_def by (elim andThen_InrE) blast
  have t1: "wk_tables w1 = wk_tables w" by (rule wkeepsD [OF wkeeps_authentication 1]) simp
  from 2 consider (r) r where "e = Dropped (Rejected r)" "rj_reason_code r \<in> {SubjectScopeViolation, BatchTooLarge}"
      "en_source ?env \<noteq> ip_configured_source ?p \<or> MAX_ITEMS_PER_ENVELOPE < length (en_items ?env)"
    | (go) clock w2 where "snapshot_clock cp w1 = (Inr clock, w2)" "claimed_body x cp up rq commit clock w2 = (Inr e, w')"
        "length (en_items ?env) \<le> MAX_ITEMS_PER_ENVELOPE" "en_source ?env = ip_configured_source ?p"
    by (auto simp: envelope_rejected_def andThen_eq_Inr simp del: change_work_eq split: if_splits)
  then show thesis
  proof cases
    case r
    then show ?thesis by (rule refused)
  next
    case go
    have "wk_tables w2 = wk_tables w1" by (rule wkeepsD [OF wkeeps_snapshot_clock go(1)]) simp
    moreover have "\<exists>k k'. cp_clock cp k = (Inr clock, k')"
      using go(1) by (auto simp: snapshot_clock_def split: prod.splits sum.splits)
    ultimately show ?thesis using go t1 claim by simp
  qed
qed

lemma envelope_body_cases:
  assumes "envelope_body x cp up rq commit w = (Inr e, w')"
  obtains (refused) r where "e = Dropped (Rejected r)" "rj_reason_code r \<in> {SubjectScopeViolation, BatchTooLarge}"
  | (known) "e = Dropped Duplicate" "commit"
  | (accepted) clock w1 where "accept_items x cp up rq commit clock w1 = (Inr e, w')"
      "length (en_items (iq_envelope rq)) \<le> MAX_ITEMS_PER_ENVELOPE" "custody (wk_tables w1) = custody (wk_tables w)"
      "\<exists>k k'. cp_clock cp k = (Inr clock, k')"
  using assms
proof (cases rule: envelope_body_steps)
  case (claim clock w1)
  obtain claimed w2 where 1: "claim_step x rq commit clock w1 = (Inr claimed, w2)"
      "(if \<not> claimed then ret (Dropped Duplicate) else accept_items x cp up rq commit clock) w2 = (Inr e, w')"
    using claim(1) unfolding claimed_body_def by (elim andThen_InrE)
  have "custody (wk_tables w2) = custody (wk_tables w1)" by (rule wkeepsD [OF custody_claim_step 1(1)]) simp
  moreover have "\<not> claimed \<Longrightarrow> commit" using 1(1) by (auto simp: claim_step_def andThen_eq_Inr split: if_splits)
  ultimately show ?thesis using 1(2) claim accepted known by (cases claimed) auto
qed (rule refused)

lemma claims_accept_items: "wkeeps (\<lambda>t. dedup_rows t = c) (accept_items x cp up rq commit clock)"
proof -
  have policy: "keeps (\<lambda>t. dedup_rows t = c) (cp_policy cp sys i)" for sys i by (rule narrow_claims) (rule policy_framed)
  have item: "wkeeps (\<lambda>t. dedup_rows t = c) (process_item x cp u ctx i n)" for u ctx i n
    unfolding process_item_def accept_item_def store_item_def stage_item_def Let_def
    by (intro wkeeps_intros wkeeps_change_work claims_kept policy) simp_all
  have "wkeeps (\<lambda>t. dedup_rows t = c) (process_items x cp up ctx n is)" for ctx n "is"
    by (induction "is" arbitrary: n) (auto intro!: wkeeps_intros item)
  then show ?thesis unfolding accept_items_def Let_def
    by (intro wkeeps_intros wkeeps_stage_pending claims_kept)
qed

end

section \<open>The transaction of an envelope\<close>

fun status_of :: "ending \<Rightarrow> ack_status" where
  "status_of (Dropped s) = s"
| "status_of (Committed s) = s"
| "status_of (RolledBack s) = s"

lemma no_write_tables: "on_conn CSqlite (execute x (\<lambda>t. ((), t))) w = (r, w') \<Longrightarrow> wk_tables w' = wk_tables w"
  by (auto simp: on_conn_def execute_def sql_def Let_def split: prod.splits sum.splits if_splits)

lemma envelope_mode_cases:
  assumes "process_envelope_mode x cp up rq commit w = (r, w')"
  obtains (failed) e where "r = Inl e" "wk_tables w' = wk_tables w"
  | (ended) w0 e w1 where "envelope_body x cp up rq commit w0 = (Inr e, w1)" "wk_tables w0 = wk_tables w"
      "r = Inr \<lparr> ea_envelope_id = en_envelope_id (iq_envelope rq), ea_status = status_of e \<rparr>"
      "wk_tables w' = (case e of Committed _ \<Rightarrow> wk_tables w1 | _ \<Rightarrow> wk_tables w)"
proof -
  let ?st = "on_conn CSqlite (execute x (\<lambda>t. ((), t)))"
  obtain r1 w1 where 1: "andThen ?st (\<lambda>_. envelope_body x cp up rq commit) (w\<lparr> wk_pending := [] \<rparr>) = (r1, w1)"
    by fastforce
  note run = assms [unfolded process_envelope_mode_def Let_def, unfolded 1]
  show thesis
  proof (cases r1)
    case (Inl e)
    then show ?thesis using run failed by (auto simp: roll_back_def)
  next
    case (Inr e)
    obtain w0 where w0: "?st (w\<lparr> wk_pending := [] \<rparr>) = (Inr (), w0)" "envelope_body x cp up rq commit w0 = (Inr e, w1)"
      using 1 Inr by (auto elim!: andThen_InrE simp del: on_conn_Inr)
    have t: "wk_tables w0 = wk_tables w" using no_write_tables [OF w0(1)] by simp
    obtain r2 w2 where 2: "?st w1 = (r2, w2)" by fastforce
    note t2 = no_write_tables [OF 2]
    show ?thesis
      using run failed ended [OF w0(2) t] Inr 2 t2
      by (cases e; cases r2) (auto simp: roll_back_def clear_cache_def with_node_def simp del: on_conn_Inr)
  qed
qed

lemma committed_accepts:
  assumes "envelope_body x cp up rq commit w = (Inr (Committed s), w')"
  shows "commit \<and> (\<exists>ss. s = Accepted ss)"
  using assms unfolding envelope_body_def accept_items_def Let_def
  by (auto elim!: andThen_InrE simp: envelope_rejected_def simp del: on_conn_Inr split: if_splits)

text \<open>Actions of the task that do not panic.\<close>

definition calm :: "'a work_act \<Rightarrow> bool" where
  "calm m \<longleftrightarrow> (\<forall>w. fst (m w) \<noteq> Inl Panicked)"

named_theorems calm_intros \<open>actions of the task that do not panic\<close>

lemma calm_basic [calm_intros]: "calm (ret a)" "calm (on_conn cause m)" "calm (change_work f)" "calm (read_work g)"
    "calm (throw ProcessClockUntrusted)" "calm (throw AuthenticationStale)" "calm (snapshot_clock cp)"
  by (auto simp: calm_def on_conn_def change_work_def read_work_def snapshot_clock_def split: prod.splits sum.splits)

lemma calm_andThen [calm_intros]: "calm m \<Longrightarrow> (\<And>a. calm (f a)) \<Longrightarrow> calm (andThen m f)"
  unfolding calm_def andThen_def by (auto split: prod.splits sum.splits) (metis fst_conv)+

lemma calm_cases [calm_intros]: "(b \<Longrightarrow> calm m) \<Longrightarrow> (\<not> b \<Longrightarrow> calm n) \<Longrightarrow> calm (if b then m else n)"
    "(v = None \<Longrightarrow> calm m) \<Longrightarrow> (\<And>a. v = Some a \<Longrightarrow> calm (f a)) \<Longrightarrow> calm (case v of None \<Rightarrow> m | Some a \<Rightarrow> f a)"
    "(\<And>a. u = Inl a \<Longrightarrow> calm (g a)) \<Longrightarrow> (\<And>b. u = Inr b \<Longrightarrow> calm (h b)) \<Longrightarrow> calm (case u of Inl a \<Rightarrow> g a | Inr b \<Rightarrow> h b)"
    "(\<And>a b. p = (a, b) \<Longrightarrow> calm (k a b)) \<Longrightarrow> calm (case_prod k p)"
    "(\<And>a b. d = RejectItem a b \<Longrightarrow> calm (rj a b)) \<Longrightarrow> (\<And>a b c. d = Accept a b c \<Longrightarrow> calm (ac a b c)) \<Longrightarrow>
      calm (case d of RejectItem a b \<Rightarrow> rj a b | Accept a b c \<Rightarrow> ac a b c)"
  by (cases b; cases v; cases u; cases p; cases d; simp)+

lemma calm_accept_item [calm_intros]: "calm (accept_item x cp up ctx i sys st)"
  unfolding accept_item_def store_item_def cached_series_def deliver_item_def Let_def by (intro calm_intros)

lemma item_violation_total:
  assumes "fs_trusted_wall_time_ms (ix_clock ctx) \<noteq> None \<or> \<not> requires_absolute_time i"
  shows "item_violation cp ctx i n \<noteq> None"
  using assms by (auto simp: item_violation_def freshness_rejection_def requires_absolute_time_def split: sum.splits option.splits)

lemma calm_process_item:
  assumes "fs_trusted_wall_time_ms (ix_clock ctx) \<noteq> None \<or> \<not> requires_absolute_time i"
  shows "calm (process_item x cp up ctx i n)"
  unfolding process_item_def resolve_subject_def emit_intrusion_def stage_item_def Let_def
  using item_violation_total [OF assms, of cp n] by (intro calm_intros) simp_all

lemma calm_process_items:
  assumes "fs_trusted_wall_time_ms (ix_clock ctx) \<noteq> None \<or> \<not> list_ex requires_absolute_time is"
  shows "calm (process_items x cp up ctx n is)"
  using assms by (induction "is" arbitrary: n) (auto intro!: calm_intros calm_process_item)

lemma calm_envelope_body [calm_intros]: "calm (envelope_body x cp up rq commit)"
  unfolding envelope_body_def accept_items_def authentication_is_current_at_serialization_def emit_intrusion_def
    stage_pending_def Let_def
  by (intro calm_intros calm_process_items) auto

lemma envelope_mode_calm: "fst (process_envelope_mode x cp up rq commit w) \<noteq> Inl Panicked"
proof -
  let ?st = "on_conn CSqlite (execute x (\<lambda>t. ((), t)))"
  have "calm (andThen ?st (\<lambda>_. envelope_body x cp up rq commit))" "calm ?st" by (intro calm_intros)+
  then have "fst (andThen ?st (\<lambda>_. envelope_body x cp up rq commit) v) \<noteq> Inl Panicked" "fst (?st v) \<noteq> Inl Panicked" for v
    unfolding calm_def by blast+
  then show ?thesis unfolding process_envelope_mode_def Let_def
    by (auto split: prod.splits sum.splits ending.splits) (metis fst_conv)+
qed

lemma on_collector_dead [simp]: "on_collector m c = (r, c') \<Longrightarrow> cl_dead c' = cl_dead c"
  by (auto simp: on_collector_def split: prod.splits)

lemma latch_retry_dead: "latch_retry x c = (b, c') \<Longrightarrow> cl_dead c' = cl_dead c"
  by (auto simp: latch_retry_def split: option.splits prod.splits sum.splits)

lemma note_purge_dead [simp]: "cl_dead (note_purge x now failed c) = cl_dead c"
  by (auto simp: note_purge_def split: prod.splits sum.splits)

lemma maybe_purge_dead [simp]: "cl_dead (maybe_purge_dedup x interval c) = cl_dead c"
  unfolding maybe_purge_dedup_def Let_def
  by (auto split: prod.splits sum.splits bool.splits simp del: on_collector_dead
      dest!: on_collector_dead latch_retry_dead) (metis latch_retry_dead prod.collapse)+

section \<open>Example data\<close>

definition demo_collector_node :: node where
  "demo_collector_node = fold (ledger_run demo_ext) [LSighting ''hw-1'' ''ble'', LApprove ''hw-1'' None Individual, LActivate demo_sid]
     demo_identity_node"

definition demo_work :: work where
  "demo_work = \<lparr> wk_clock = \<lparr> ck_trust = \<lparr> backward_tolerance_ms = 10, checkpoint_interval_ms = 60, ct_state =
       \<lparr> rs_evidence = Untrusted, rs_last_wall_ms = None, rs_consumed_manual_seq = 0, rs_last_checkpoint_monotonic_ms = 0 \<rparr> \<rparr>,
       ck_node = demo_collector_node \<rparr>,
     wk_cache = empty_cache, wk_pending = [], wk_faults = [], wk_intrusions = [] \<rparr>"

definition demo_item :: "string \<Rightarrow> string \<Rightarrow> reading_item" where
  "demo_item hw key = \<lparr> it_subject_hint = Some hw, it_measurement_key = key, it_channel_index = None, it_series_variant = None,
     it_values = [Fin 20], it_device_time_ms = None, it_time_source = EdgeNodeTime, it_age_ms = None, it_rssi = None, it_battery_pct = None \<rparr>"

definition demo_ingest :: ingest_request where
  "demo_ingest = \<lparr> iq_principal = trusted_official_adapter ''adapter'' ''ble'', iq_envelope =
     \<lparr> en_envelope_id = ''e-1'', en_source = ''ble'', en_declaration_version = None, en_items =
       [demo_item ''hw-1'' ''temperature_c'', demo_item ''hw-1'' ''custom.unknown'', demo_item ''hw-2'' ''temperature_c'',
        demo_item ''hw-1'' ''Bad''] \<rparr> \<rparr>"

definition demo_composition :: "i64 \<Rightarrow> composition" where
  "demo_composition received = node_composition demo_ext (\<lambda>_. ''20'') received (demo_clock_reading received True) None (\<lambda>_. []) (\<lambda>_. [])"

lemma demo_submission:
  "fst (process_envelope_mode demo_ext (demo_composition 1000) (\<lambda>_. 0) demo_ingest True demo_work) = Inr \<lparr> ea_envelope_id = ''e-1'',
     ea_status = Accepted [Stored Durable None, Stored QuarantinedRow (Some UnknownKey), Stored Staged None,
       rejected MalformedMeasurementKey (measurement_key_error_display (KeyInvalidSegment ''Bad''))
         (item_path 3 ''measurement_key'') ''canonical measurement key''] \<rparr>"
  by code_simp

lemma demo_submitted:
  obtains ss w' where "process_envelope_mode demo_ext (demo_composition 1000) (\<lambda>_. 0) demo_ingest True demo_work =
      (Inr \<lparr> ea_envelope_id = ''e-1'', ea_status = Accepted ss \<rparr>, w')" "length ss = 4"
proof -
  obtain r w' where run: "process_envelope_mode demo_ext (demo_composition 1000) (\<lambda>_. 0) demo_ingest True demo_work = (r, w')" by fastforce
  then have "r = fst (process_envelope_mode demo_ext (demo_composition 1000) (\<lambda>_. 0) demo_ingest True demo_work)" by simp
  then show thesis using that run unfolding demo_submission by simp
qed

section \<open>Properties\<close>

fun status_ok :: "item_status \<Rightarrow> bool" where
  "status_ok (Stored QuarantinedRow q) \<longleftrightarrow> q \<noteq> None"
| "status_ok (Stored _ q) \<longleftrightarrow> q = None"
| "status_ok (ItemRejected r) \<longleftrightarrow> rj_reason_code r \<notin> {BatchTooLarge, InternalFailure}"

lemma added_rows_status: "added_rows x ctx i s rs \<Longrightarrow> status_ok s"
  by (cases s rule: status_ok.cases) auto

lemma added_rows_statuses:
  "list_all2 (\<lambda>(i, s) rs. added_rows x ctx i s rs) (zip is ss) rss \<Longrightarrow> length ss = length is \<Longrightarrow> list_all status_ok ss"
proof (induction ss arbitrary: "is" rss)
  case (Cons s ss)
  then show ?case by (cases "is") (auto simp: list_all2_Cons1 dest: added_rows_status)
qed simp

text \<open>C?: An acknowledgement is well formed. It names the envelope it answers. An accepted envelope has at most 256
  items and one status per item, a durable or staged item has no quarantine reason, a quarantined one has a
  reason, and no item is rejected with the codes of a whole envelope. A duplicate is only reported by a
  submission, never by a validation; a whole envelope is rejected only for a foreign source or too many
  items; and the answer is never a deferral.\<close>


theorem ack_wellformed:
  assumes "process_envelope_mode x (node_composition x num received r pl et st) up rq commit w = (Inr a, w')"
  shows "ea_envelope_id a = en_envelope_id (iq_envelope rq) \<and>
    (case ea_status a of
       Accepted ss \<Rightarrow> length ss = length (en_items (iq_envelope rq)) \<and> length ss \<le> 256 \<and> list_all status_ok ss
     | Duplicate \<Rightarrow> commit
     | Rejected j \<Rightarrow> rj_reason_code j \<in> {SubjectScopeViolation, BatchTooLarge}
     | Deferred \<Rightarrow> False)"
  using assms
proof (cases rule: envelope_mode_cases)
  case (ended w0 e w1)
  from ended(1) have "case status_of e of
       Accepted ss \<Rightarrow> length ss = length (en_items (iq_envelope rq)) \<and> length ss \<le> 256 \<and> list_all status_ok ss
     | Duplicate \<Rightarrow> commit
     | Rejected j \<Rightarrow> rj_reason_code j \<in> {SubjectScopeViolation, BatchTooLarge}
     | Deferred \<Rightarrow> False"
  proof (cases rule: node.envelope_body_cases)
    case (accepted clock w1)
    from node.accept_items_effect [OF accepted(1)] accepted(2) show ?thesis
      by (auto simp: MAX_ITEMS_PER_ENVELOPE_def dest: added_rows_statuses)
  qed auto
  then show ?thesis using ended(3) by simp
qed simp

theorem ack_wellformed_witness:
  "\<exists>ss w'. process_envelope_mode demo_ext (demo_composition 1000) (\<lambda>_. 0) demo_ingest True demo_work =
      (Inr \<lparr> ea_envelope_id = ''e-1'', ea_status = Accepted ss \<rparr>, w') \<and> length ss = 4 \<and> list_all status_ok ss"
proof (rule demo_submitted)
  fix ss w' assume run: "process_envelope_mode demo_ext (demo_composition 1000) (\<lambda>_. 0) demo_ingest True demo_work =
      (Inr \<lparr> ea_envelope_id = ''e-1'', ea_status = Accepted ss \<rparr>, w')" "length ss = 4"
  from ack_wellformed [OF run(1) [unfolded demo_composition_def]] run show ?thesis by simp
qed

text \<open>C?: A submission is atomic. Whatever goes wrong, in the checks, in a statement at any point or in the final
  commit, the tables are those before the envelope, and so they are after a validation, a duplicate and a
  rejected envelope; only an accepted submission changes them.\<close>

theorem submission_atomic:
  "wk_tables (snd (process_envelope_mode x cp up rq commit w)) = wk_tables w \<or>
   commit \<and> (\<exists>ss. fst (process_envelope_mode x cp up rq commit w) =
     Inr \<lparr> ea_envelope_id = en_envelope_id (iq_envelope rq), ea_status = Accepted ss \<rparr>)"
proof -
  obtain r w' where run: "process_envelope_mode x cp up rq commit w = (r, w')" by fastforce
  then show ?thesis
  proof (cases rule: envelope_mode_cases)
    case (ended w0 e w1)
    then show ?thesis using run committed_accepts [of x cp up rq commit w0 _ w1] by (cases e) auto
  qed (simp add: run)
qed

text \<open>C?: The task never panics on a request: the clock has been checked before the items, so the two assertions of
  the freshness check hold, and the task goes on serving requests whatever it is sent.\<close>

theorem collector_survives:
  "(fst (handle_request x cp interval up up_end rq commit c) = Inl Closed \<longleftrightarrow> cl_dead c) \<and>
   cl_dead (snd (handle_request x cp interval up up_end rq commit c)) = cl_dead c"
proof -
  obtain r w where run: "process_envelope_mode x cp up rq commit (cl_work c) = (r, w)" by fastforce
  then have "r \<noteq> Inl Panicked" using envelope_mode_calm [of x cp up rq commit "cl_work c"] by simp
  then show ?thesis unfolding handle_request_def run
    by (auto simp: Let_def note_commit_def note_storage_failure_def split: sum.splits process_error.splits)
qed

text \<open>C?: What an accepted submission adds. The readings grow by one row for every durable or quarantined item, in
  the order of the items and under consecutive numbers, holding what the item says; the publication log
  grows by one entry for every durable item, which names its reading, as soon as the node may publish;
  staged and rejected items add neither, and nothing that was stored before is changed or removed.\<close>

theorem accepted_effects:
  assumes "process_envelope_mode x (node_composition x num received r pl et st) up rq True w = (Inr a, w')"
    and "ea_status a = Accepted ss" "meta_value ''epoch'' (ledger_t (wk_tables w)) = Some ep"
  shows "\<exists>clock rss. fs_received_at_ms clock = received \<and>
    list_all2 (\<lambda>(i, s) rs. added_rows x (context_of rq clock ep) i s rs) (zip (en_items (iq_envelope rq)) ss) rss \<and>
    custody (wk_tables w') = fold (add_reading ep received) (concat rss) (custody (wk_tables w))"
  using assms(1)
proof (cases rule: envelope_mode_cases)
  case (ended w0 e w1)
  have st: "status_of e = Accepted ss" using ended(3) assms(2) by simp
  from ended(1) show ?thesis
  proof (cases rule: node.envelope_body_cases)
    case (accepted clock w2)
    have received: "fs_received_at_ms clock = received" by (rule clock_received [OF accepted(4)])
    have "meta_value ''epoch'' (ledger_t (wk_tables w2)) = Some ep"
      using accepted(3) ended(2) assms(3) by (simp add: custody_def)
    then obtain rss where "list_all2 (\<lambda>(i, s) rs. added_rows x (context_of rq clock ep) i s rs) (zip (en_items (iq_envelope rq)) ss) rss"
        "custody (wk_tables w1) = fold (add_reading ep received) (concat rss) (custody (wk_tables w2))" "e = Committed (Accepted ss)"
      using node.accept_items_effect [OF accepted(1)] st received by auto
    then show ?thesis using received ended(2,4) accepted(3) by (intro exI [of _ clock] exI [of _ rss]) simp
  qed (use st in auto)
qed simp

theorem accepted_effects_witness:
  "\<exists>ss w' clock rss. process_envelope_mode demo_ext (demo_composition 1000) (\<lambda>_. 0) demo_ingest True demo_work =
      (Inr \<lparr> ea_envelope_id = ''e-1'', ea_status = Accepted ss \<rparr>, w') \<and>
    list_all2 (\<lambda>(i, s) rs. added_rows demo_ext (context_of demo_ingest clock ''epoch-1'') i s rs)
      (zip (en_items (iq_envelope demo_ingest)) ss) rss \<and>
    custody (wk_tables w') = fold (add_reading ''epoch-1'' 1000) (concat rss) (custody (wk_tables demo_work))"
proof (rule demo_submitted)
  fix ss w' assume run: "process_envelope_mode demo_ext (demo_composition 1000) (\<lambda>_. 0) demo_ingest True demo_work =
      (Inr \<lparr> ea_envelope_id = ''e-1'', ea_status = Accepted ss \<rparr>, w')" "length ss = 4"
  have "meta_value ''epoch'' (ledger_t (wk_tables demo_work)) = Some ''epoch-1''" by code_simp
  from accepted_effects [OF run(1) [unfolded demo_composition_def] _ this] run show ?thesis by simp blast
qed

lemma claim_known:
  assumes "try_claim_envelope_bounded_at x sender eid now lm s = (Inr b, s')" "r \<in> set (dedup_rows (tables s))"
    "claim_key sender eid r" "saturating_sub now (db_max_age_ms (dedup_of lm)) \<le> dd_received_at r"
  shows "\<not> b"
proof -
  have "list_ex (\<lambda>r. claim_key sender eid r \<and> saturating_sub now (db_max_age_ms (dedup_of lm)) \<le> dd_received_at r) (dedup_rows (tables s))"
    using assms(2-4) by (auto simp: list_ex_iff)
  then show ?thesis using assms(1)
    by (auto simp: try_claim_envelope_bounded_at_def andThen_eq_Inr ts_select_Inr Let_def)
qed

text \<open>The claim of an accepted submission.\<close>

lemma submission_claims:
  assumes "process_envelope_mode x (node_composition x num received r pl et st) up rq True w = (Inr a, w')" "ea_status a = Accepted ss"
    and "window_ok default_dedup_limits (dedup_rows (wk_tables w))"
  shows "en_source (iq_envelope rq) = ip_configured_source (iq_principal rq) \<and> length (en_items (iq_envelope rq)) \<le> MAX_ITEMS_PER_ENVELOPE \<and>
    window_ok default_dedup_limits (dedup_rows (wk_tables w')) \<and>
    (\<exists>d\<in>set (dedup_rows (wk_tables w')). claim_key (ip_principal_id (iq_principal rq)) (en_envelope_id (iq_envelope rq)) d \<and>
       dd_received_at d = received)"
  using assms(1)
proof (cases rule: envelope_mode_cases)
  case (ended w0 e w1)
  have st: "status_of e = Accepted ss" using ended(3) assms(2) by simp
  from ended(1) show ?thesis
  proof (cases rule: node.envelope_body_steps)
    case (claim clock w2)
    have received: "fs_received_at_ms clock = received" by (rule clock_received [OF claim(5)])
    obtain b w3 where 3: "claim_step x rq True clock w2 = (Inr b, w3)" "b"
        "accept_items x (node_composition x num received r pl et st) up rq True clock w3 = (Inr e, w1)"
      using claim(1) st unfolding claimed_body_def by (elim andThen_InrE) (auto split: if_splits)
    have c: "dedup_rows (wk_tables w1) = dedup_rows (wk_tables w3)" by (rule wkeepsD [OF node.claims_accept_items 3(3)]) simp
    obtain s s' where s: "try_claim_envelope_bounded_at x (ip_principal_id (iq_principal rq)) (en_envelope_id (iq_envelope rq))
        received default_dedup_limits s = (Inr True, s')" "tables s = wk_tables w2" "tables s' = wk_tables w3"
      using claim_step_claims [OF 3(1)] 3(2) received by metis
    have ok: "window_ok default_dedup_limits (dedup_rows (tables s))" using assms(3) s(2) claim(2) ended(2) by simp
    have "wk_tables w' = wk_tables w1" using ended(4) st node.accept_items_effect [OF 3(3)] by auto
    then show ?thesis using claim_window [OF ok s(1)] claim_recorded [OF _ s(1)] ok c s(3) claim(3,4) by (auto simp: window_ok_def)
  qed (use st in auto)
qed simp

text \<open>C?: A retry is recognised. When an accepted envelope is submitted again within the deduplication window,
  each answer to it, whatever the retried envelope holds, leaves the tables as they are; the same request
  is answered with a duplicate.\<close>

theorem resubmission_duplicate:
  assumes "window_ok default_dedup_limits (dedup_rows (wk_tables w))"
    and "process_envelope_mode x (node_composition x num received r pl et st) up rq True w = (Inr a, w1)" "ea_status a = Accepted ss"
    and "process_envelope_mode x (node_composition x num later r' pl et st) up' rq' True w1 = (Inr b, w2)"
    and "ip_principal_id (iq_principal rq') = ip_principal_id (iq_principal rq)"
    and "en_envelope_id (iq_envelope rq') = en_envelope_id (iq_envelope rq)"
    and "i64_min \<le> received" "later \<le> received + 72 * 60 * 60 * 1000"
  shows "wk_tables w2 = wk_tables w1 \<and> (\<forall>ss. ea_status b \<noteq> Accepted ss) \<and> (rq' = rq \<longrightarrow> ea_status b = Duplicate)"
  using assms(4)
proof (cases rule: envelope_mode_cases)
  case (ended w3 e w4)
  note first = submission_claims [OF assms(2,3,1)]
  then obtain d where d: "d \<in> set (dedup_rows (wk_tables w1))" "claim_key (ip_principal_id (iq_principal rq)) (en_envelope_id (iq_envelope rq)) d"
      "dd_received_at d = received" by blast
  from ended(1) show ?thesis
  proof (cases rule: node.envelope_body_steps)
    case (refused j)
    then show ?thesis using first ended(3,4) by auto
  next
    case (claim clock w5)
    have now: "fs_received_at_ms clock = later" by (rule clock_received [OF claim(5)])
    obtain c w6 where 6: "claim_step x rq' True clock w5 = (Inr c, w6)"
        "(if \<not> c then ret (Dropped Duplicate) else accept_items x (node_composition x num later r' pl et st) up' rq' True clock) w6 = (Inr e, w4)"
      using claim(1) unfolding claimed_body_def by (elim andThen_InrE)
    obtain s s' where s: "try_claim_envelope_bounded_at x (ip_principal_id (iq_principal rq')) (en_envelope_id (iq_envelope rq'))
        later default_dedup_limits s = (Inr c, s')" "tables s = wk_tables w5"
      using claim_step_claims [OF 6(1)] now by metis
    have "saturating_sub later (db_max_age_ms (dedup_of default_dedup_limits)) \<le> received"
      using assms(7,8) by (simp add: default_dedup_limits.rep_eq saturating_sub_def clamp_i64_def)
    then have "\<not> c" using claim_known [OF s(1), of d] d s(2) claim(2) ended(2) assms(5,6) by simp
    then have "e = Dropped Duplicate" using 6(2) by simp
    then show ?thesis using ended(3,4) by simp
  qed
qed simp

definition demo_empty_envelope :: ingest_request where
  "demo_empty_envelope = demo_ingest\<lparr> iq_envelope := (iq_envelope demo_ingest)\<lparr> en_items := [] \<rparr> \<rparr>"

theorem resubmission_duplicate_witness:
  "\<exists>w1 b w2. process_envelope_mode demo_ext (demo_composition 1000) (\<lambda>_. 0) demo_empty_envelope True demo_work =
      (Inr \<lparr> ea_envelope_id = ''e-1'', ea_status = Accepted [] \<rparr>, w1) \<and>
    process_envelope_mode demo_ext (demo_composition 2000) (\<lambda>_. 0) demo_empty_envelope True w1 = (Inr b, w2) \<and>
    wk_tables w2 = wk_tables w1 \<and> ea_status b = Duplicate"
proof -
  let ?run = "\<lambda>now. process_envelope_mode demo_ext (demo_composition now) (\<lambda>_. 0) demo_empty_envelope True"
  obtain r1 w1 where 1: "?run 1000 demo_work = (r1, w1)" by fastforce
  obtain r2 w2 where 2: "?run 2000 w1 = (r2, w2)" by fastforce
  have "fst (?run 1000 demo_work) = Inr \<lparr> ea_envelope_id = ''e-1'', ea_status = Accepted [] \<rparr>" by code_simp
  then have r1: "r1 = Inr \<lparr> ea_envelope_id = ''e-1'', ea_status = Accepted [] \<rparr>" using 1 by simp
  have "\<not> isl (fst (?run 2000 (snd (?run 1000 demo_work))))" by code_simp
  then obtain b where r2: "r2 = Inr b" using 1 2 by (cases r2) simp_all
  have "dedup_rows (wk_tables demo_work) = []" by code_simp
  then have ok: "window_ok default_dedup_limits (dedup_rows (wk_tables demo_work))"
    by (simp add: window_ok_def keys_ok_def default_dedup_limits.rep_eq)
  from resubmission_duplicate [OF ok 1 [unfolded r1 demo_composition_def] _ 2 [unfolded r2 demo_composition_def]]
  have "wk_tables w2 = wk_tables w1 \<and> ea_status b = Duplicate" by (simp add: i64_min_def)
  then show ?thesis using 1 2 r1 r2 by simp
qed

end
