(* ===== verification/Spec2Isabelle.thy ===== *)
theory Spec2Isabelle
  imports Engine_Effects Ledger_Effects Mqtt_Delivery Delivery Collector_Props
begin

text \<open>
  Verification of the IoTKit edge node (the Rust workspace under \<^verbatim>\<open>edge-node/\<close>).

  The node accepts readings from input adapters, processes them in device-local pipelines
  (calibration, thresholds with hysteresis, debounce, accumulated counting), and publishes the
  resulting observations to an MQTT broker through an outbox in its SQLite database.

  Theories, from the bottom:

  \<^item> \<^verbatim>\<open>Prelude\<close>: state-and-error actions, generic facts on lists of rows.
  \<^item> \<^verbatim>\<open>Rust_Num\<close>, \<^verbatim>\<open>Rust_Str\<close>: integers, IEEE doubles, UTF-8 strings, JSON values.
  \<^item> \<^verbatim>\<open>Types\<close>: \<^verbatim>\<open>core/types\<close>, in particular the public identifiers.
  \<^item> \<^verbatim>\<open>Pipeline_Def\<close>, \<^verbatim>\<open>Evaluator\<close>, \<^verbatim>\<open>Wire\<close>, \<^verbatim>\<open>Store\<close>, \<^verbatim>\<open>Engine\<close>: the files
    of \<^verbatim>\<open>core/pipeline/src\<close>, over the tables of \<^verbatim>\<open>Database\<close>.
\<close>

end
